(* ===== verification/Prelude.thy ===== *)
theory Prelude
  imports Main "HOL-Library.Char_ord" "HOL-Library.List_Lexorder"
begin

text \<open>
  What every component shares: Go's error values and the way the sources wrap them, the shape
  of a fallible operation, the few functions of the standard library \<open>strings\<close> the sources
  call, and generic facts on lists.

  Go strings are byte strings: \<open>string\<close> (a \<open>char list\<close>) has one \<open>char\<close> per byte, so
  \<open>length\<close> is Go's \<open>len\<close> and the order of \<open>List_Lexorder\<close> over \<open>Char_ord\<close> is Go's
  \<open><\<close> on strings. Go's \<open>int\<close> and \<open>int64\<close> are HOL's \<open>int\<close> where the code only compares
  them; they keep their width where the code converts or adds them.
\<close>

named_theorems go_simps \<open>unfoldings of the operations that component proofs compute with\<close>

section \<open>Go errors\<close>

text \<open>
  \<open>ErrNew m\<close> is \<open>errors.New(m)\<close>; \<open>ErrWrap p e\<close> is \<open>fmt.Errorf("p: %w", e)\<close>;
  \<open>ErrDetail e d\<close> is \<open>fmt.Errorf("%w: d", e)\<close>. The sources' sentinel errors have pairwise
  different messages, so comparing them by message is comparing them by identity.
\<close>

datatype goerr = ErrNew string | ErrWrap string goerr | ErrDetail goerr string

fun errors_Is :: "goerr \<Rightarrow> goerr \<Rightarrow> bool" where
  "errors_Is (ErrNew m) t = (ErrNew m = t)"
| "errors_Is (ErrWrap p e) t = (ErrWrap p e = t \<or> errors_Is e t)"
| "errors_Is (ErrDetail e d) t = (ErrDetail e d = t \<or> errors_Is e t)"

fun err_message :: "goerr \<Rightarrow> string" where
  "err_message (ErrNew m) = m"
| "err_message (ErrWrap p e) = p @ '': '' @ err_message e"
| "err_message (ErrDetail e d) = err_message e @ '': '' @ d"

type_synonym 'a result = "goerr + 'a"

fun isOk :: "'a result \<Rightarrow> bool" where
  "isOk (Inl e) = False"
| "isOk (Inr a) = True"

lemma isOk_iff: "isOk r \<longleftrightarrow> (\<exists>a. r = Inr a)"
  by (cases r) auto

lemma errors_Is_refl [simp]: "errors_Is e e"
  by (cases e) auto

text \<open>A loop that maps a fallible body over a list and stops at the first error.\<close>

fun mapM :: "('a \<Rightarrow> 'b result) \<Rightarrow> 'a list \<Rightarrow> 'b list result" where
  "mapM f [] = Inr []"
| "mapM f (x # xs) =
     (case f x of
        Inl e \<Rightarrow> Inl e
      | Inr y \<Rightarrow> (case mapM f xs of Inl e \<Rightarrow> Inl e | Inr ys \<Rightarrow> Inr (y # ys)))"

lemma mapM_Inr_iff:
  "mapM f xs = Inr ys \<longleftrightarrow> list_all2 (\<lambda>x y. f x = Inr y) xs ys"
proof (induction xs arbitrary: ys)
  case Nil
  then show ?case by auto
next
  case (Cons x xs)
  note IH = Cons.IH
  show ?case
  proof (cases "f x")
    case (Inl e)
    then show ?thesis by (cases ys) auto
  next
    case (Inr y)
    show ?thesis
    proof (cases "mapM f xs")
      case (Inl e)
      with IH have "\<not> list_all2 (\<lambda>x y. f x = Inr y) xs zs" for zs
        by (metis sum.distinct(1))
      with Inl Inr show ?thesis by (cases ys) auto
    next
      case (Inr zs)
      with IH have "list_all2 (\<lambda>x y. f x = Inr y) xs ws \<longleftrightarrow> ws = zs" for ws
        by (metis sum.inject(2))
      with Inr \<open>f x = Inr y\<close> show ?thesis by (cases ys) auto
    qed
  qed
qed

lemma mapM_Inr_map: "(\<And>x. x \<in> set xs \<Longrightarrow> f x = Inr (g x)) \<Longrightarrow> mapM f xs = Inr (map g xs)"
  by (induction xs) auto

section \<open>The functions of package strings\<close>

text \<open>
  White space as \<open>strings.TrimSpace\<close> and \<open>strings.Fields\<close> see it, and case folding as
  \<open>strings.EqualFold\<close> does it, on ASCII text (the multi-byte Unicode spaces and folds are left
  alone).
\<close>

definition isSpace :: "char \<Rightarrow> bool" where
  "isSpace c \<longleftrightarrow> c \<in> {CHR '' '', CHR 0x09, CHR 0x0A, CHR 0x0B, CHR 0x0C, CHR 0x0D}"

definition TrimLeft :: "(char \<Rightarrow> bool) \<Rightarrow> string \<Rightarrow> string" where
  "TrimLeft p s = dropWhile p s"

definition TrimRight :: "(char \<Rightarrow> bool) \<Rightarrow> string \<Rightarrow> string" where
  "TrimRight p s = rev (dropWhile p (rev s))"

definition TrimSpace :: "string \<Rightarrow> string" where
  "TrimSpace s = TrimRight isSpace (TrimLeft isSpace s)"

fun Split :: "char \<Rightarrow> string \<Rightarrow> string list" where
  "Split c [] = [[]]"
| "Split c (x # xs) =
     (if x = c then [] # Split c xs
      else (case Split c xs of [] \<Rightarrow> [[x]] | y # ys \<Rightarrow> (x # y) # ys))"

fun fields_from :: "string \<Rightarrow> string \<Rightarrow> string list" where
  "fields_from w [] = (if w = [] then [] else [w])"
| "fields_from w (c # cs) =
     (if isSpace c then (if w = [] then fields_from [] cs else w # fields_from [] cs)
      else fields_from (w @ [c]) cs)"

definition Fields :: "string \<Rightarrow> string list" where
  "Fields s = fields_from [] s"

definition to_lower :: "char \<Rightarrow> char" where
  "to_lower c = (if 65 \<le> (of_char c :: nat) \<and> (of_char c :: nat) \<le> 90
                 then char_of ((of_char c :: nat) + 32) else c)"

definition EqualFold :: "string \<Rightarrow> string \<Rightarrow> bool" where
  "EqualFold s t \<longleftrightarrow> map to_lower s = map to_lower t"

lemma Split_not_Nil [simp]: "Split c s \<noteq> []"
  by (induction s) (auto split: list.splits)

lemma dropWhile_id_iff: "dropWhile p xs = xs \<longleftrightarrow> (xs = [] \<or> \<not> p (hd xs))"
proof (cases xs)
  case (Cons x ys)
  have "length (dropWhile p ys) \<le> length ys"
    by (rule length_dropWhile_le)
  then have "dropWhile p ys \<noteq> x # ys" by auto
  with Cons show ?thesis by auto
qed simp

lemma hd_dropWhile_rev:
  assumes "xs = [] \<or> \<not> p (hd xs)"
  shows "rev (dropWhile p (rev xs)) = [] \<or> \<not> p (hd (rev (dropWhile p (rev xs))))"
proof (cases xs)
  case (Cons y ys)
  with assms have "\<not> p y" by simp
  then have "dropWhile p (rev ys @ [y]) = dropWhile p (rev ys) @ [y]"
    by (induction "rev ys") (auto simp: dropWhile_append)
  with Cons \<open>\<not> p y\<close> show ?thesis by simp
qed simp

lemma TrimSpace_idem [simp]: "TrimSpace (TrimSpace s) = TrimSpace s"
proof -
  let ?u = "dropWhile isSpace s"
  have u: "?u = [] \<or> \<not> isSpace (hd ?u)"
    using hd_dropWhile [of isSpace s] by blast
  let ?t = "rev (dropWhile isSpace (rev ?u))"
  have t: "?t = [] \<or> \<not> isSpace (hd ?t)"
    by (rule hd_dropWhile_rev [where p = isSpace, OF u])
  then have "dropWhile isSpace ?t = ?t"
    by (simp only: dropWhile_id_iff)
  moreover have "dropWhile isSpace (dropWhile isSpace (rev ?u)) = dropWhile isSpace (rev ?u)"
    by (rule dropWhile_idem)
  ultimately show ?thesis
    by (simp add: TrimSpace_def TrimLeft_def TrimRight_def)
qed

section \<open>Decimal text\<close>

text \<open>\<open>strconv.FormatInt(i, 10)\<close>, which \<open>%d\<close> and \<open>encoding/json\<close> print.\<close>

fun utoa :: "nat \<Rightarrow> string" where
  "utoa n = (if n < 10 then [char_of (48 + n)] else utoa (n div 10) @ [char_of (48 + n mod 10)])"

declare utoa.simps [simp del]

definition itoa :: "int \<Rightarrow> string" where
  "itoa i = (if i < 0 then CHR ''-'' # utoa (nat (- i)) else utoa (nat i))"

section \<open>Lists\<close>

lemma foldl_append_map: "foldl (\<lambda>acc x. acc @ f x) acc xs = acc @ concat (map f xs)"
  by (induction xs arbitrary: acc) auto

lemma foldl_concat: "foldl f a (concat xss) = foldl (foldl f) a xss"
  by (induction xss arbitrary: a) auto

lemma foldl_invariant:
  assumes "I a" and "\<And>a x. x \<in> set xs \<Longrightarrow> I a \<Longrightarrow> I (f a x)"
  shows "I (foldl f a xs)"
  using assms by (induction xs arbitrary: a) auto

text \<open>
  A fold whose steps act on one component \<open>f\<close> of the state as a (possibly empty) sequence of
  simpler steps acts on \<open>f\<close> as the concatenation of those sequences.
\<close>

lemma foldl_trace:
  assumes "\<And>s x. f (step s x) = foldl g (f s) (ev x)"
  shows "f (foldl step s xs) = foldl g (f s) (concat (map ev xs))"
  using assms by (induction xs arbitrary: s) simp_all

lemma foldl_frame:
  assumes "\<And>s x. f (step s x) = f s"
  shows "f (foldl step s xs) = f s"
  using assms by (induction xs arbitrary: s) simp_all

text \<open>Running maxima: the loops \<open>if v > cur { cur = v }\<close> of the sources.\<close>

definition upmax :: "int \<Rightarrow> int \<Rightarrow> int" where
  "upmax cur v = (if v > cur then v else cur)"

lemma upmax_max [simp]: "upmax a b = max a b"
  by (simp add: upmax_def max_def)

lemma foldl_upmax_mono: "a \<le> foldl max a (vs :: int list)"
  by (induction vs arbitrary: a) (auto intro: order_trans [OF max.cobounded1])

lemma foldl_max_less_iff: "c < foldl max a (vs :: int list) \<longleftrightarrow> c < a \<or> (\<exists>v \<in> set vs. c < v)"
  by (induction vs arbitrary: a) auto

lemma foldl_max_le_iff: "foldl max a (vs :: int list) \<le> c \<longleftrightarrow> a \<le> c \<and> (\<forall>v \<in> set vs. v \<le> c)"
  by (induction vs arbitrary: a) auto

lemma foldl_max_in: "foldl max a (vs :: int list) \<in> insert a (set vs)"
proof (induction vs arbitrary: a)
  case (Cons v vs)
  from Cons.IH [of "max a v"] show ?case by (auto simp: max_def)
qed simp

lemma foldl_max_Max: "foldl max a (vs :: int list) = Max (insert a (set vs))"
proof (rule Max_eqI [symmetric])
  show "foldl max a vs \<in> insert a (set vs)" by (rule foldl_max_in)
  show "y \<le> foldl max a vs" if "y \<in> insert a (set vs)" for y
    using that foldl_max_le_iff [of a vs "foldl max a vs"] by auto
qed simp

lemma foldl_max_set_cong:
  assumes "set vs = set (ws :: int list)"
  shows "foldl max a vs = foldl max a ws"
  using assms by (simp add: foldl_max_Max)

end
