(* ===== verification/Whitelists.thy ===== *)
theory Whitelists
  imports Prelude
begin

text \<open>
  The check types, the limits and the whitelists of \<open>internal/scraper\<close> (\<open>report.go\<close>'s
  constants, \<open>limits.go\<close>, \<open>whitelist.go\<close>). \<open>CheckType\<close> is a Go string type, so a value
  may be a string that is none of the six constants; it stays a \<open>string\<close> here. A nil
  \<open>*EffectiveWhitelists\<close> is \<open>None\<close>.
\<close>

type_synonym CheckType = string

definition CheckTypeMetricNameLength :: CheckType where
  "CheckTypeMetricNameLength = ''metric_name_length''"

definition CheckTypeLabelNameLength :: CheckType where
  "CheckTypeLabelNameLength = ''label_name_length''"

definition CheckTypeLabelValueLength :: CheckType where
  "CheckTypeLabelValueLength = ''label_value_length''"

definition CheckTypeCardinality :: CheckType where
  "CheckTypeCardinality = ''cardinality''"

definition CheckTypeHistogramBuckets :: CheckType where
  "CheckTypeHistogramBuckets = ''histogram_buckets''"

definition CheckTypeResponseWeight :: CheckType where
  "CheckTypeResponseWeight = ''response_weight''"

lemmas CheckType_defs =
  CheckTypeMetricNameLength_def CheckTypeLabelNameLength_def CheckTypeLabelValueLength_def
  CheckTypeCardinality_def CheckTypeHistogramBuckets_def CheckTypeResponseWeight_def

lemma CheckType_distinct [simp]:
  "CheckTypeMetricNameLength \<noteq> CheckTypeLabelNameLength"
  "CheckTypeMetricNameLength \<noteq> CheckTypeLabelValueLength"
  "CheckTypeMetricNameLength \<noteq> CheckTypeCardinality"
  "CheckTypeMetricNameLength \<noteq> CheckTypeHistogramBuckets"
  "CheckTypeMetricNameLength \<noteq> CheckTypeResponseWeight"
  "CheckTypeLabelNameLength \<noteq> CheckTypeMetricNameLength"
  "CheckTypeLabelNameLength \<noteq> CheckTypeLabelValueLength"
  "CheckTypeLabelNameLength \<noteq> CheckTypeCardinality"
  "CheckTypeLabelNameLength \<noteq> CheckTypeHistogramBuckets"
  "CheckTypeLabelNameLength \<noteq> CheckTypeResponseWeight"
  "CheckTypeLabelValueLength \<noteq> CheckTypeMetricNameLength"
  "CheckTypeLabelValueLength \<noteq> CheckTypeLabelNameLength"
  "CheckTypeLabelValueLength \<noteq> CheckTypeCardinality"
  "CheckTypeLabelValueLength \<noteq> CheckTypeHistogramBuckets"
  "CheckTypeLabelValueLength \<noteq> CheckTypeResponseWeight"
  "CheckTypeCardinality \<noteq> CheckTypeMetricNameLength"
  "CheckTypeCardinality \<noteq> CheckTypeLabelNameLength"
  "CheckTypeCardinality \<noteq> CheckTypeLabelValueLength"
  "CheckTypeCardinality \<noteq> CheckTypeHistogramBuckets"
  "CheckTypeCardinality \<noteq> CheckTypeResponseWeight"
  "CheckTypeHistogramBuckets \<noteq> CheckTypeMetricNameLength"
  "CheckTypeHistogramBuckets \<noteq> CheckTypeLabelNameLength"
  "CheckTypeHistogramBuckets \<noteq> CheckTypeLabelValueLength"
  "CheckTypeHistogramBuckets \<noteq> CheckTypeCardinality"
  "CheckTypeHistogramBuckets \<noteq> CheckTypeResponseWeight"
  "CheckTypeResponseWeight \<noteq> CheckTypeMetricNameLength"
  "CheckTypeResponseWeight \<noteq> CheckTypeLabelNameLength"
  "CheckTypeResponseWeight \<noteq> CheckTypeLabelValueLength"
  "CheckTypeResponseWeight \<noteq> CheckTypeCardinality"
  "CheckTypeResponseWeight \<noteq> CheckTypeHistogramBuckets"
  by (simp_all add: CheckType_defs)

record LimitsConfig =
  MaxMetricNameLen :: int
  MaxLabelNameLen :: int
  MaxLabelValueLen :: int
  MaxMetricCardinality :: int
  MaxHistogramBuckets :: int
  MaxBytesWeight :: int

record MetricWhitelistRule =
  mwr_TargetGroup :: string
  mwr_Env :: string
  mwr_MetricName :: string
  mwr_Checks :: "CheckType \<rightharpoonup> int"

record TargetWhitelistRule =
  twr_TargetGroup :: string
  twr_Env :: string
  twr_Checks :: "CheckType list"

record EffectiveWhitelists =
  MetricChecks :: "string \<rightharpoonup> (CheckType \<rightharpoonup> int)"
  DisabledChecks :: "CheckType set"

definition NewEffectiveWhitelists :: EffectiveWhitelists where
  "NewEffectiveWhitelists = \<lparr>MetricChecks = Map.empty, DisabledChecks = {}\<rparr>"

fun IsCheckDisabled :: "EffectiveWhitelists option \<Rightarrow> CheckType \<Rightarrow> bool" where
  "IsCheckDisabled None checkType = False"
| "IsCheckDisabled (Some w) checkType = (checkType \<in> DisabledChecks w)"

text \<open>The pair \<open>(limit, ok)\<close> of the source is an option.\<close>

fun MetricCustomLimit :: "EffectiveWhitelists option \<Rightarrow> string \<Rightarrow> CheckType \<Rightarrow> int option" where
  "MetricCustomLimit None metricName checkType = None"
| "MetricCustomLimit (Some w) metricName checkType =
     (case MetricChecks w metricName of
        None \<Rightarrow> None
      | Some metricChecks \<Rightarrow>
          (case metricChecks checkType of None \<Rightarrow> None | Some limit \<Rightarrow> Some limit))"

lemma NewEffectiveWhitelists_neutral [simp]:
  "IsCheckDisabled (Some NewEffectiveWhitelists) c = False"
  "MetricCustomLimit (Some NewEffectiveWhitelists) m c = None"
  by (simp_all add: NewEffectiveWhitelists_def)

end
