(* ===== verification/Violations.thy ===== *)
theory Violations
  imports Whitelists
begin

text \<open>
  The report of one scrape (\<open>internal/scraper/report.go\<close>, \<open>target_group.go\<close>): the violation
  lists of \<open>Details\<close>, the worst violation of each kind under \<open>Max\<close>, and the operations
  that add a violation. Each \<open>add\<close> operation keeps one entry per key (the metric, or the
  metric and label, or the metric, label and value) with the largest value seen.

  The five kinds share one contract, the locale \<open>violation_log\<close>: its lemmas say that the list
  has one entry per key, that the entry is the largest added for the key, and that \<open>Max\<close> is
  the largest of all. It is interpreted on the five \<open>add\<close> operations of the code.
\<close>

section \<open>Data\<close>

record MetricNameViolation =
  mn_MetricName :: string
  mn_Length :: int
  mn_Whitelisted :: bool

record LabelNameViolation =
  ln_MetricName :: string
  ln_LabelName :: string
  ln_Length :: int
  ln_Whitelisted :: bool

record LabelValueViolation =
  lv_MetricName :: string
  lv_LabelName :: string
  lv_Value :: string
  lv_Length :: int
  lv_Whitelisted :: bool

record CardinalityViolation =
  cv_MetricName :: string
  cv_Value :: int
  cv_Whitelisted :: bool

record HistogramBucketsViolation =
  hb_MetricName :: string
  hb_Buckets :: int
  hb_Whitelisted :: bool

record CheckResult =
  chk_Type :: CheckType
  chk_Limit :: int
  chk_Current :: int
  chk_Violated :: bool
  chk_Whitelisted :: bool

record MaxStats =
  mx_MetricNameTooLong :: "MetricNameViolation option"
  mx_LabelNameTooLong :: "LabelNameViolation option"
  mx_LabelValueTooLong :: "LabelValueViolation option"
  mx_Cardinality :: "CardinalityViolation option"
  mx_HistogramBuckets :: "HistogramBucketsViolation option"

record CheckLimits =
  cl_MetricNameLength :: int
  cl_LabelNameLength :: int
  cl_LabelValueLength :: int
  cl_Cardinality :: int
  cl_HistogramBuckets :: int
  cl_ResponseWeight :: int

record CheckCurrent =
  cc_MetricNameLength :: int
  cc_LabelNameLength :: int
  cc_LabelValueLength :: int
  cc_Cardinality :: int
  cc_HistogramBuckets :: int
  cc_ResponseWeight :: int

record Details =
  d_MetricNameTooLong :: "MetricNameViolation list"
  d_LabelNameTooLong :: "LabelNameViolation list"
  d_LabelValueTooLong :: "LabelValueViolation list"
  d_Cardinality :: "CardinalityViolation list"
  d_HistogramBuckets :: "HistogramBucketsViolation list"
  d_Checks :: "CheckResult list"
  d_Max :: "MaxStats option"
  d_Limits :: "CheckLimits option"
  d_Current :: "CheckCurrent option"
  d_ResponseWeight :: int

record Report =
  rep_TargetGroup :: string
  rep_Env :: string
  rep_Cluster :: string
  rep_TeamName :: string
  rep_Details :: Details
  rep_Checks :: "CheckResult list"
  maxMetricNameLen :: int
  maxLabelNameLen :: int
  maxLabelValueLen :: int
  maxMetricCardinality :: int
  maxHistogramBuckets :: int
  maxResponseWeight :: int

text \<open>The fields \<open>ID\<close>, \<open>FirstCheck\<close> and \<open>LastCheck\<close> of \<open>TargetGroup\<close> are never set by the scraper.\<close>

record TargetGroup =
  tg_Name :: string
  tg_Env :: string
  tg_Cluster :: string
  tg_Job :: string
  tg_TeamName :: string

definition zeroMaxStats :: MaxStats where
  "zeroMaxStats = \<lparr>mx_MetricNameTooLong = None, mx_LabelNameTooLong = None,
     mx_LabelValueTooLong = None, mx_Cardinality = None, mx_HistogramBuckets = None\<rparr>"

definition zeroDetails :: Details where
  "zeroDetails = \<lparr>d_MetricNameTooLong = [], d_LabelNameTooLong = [], d_LabelValueTooLong = [],
     d_Cardinality = [], d_HistogramBuckets = [], d_Checks = [], d_Max = None, d_Limits = None,
     d_Current = None, d_ResponseWeight = 0\<rparr>"

section \<open>Recording the worst violation of a kind\<close>

definition ensureMax :: "Details \<Rightarrow> Details" where
  "ensureMax d = (case d_Max d of None \<Rightarrow> d\<lparr>d_Max := Some zeroMaxStats\<rparr> | Some _ \<Rightarrow> d)"

text \<open>\<open>d.Max\<close> after \<open>ensureMax\<close>, which is never nil.\<close>

definition max_of :: "Details \<Rightarrow> MaxStats" where
  "max_of d = (case d_Max d of None \<Rightarrow> zeroMaxStats | Some m \<Rightarrow> m)"

definition updateMaxMetricName :: "Details \<Rightarrow> MetricNameViolation \<Rightarrow> Details" where
  "updateMaxMetricName d v =
     (let d = ensureMax d; m = max_of d in
      if (case mx_MetricNameTooLong m of None \<Rightarrow> True | Some w \<Rightarrow> mn_Length v > mn_Length w)
      then d\<lparr>d_Max := Some (m\<lparr>mx_MetricNameTooLong := Some v\<rparr>)\<rparr> else d)"

definition updateMaxLabelName :: "Details \<Rightarrow> LabelNameViolation \<Rightarrow> Details" where
  "updateMaxLabelName d v =
     (let d = ensureMax d; m = max_of d in
      if (case mx_LabelNameTooLong m of None \<Rightarrow> True | Some w \<Rightarrow> ln_Length v > ln_Length w)
      then d\<lparr>d_Max := Some (m\<lparr>mx_LabelNameTooLong := Some v\<rparr>)\<rparr> else d)"

definition updateMaxLabelValue :: "Details \<Rightarrow> LabelValueViolation \<Rightarrow> Details" where
  "updateMaxLabelValue d v =
     (let d = ensureMax d; m = max_of d in
      if (case mx_LabelValueTooLong m of None \<Rightarrow> True | Some w \<Rightarrow> lv_Length v > lv_Length w)
      then d\<lparr>d_Max := Some (m\<lparr>mx_LabelValueTooLong := Some v\<rparr>)\<rparr> else d)"

definition updateMaxCardinality :: "Details \<Rightarrow> CardinalityViolation \<Rightarrow> Details" where
  "updateMaxCardinality d v =
     (let d = ensureMax d; m = max_of d in
      if (case mx_Cardinality m of None \<Rightarrow> True | Some w \<Rightarrow> cv_Value v > cv_Value w)
      then d\<lparr>d_Max := Some (m\<lparr>mx_Cardinality := Some v\<rparr>)\<rparr> else d)"

definition updateMaxHistogram :: "Details \<Rightarrow> HistogramBucketsViolation \<Rightarrow> Details" where
  "updateMaxHistogram d v =
     (let d = ensureMax d; m = max_of d in
      if (case mx_HistogramBuckets m of None \<Rightarrow> True | Some w \<Rightarrow> hb_Buckets v > hb_Buckets w)
      then d\<lparr>d_Max := Some (m\<lparr>mx_HistogramBuckets := Some v\<rparr>)\<rparr> else d)"

section \<open>Adding a violation\<close>

text \<open>
  The loops of the \<open>add\<close> operations: the first entry with the key of \<open>v\<close> is overwritten
  when \<open>v\<close> is strictly larger; with no such entry \<open>v\<close> is appended.
\<close>

fun placeMetricName ::
  "MetricNameViolation list \<Rightarrow> MetricNameViolation \<Rightarrow> MetricNameViolation list" where
  "placeMetricName [] v = [v]"
| "placeMetricName (x # xs) v =
     (if mn_MetricName x = mn_MetricName v
      then (if mn_Length v > mn_Length x then v else x) # xs
      else x # placeMetricName xs v)"

fun placeLabelName ::
  "LabelNameViolation list \<Rightarrow> LabelNameViolation \<Rightarrow> LabelNameViolation list" where
  "placeLabelName [] v = [v]"
| "placeLabelName (x # xs) v =
     (if ln_MetricName x = ln_MetricName v \<and> ln_LabelName x = ln_LabelName v
      then (if ln_Length v > ln_Length x then v else x) # xs
      else x # placeLabelName xs v)"

fun placeLabelValue ::
  "LabelValueViolation list \<Rightarrow> LabelValueViolation \<Rightarrow> LabelValueViolation list" where
  "placeLabelValue [] v = [v]"
| "placeLabelValue (x # xs) v =
     (if lv_MetricName x = lv_MetricName v \<and> lv_LabelName x = lv_LabelName v \<and>
         lv_Value x = lv_Value v
      then (if lv_Length v > lv_Length x then v else x) # xs
      else x # placeLabelValue xs v)"

fun placeCardinality ::
  "CardinalityViolation list \<Rightarrow> CardinalityViolation \<Rightarrow> CardinalityViolation list" where
  "placeCardinality [] v = [v]"
| "placeCardinality (x # xs) v =
     (if cv_MetricName x = cv_MetricName v
      then (if cv_Value v > cv_Value x then v else x) # xs
      else x # placeCardinality xs v)"

fun placeHistogramBuckets ::
  "HistogramBucketsViolation list \<Rightarrow> HistogramBucketsViolation \<Rightarrow> HistogramBucketsViolation list" where
  "placeHistogramBuckets [] v = [v]"
| "placeHistogramBuckets (x # xs) v =
     (if hb_MetricName x = hb_MetricName v
      then (if hb_Buckets v > hb_Buckets x then v else x) # xs
      else x # placeHistogramBuckets xs v)"

definition addMetricNameViolation :: "Details \<Rightarrow> MetricNameViolation \<Rightarrow> Details" where
  "addMetricNameViolation d v =
     updateMaxMetricName (d\<lparr>d_MetricNameTooLong := placeMetricName (d_MetricNameTooLong d) v\<rparr>) v"

definition addLabelNameViolation :: "Details \<Rightarrow> LabelNameViolation \<Rightarrow> Details" where
  "addLabelNameViolation d v =
     updateMaxLabelName (d\<lparr>d_LabelNameTooLong := placeLabelName (d_LabelNameTooLong d) v\<rparr>) v"

definition addLabelValueViolation :: "Details \<Rightarrow> LabelValueViolation \<Rightarrow> Details" where
  "addLabelValueViolation d v =
     updateMaxLabelValue (d\<lparr>d_LabelValueTooLong := placeLabelValue (d_LabelValueTooLong d) v\<rparr>) v"

definition addCardinalityViolation :: "Details \<Rightarrow> CardinalityViolation \<Rightarrow> Details" where
  "addCardinalityViolation d v =
     updateMaxCardinality (d\<lparr>d_Cardinality := placeCardinality (d_Cardinality d) v\<rparr>) v"

definition addHistogramBucketsViolation :: "Details \<Rightarrow> HistogramBucketsViolation \<Rightarrow> Details" where
  "addHistogramBucketsViolation d v =
     updateMaxHistogram
       (d\<lparr>d_HistogramBuckets := placeHistogramBuckets (d_HistogramBuckets d) v\<rparr>) v"

section \<open>Whether every violation of a kind is whitelisted\<close>

text \<open>The results are the pairs \<open>(hasViolation, allWhitelisted)\<close> of the code.\<close>

fun whitelistScan :: "bool list \<Rightarrow> bool \<times> bool" where
  "whitelistScan [] = (True, True)"
| "whitelistScan (w # ws) = (if \<not> w then (True, False) else whitelistScan ws)"

definition allWhitelistedMetricNameViolations :: "MetricNameViolation list \<Rightarrow> bool \<times> bool" where
  "allWhitelistedMetricNameViolations violations =
     (if violations = [] then (False, False) else whitelistScan (map mn_Whitelisted violations))"

definition allWhitelistedLabelNameViolations :: "LabelNameViolation list \<Rightarrow> bool \<times> bool" where
  "allWhitelistedLabelNameViolations violations =
     (if violations = [] then (False, False) else whitelistScan (map ln_Whitelisted violations))"

definition allWhitelistedLabelValueViolations :: "LabelValueViolation list \<Rightarrow> bool \<times> bool" where
  "allWhitelistedLabelValueViolations violations =
     (if violations = [] then (False, False) else whitelistScan (map lv_Whitelisted violations))"

definition allWhitelistedCardinalityViolations :: "CardinalityViolation list \<Rightarrow> bool \<times> bool" where
  "allWhitelistedCardinalityViolations violations =
     (if violations = [] then (False, False) else whitelistScan (map cv_Whitelisted violations))"

definition allWhitelistedHistogramViolations :: "HistogramBucketsViolation list \<Rightarrow> bool \<times> bool" where
  "allWhitelistedHistogramViolations violations =
     (if violations = [] then (False, False) else whitelistScan (map hb_Whitelisted violations))"

definition metricNameWhitelistStatus :: "Details \<Rightarrow> bool \<times> bool" where
  "metricNameWhitelistStatus d = allWhitelistedMetricNameViolations (d_MetricNameTooLong d)"

definition labelNameWhitelistStatus :: "Details \<Rightarrow> bool \<times> bool" where
  "labelNameWhitelistStatus d = allWhitelistedLabelNameViolations (d_LabelNameTooLong d)"

definition labelValueWhitelistStatus :: "Details \<Rightarrow> bool \<times> bool" where
  "labelValueWhitelistStatus d = allWhitelistedLabelValueViolations (d_LabelValueTooLong d)"

definition cardinalityWhitelistStatus :: "Details \<Rightarrow> bool \<times> bool" where
  "cardinalityWhitelistStatus d = allWhitelistedCardinalityViolations (d_Cardinality d)"

definition histogramBucketsWhitelistStatus :: "Details \<Rightarrow> bool \<times> bool" where
  "histogramBucketsWhitelistStatus d = allWhitelistedHistogramViolations (d_HistogramBuckets d)"

lemma whitelistScan_eq: "whitelistScan ws = (True, list_all id ws)"
  by (induction ws) auto

lemmas whitelist_status_eqs =
  metricNameWhitelistStatus_def labelNameWhitelistStatus_def labelValueWhitelistStatus_def
  cardinalityWhitelistStatus_def histogramBucketsWhitelistStatus_def
  allWhitelistedMetricNameViolations_def allWhitelistedLabelNameViolations_def
  allWhitelistedLabelValueViolations_def allWhitelistedCardinalityViolations_def
  allWhitelistedHistogramViolations_def whitelistScan_eq

section \<open>The contract of the five logs\<close>

text \<open>
  \<open>log_ok key val xs slot\<close>: one entry per key, and \<open>slot\<close> (the field of \<open>Max\<close>) is empty
  exactly when the log is, and otherwise holds the largest value of the log.
\<close>

definition log_ok :: "('v \<Rightarrow> 'k) \<Rightarrow> ('v \<Rightarrow> int) \<Rightarrow> 'v list \<Rightarrow> 'v option \<Rightarrow> bool" where
  "log_ok key val xs slot \<longleftrightarrow>
     distinct (map key xs) \<and>
     (case slot of
        None \<Rightarrow> xs = []
      | Some m \<Rightarrow> (\<exists>x \<in> set xs. val x = val m) \<and> (\<forall>x \<in> set xs. val x \<le> val m))"

text \<open>The largest additions of each key.\<close>

definition largest_per_key :: "('v \<Rightarrow> 'k) \<Rightarrow> ('v \<Rightarrow> int) \<Rightarrow> 'v set \<Rightarrow> 'v set" where
  "largest_per_key key val V = {v \<in> V. \<forall>w \<in> V. key w = key v \<longrightarrow> val w \<le> val v}"

locale violation_log =
  fixes key :: "'v \<Rightarrow> 'k" and val :: "'v \<Rightarrow> int" and place :: "'v list \<Rightarrow> 'v \<Rightarrow> 'v list"
  assumes place_Nil: "place [] v = [v]"
    and place_Cons: "place (x # xs) v =
      (if key x = key v then (if val x < val v then v else x) # xs else x # place xs v)"
begin

lemma key_place: "key ` set (place xs v) = insert (key v) (key ` set xs)"
  by (induction xs) (auto simp: place_Nil place_Cons)

lemma place_new: "key v \<notin> key ` set xs \<Longrightarrow> place xs v = xs @ [v]"
  by (induction xs) (auto simp: place_Nil place_Cons)

lemma distinct_place: "distinct (map key xs) \<Longrightarrow> distinct (map key (place xs v))"
proof (induction xs)
  case (Cons x xs)
  then show ?case
    using key_place [of xs v] by (auto simp: place_Cons)
qed (simp add: place_Nil)

lemma set_place:
  "distinct (map key xs) \<Longrightarrow>
   set (place xs v) = {x \<in> set xs. key x = key v \<longrightarrow> val v \<le> val x} \<union>
     (if \<exists>x \<in> set xs. key x = key v \<and> val v \<le> val x then {} else {v})"
proof (induction xs)
  case (Cons x xs)
  show ?case
  proof (cases "key x = key v")
    case True
    with Cons.prems have "key y \<noteq> key v" if "y \<in> set xs" for y
      using that by (metis distinct.simps(2) image_eqI list.set_map list.simps(9))
    with True show ?thesis by (auto simp: place_Cons)
  next
    case False
    with Cons show ?thesis by (auto simp: place_Cons)
  qed
qed (simp add: place_Nil)

lemma log_ok_place:
  assumes ok: "log_ok key val xs slot"
  shows "log_ok key val (place xs v)
    (case slot of None \<Rightarrow> Some v | Some m \<Rightarrow> Some (if val m < val v then v else m))"
proof -
  from ok have d: "distinct (map key xs)" by (simp add: log_ok_def)
  note eqs = log_ok_def distinct_place [OF d] set_place [OF d]
  show ?thesis
  proof (cases slot)
    case None
    with ok show ?thesis by (simp add: log_ok_def place_Nil)
  next
    case (Some m)
    with ok have bound: "val x \<le> val m" if "x \<in> set xs" for x
      using that by (simp add: log_ok_def)
    from Some ok obtain y where y: "y \<in> set xs" "val y = val m"
      by (auto simp: log_ok_def)
    show ?thesis
    proof (cases "val m < val v")
      case True
      then have "\<not> (\<exists>x \<in> set xs. key x = key v \<and> val v \<le> val x)"
        using bound by fastforce
      with True Some bound show ?thesis by (fastforce simp: eqs)
    next
      case False
      have "\<exists>x \<in> set (place xs v). val x = val m"
        using y False by (cases "y \<in> set (place xs v)") (auto simp: set_place [OF d])
      with False Some bound show ?thesis by (auto simp: eqs)
    qed
  qed
qed

text \<open>
  The log after a sequence of additions, when additions that agree on key and value are equal:
  exactly the largest additions, so its contents do not depend on the order of the additions.
\<close>

lemma distinct_foldl_place: "distinct (map key (foldl place [] vs))"
  by (rule foldl_invariant) (auto intro: distinct_place)

lemma key_foldl_place: "key ` set (foldl place xs vs) = key ` set xs \<union> key ` set vs"
  by (induction vs arbitrary: xs) (auto simp: key_place)

lemma set_foldl_place_subset: "set (foldl place xs vs) \<subseteq> set xs \<union> set vs"
proof -
  have "set (place xs v) \<subseteq> insert v (set xs)" for xs v
    by (induction xs) (auto simp: place_Nil place_Cons)
  then show ?thesis by (induction vs arbitrary: xs) (simp, fastforce)
qed

lemma foldl_place_Nil_iff: "foldl place [] vs = [] \<longleftrightarrow> vs = []"
  using key_foldl_place [of "[]" vs] by (cases "foldl place [] vs") auto

text \<open>A flag that depends on the key alone holds on the whole log iff it held of all additions.\<close>

lemma flag_foldl_place:
  assumes "\<And>v w. v \<in> set vs \<Longrightarrow> w \<in> set vs \<Longrightarrow> key v = key w \<Longrightarrow> flag v = flag w"
  shows "(\<forall>x \<in> set (foldl place [] vs). flag x) \<longleftrightarrow> (\<forall>v \<in> set vs. flag v)"
proof
  assume all: "\<forall>x \<in> set (foldl place [] vs). flag x"
  show "\<forall>v \<in> set vs. flag v"
  proof
    fix v assume v: "v \<in> set vs"
    then have "key v \<in> key ` set (foldl place [] vs)" by (simp add: key_foldl_place)
    then obtain x where x: "x \<in> set (foldl place [] vs)" "key x = key v" by force
    with set_foldl_place_subset [of "[]" vs] have "x \<in> set vs" by auto
    with all x v assms [of x v] show "flag v" by blast
  qed
next
  assume "\<forall>v \<in> set vs. flag v"
  with set_foldl_place_subset [of "[]" vs] show "\<forall>x \<in> set (foldl place [] vs). flag x" by auto
qed

lemma set_foldl_place:
  assumes "\<And>v w. v \<in> set vs \<Longrightarrow> w \<in> set vs \<Longrightarrow> key v = key w \<Longrightarrow> val v = val w \<Longrightarrow> v = w"
  shows "set (foldl place [] vs) = largest_per_key key val (set vs)"
  using assms
proof (induction vs rule: rev_induct)
  case (snoc v vs)
  let ?xs = "foldl place [] vs"
  from snoc have IH: "set ?xs = largest_per_key key val (set vs)" by simp
  have largest: "\<exists>x \<in> set ?xs. key x = key w \<and> val w \<le> val x" if "w \<in> set vs" for w
  proof -
    have "key w \<in> key ` set ?xs" using that key_foldl_place [of "[]" vs] by simp
    then obtain x where "x \<in> set ?xs" "key x = key w" by force
    with IH that show ?thesis by (auto simp: largest_per_key_def)
  qed
  have "set (foldl place [] (vs @ [v])) = set (place ?xs v)" by simp
  also have "\<dots> = {x \<in> set ?xs. key x = key v \<longrightarrow> val v \<le> val x} \<union>
      (if \<exists>x \<in> set ?xs. key x = key v \<and> val v \<le> val x then {} else {v})"
    by (rule set_place [OF distinct_foldl_place])
  also have "\<dots> = largest_per_key key val (set (vs @ [v]))"
  proof (cases "\<exists>x \<in> set ?xs. key x = key v \<and> val v \<le> val x")
    case True
    then obtain x where x: "x \<in> set vs" "key x = key v" "val v \<le> val x"
      by (auto simp: IH largest_per_key_def)
    then have "v \<in> set vs" if "val v = val x"
      using that snoc.prems [of v x] by auto
    with True x IH show ?thesis
      by (auto simp: largest_per_key_def)
  next
    case False
    then have less: "val w < val v" if "w \<in> set vs" "key w = key v" for w
      using largest [OF that(1)] that(2) by force
    have "{x \<in> set ?xs. key x = key v \<longrightarrow> val v \<le> val x} = {x \<in> set ?xs. key x \<noteq> key v}"
      using False by auto
    also have "insert v \<dots> = largest_per_key key val (set (vs @ [v]))"
    proof (rule set_eqI)
      fix x
      show "x \<in> insert v {x \<in> set ?xs. key x \<noteq> key v} \<longleftrightarrow>
          x \<in> largest_per_key key val (set (vs @ [v]))"
        using less [of x] less by (cases "x = v") (force simp: IH largest_per_key_def)+
    qed
    finally show ?thesis using False by auto
  qed
  finally show ?case .
qed (simp add: largest_per_key_def)

end


text \<open>
  A log as a field of \<open>Details\<close>: \<open>items\<close> reads the list, \<open>slot\<close> the field of \<open>Max\<close>, and
  \<open>add\<close> is the operation of the code.
\<close>

locale details_log = violation_log key val place
  for key :: "'v \<Rightarrow> 'k" and val :: "'v \<Rightarrow> int" and place :: "'v list \<Rightarrow> 'v \<Rightarrow> 'v list" +
  fixes items :: "Details \<Rightarrow> 'v list" and slot :: "MaxStats \<Rightarrow> 'v option"
    and add :: "Details \<Rightarrow> 'v \<Rightarrow> Details"
  assumes items_add: "items (add d v) = place (items d) v"
    and slot_add: "slot (max_of (add d v)) =
      (case slot (max_of d) of
         None \<Rightarrow> Some v
       | Some m \<Rightarrow> Some (if val m < val v then v else m))"
begin

lemma items_foldl: "items (foldl add d vs) = foldl place (items d) vs"
  by (induction vs arbitrary: d) (auto simp: items_add)

lemma add_ok:
  assumes "log_ok key val (items d) (slot (max_of d))"
  shows "log_ok key val (items (add d v)) (slot (max_of (add d v)))"
  using log_ok_place [OF assms, of v] by (simp add: items_add slot_add)

end

abbreviation mn_key :: "MetricNameViolation \<Rightarrow> string" where
  "mn_key \<equiv> mn_MetricName"

abbreviation ln_key :: "LabelNameViolation \<Rightarrow> string \<times> string" where
  "ln_key \<equiv> \<lambda>v. (ln_MetricName v, ln_LabelName v)"

abbreviation lv_key :: "LabelValueViolation \<Rightarrow> string \<times> string \<times> string" where
  "lv_key \<equiv> \<lambda>v. (lv_MetricName v, lv_LabelName v, lv_Value v)"

lemma max_of_simps [simp]:
  "max_of (d\<lparr>d_Max := Some m\<rparr>) = m"
  "max_of (d\<lparr>d_MetricNameTooLong := a\<rparr>) = max_of d"
  "max_of (d\<lparr>d_LabelNameTooLong := b\<rparr>) = max_of d"
  "max_of (d\<lparr>d_LabelValueTooLong := c\<rparr>) = max_of d"
  "max_of (d\<lparr>d_Cardinality := e\<rparr>) = max_of d"
  "max_of (d\<lparr>d_HistogramBuckets := f\<rparr>) = max_of d"
  "max_of (ensureMax d) = max_of d"
  by (auto simp: max_of_def ensureMax_def split: option.splits)

lemma ensureMax_fields [simp]:
  "d_MetricNameTooLong (ensureMax d) = d_MetricNameTooLong d"
  "d_LabelNameTooLong (ensureMax d) = d_LabelNameTooLong d"
  "d_LabelValueTooLong (ensureMax d) = d_LabelValueTooLong d"
  "d_Cardinality (ensureMax d) = d_Cardinality d"
  "d_HistogramBuckets (ensureMax d) = d_HistogramBuckets d"
  "d_ResponseWeight (ensureMax d) = d_ResponseWeight d"
  by (auto simp: ensureMax_def split: option.splits)

lemmas add_defs =
  addMetricNameViolation_def updateMaxMetricName_def
  addLabelNameViolation_def updateMaxLabelName_def
  addLabelValueViolation_def updateMaxLabelValue_def
  addCardinalityViolation_def updateMaxCardinality_def
  addHistogramBucketsViolation_def updateMaxHistogram_def

interpretation mn_log: details_log mn_key mn_Length placeMetricName
  d_MetricNameTooLong mx_MetricNameTooLong addMetricNameViolation
  by unfold_locales (auto simp: add_defs Let_def split: option.splits)

interpretation ln_log: details_log ln_key ln_Length placeLabelName
  d_LabelNameTooLong mx_LabelNameTooLong addLabelNameViolation
  by unfold_locales (auto simp: add_defs Let_def split: option.splits)

interpretation lv_log: details_log lv_key lv_Length placeLabelValue
  d_LabelValueTooLong mx_LabelValueTooLong addLabelValueViolation
  by unfold_locales (auto simp: add_defs Let_def split: option.splits)

interpretation cv_log: details_log cv_MetricName cv_Value placeCardinality
  d_Cardinality mx_Cardinality addCardinalityViolation
  by unfold_locales (auto simp: add_defs Let_def split: option.splits)

interpretation hb_log: details_log hb_MetricName hb_Buckets placeHistogramBuckets
  d_HistogramBuckets mx_HistogramBuckets addHistogramBucketsViolation
  by unfold_locales (auto simp: add_defs Let_def split: option.splits)

text \<open>Each \<open>add\<close> leaves the other logs, their maxima and the response weight alone.\<close>

lemma add_frame [simp]:
  "d_LabelNameTooLong (addMetricNameViolation d a) = d_LabelNameTooLong d"
  "d_LabelValueTooLong (addMetricNameViolation d a) = d_LabelValueTooLong d"
  "d_Cardinality (addMetricNameViolation d a) = d_Cardinality d"
  "d_HistogramBuckets (addMetricNameViolation d a) = d_HistogramBuckets d"
  "d_ResponseWeight (addMetricNameViolation d a) = d_ResponseWeight d"
  "d_MetricNameTooLong (addLabelNameViolation d b) = d_MetricNameTooLong d"
  "d_LabelValueTooLong (addLabelNameViolation d b) = d_LabelValueTooLong d"
  "d_Cardinality (addLabelNameViolation d b) = d_Cardinality d"
  "d_HistogramBuckets (addLabelNameViolation d b) = d_HistogramBuckets d"
  "d_ResponseWeight (addLabelNameViolation d b) = d_ResponseWeight d"
  "d_MetricNameTooLong (addLabelValueViolation d c) = d_MetricNameTooLong d"
  "d_LabelNameTooLong (addLabelValueViolation d c) = d_LabelNameTooLong d"
  "d_Cardinality (addLabelValueViolation d c) = d_Cardinality d"
  "d_HistogramBuckets (addLabelValueViolation d c) = d_HistogramBuckets d"
  "d_ResponseWeight (addLabelValueViolation d c) = d_ResponseWeight d"
  "d_MetricNameTooLong (addCardinalityViolation d e) = d_MetricNameTooLong d"
  "d_LabelNameTooLong (addCardinalityViolation d e) = d_LabelNameTooLong d"
  "d_LabelValueTooLong (addCardinalityViolation d e) = d_LabelValueTooLong d"
  "d_HistogramBuckets (addCardinalityViolation d e) = d_HistogramBuckets d"
  "d_ResponseWeight (addCardinalityViolation d e) = d_ResponseWeight d"
  "d_MetricNameTooLong (addHistogramBucketsViolation d f) = d_MetricNameTooLong d"
  "d_LabelNameTooLong (addHistogramBucketsViolation d f) = d_LabelNameTooLong d"
  "d_LabelValueTooLong (addHistogramBucketsViolation d f) = d_LabelValueTooLong d"
  "d_Cardinality (addHistogramBucketsViolation d f) = d_Cardinality d"
  "d_ResponseWeight (addHistogramBucketsViolation d f) = d_ResponseWeight d"
  by (simp_all add: add_defs Let_def)

lemma add_max_frame [simp]:
  "mx_LabelNameTooLong (max_of (addMetricNameViolation d a)) = mx_LabelNameTooLong (max_of d)"
  "mx_LabelValueTooLong (max_of (addMetricNameViolation d a)) = mx_LabelValueTooLong (max_of d)"
  "mx_Cardinality (max_of (addMetricNameViolation d a)) = mx_Cardinality (max_of d)"
  "mx_HistogramBuckets (max_of (addMetricNameViolation d a)) = mx_HistogramBuckets (max_of d)"
  "mx_MetricNameTooLong (max_of (addLabelNameViolation d b)) = mx_MetricNameTooLong (max_of d)"
  "mx_LabelValueTooLong (max_of (addLabelNameViolation d b)) = mx_LabelValueTooLong (max_of d)"
  "mx_Cardinality (max_of (addLabelNameViolation d b)) = mx_Cardinality (max_of d)"
  "mx_HistogramBuckets (max_of (addLabelNameViolation d b)) = mx_HistogramBuckets (max_of d)"
  "mx_MetricNameTooLong (max_of (addLabelValueViolation d c)) = mx_MetricNameTooLong (max_of d)"
  "mx_LabelNameTooLong (max_of (addLabelValueViolation d c)) = mx_LabelNameTooLong (max_of d)"
  "mx_Cardinality (max_of (addLabelValueViolation d c)) = mx_Cardinality (max_of d)"
  "mx_HistogramBuckets (max_of (addLabelValueViolation d c)) = mx_HistogramBuckets (max_of d)"
  "mx_MetricNameTooLong (max_of (addCardinalityViolation d e)) = mx_MetricNameTooLong (max_of d)"
  "mx_LabelNameTooLong (max_of (addCardinalityViolation d e)) = mx_LabelNameTooLong (max_of d)"
  "mx_LabelValueTooLong (max_of (addCardinalityViolation d e)) = mx_LabelValueTooLong (max_of d)"
  "mx_HistogramBuckets (max_of (addCardinalityViolation d e)) = mx_HistogramBuckets (max_of d)"
  "mx_MetricNameTooLong (max_of (addHistogramBucketsViolation d f)) = mx_MetricNameTooLong (max_of d)"
  "mx_LabelNameTooLong (max_of (addHistogramBucketsViolation d f)) = mx_LabelNameTooLong (max_of d)"
  "mx_LabelValueTooLong (max_of (addHistogramBucketsViolation d f)) = mx_LabelValueTooLong (max_of d)"
  "mx_Cardinality (max_of (addHistogramBucketsViolation d f)) = mx_Cardinality (max_of d)"
  by (simp_all add: add_defs Let_def)

section \<open>The invariant of Details\<close>

definition Details_ok :: "Details \<Rightarrow> bool" where
  "Details_ok d \<longleftrightarrow>
     log_ok mn_key mn_Length (d_MetricNameTooLong d) (mx_MetricNameTooLong (max_of d)) \<and>
     log_ok ln_key ln_Length (d_LabelNameTooLong d) (mx_LabelNameTooLong (max_of d)) \<and>
     log_ok lv_key lv_Length (d_LabelValueTooLong d) (mx_LabelValueTooLong (max_of d)) \<and>
     log_ok cv_MetricName cv_Value (d_Cardinality d) (mx_Cardinality (max_of d)) \<and>
     log_ok hb_MetricName hb_Buckets (d_HistogramBuckets d) (mx_HistogramBuckets (max_of d))"

lemma Details_ok_zero [simp]: "Details_ok zeroDetails"
  by (simp add: Details_ok_def zeroDetails_def log_ok_def max_of_def zeroMaxStats_def)

lemma Details_ok_add [simp, intro]:
  "Details_ok d \<Longrightarrow> Details_ok (addMetricNameViolation d a)"
  "Details_ok d \<Longrightarrow> Details_ok (addLabelNameViolation d b)"
  "Details_ok d \<Longrightarrow> Details_ok (addLabelValueViolation d c)"
  "Details_ok d \<Longrightarrow> Details_ok (addCardinalityViolation d e)"
  "Details_ok d \<Longrightarrow> Details_ok (addHistogramBucketsViolation d f)"
  unfolding Details_ok_def
  using mn_log.add_ok [of d a] ln_log.add_ok [of d b] lv_log.add_ok [of d c]
    cv_log.add_ok [of d e] hb_log.add_ok [of d f]
  by simp_all

end
