(* ===== verification/Scrape_Tasks.thy ===== *)
theory Scrape_Tasks
  imports Prelude
begin

text \<open>
  Scrape tasks and the job that produces them (\<open>internal/scrapetask\<close>: \<open>scrape_task.go\<close>,
  \<open>service_discovery.go\<close>, \<open>producer_job.go\<close>). The file read and the YAML decoder of
  \<open>LoadSDConfig\<close> are parameters; \<open>time.Now()\<close> is the argument \<open>now\<close> (the job reads the
  clock once per task, and \<open>now\<close> gives the reading for the task's position).
\<close>

type_synonym TaskStatus = string

definition TaskStatusPending :: TaskStatus where "TaskStatusPending = ''pending''"
definition TaskStatusRunning :: TaskStatus where "TaskStatusRunning = ''running''"
definition TaskStatusComplete :: TaskStatus where "TaskStatusComplete = ''complete''"
definition TaskStatusError :: TaskStatus where "TaskStatusError = ''error''"

lemmas TaskStatus_defs =
  TaskStatusPending_def TaskStatusRunning_def TaskStatusComplete_def TaskStatusError_def

record ScrapeTask =
  st_ID :: int
  st_Status :: TaskStatus
  st_CreatedAt :: int
  st_Job :: string
  st_Addresses :: "string list"
  st_TargetGroup :: string
  st_Env :: string
  st_Cluster :: string
  st_TeamName :: string

record Labels =
  lb_Env :: string
  lb_TargetGroup :: string
  lb_Cluster :: string
  lb_TeamName :: string

record StaticConfig =
  Targets :: "string list"
  Labels_of :: Labels

record ScrapeConfig =
  JobName :: string
  MetricsPath :: string
  StaticConfigs :: "StaticConfig list"

record SDConfig =
  ScrapeConfigs :: "ScrapeConfig list"

definition LoadSDConfig ::
  "(string \<Rightarrow> string result) \<Rightarrow> (string \<Rightarrow> SDConfig result) \<Rightarrow> string \<Rightarrow> SDConfig result" where
  "LoadSDConfig readFile yamlUnmarshal filename =
     (case readFile filename of Inl e \<Rightarrow> Inl e | Inr data \<Rightarrow> yamlUnmarshal data)"

definition produceScrapeTasksJobName :: string where
  "produceScrapeTasksJobName = ''produce-scrape-tasks''"

definition targetAddress :: "string \<Rightarrow> string \<Rightarrow> string" where
  "targetAddress metricsPath address = ''http://'' @ address @ metricsPath"

definition makeTask :: "int \<Rightarrow> ScrapeConfig \<Rightarrow> StaticConfig \<Rightarrow> ScrapeTask" where
  "makeTask now scrapeConfig staticConfig =
     \<lparr>st_ID = 0, st_Status = TaskStatusPending, st_CreatedAt = now, st_Job = JobName scrapeConfig,
      st_Addresses = map (targetAddress (MetricsPath scrapeConfig)) (Targets staticConfig),
      st_TargetGroup = lb_TargetGroup (Labels_of staticConfig),
      st_Env = lb_Env (Labels_of staticConfig),
      st_Cluster = lb_Cluster (Labels_of staticConfig),
      st_TeamName = lb_TeamName (Labels_of staticConfig)\<rparr>"

definition buildScrapeTasks :: "(nat \<Rightarrow> int) \<Rightarrow> SDConfig \<Rightarrow> ScrapeTask list" where
  "buildScrapeTasks now sdConfig =
     foldl (\<lambda>tasks scrapeConfig.
        foldl (\<lambda>tasks staticConfig. tasks @ [makeTask (now (length tasks)) scrapeConfig staticConfig])
          tasks (StaticConfigs scrapeConfig))
       [] (ScrapeConfigs sdConfig)"

text \<open>\<open>Job.Work\<close>: \<open>save\<close> is the storage's \<open>SaveScrapeTasks\<close>.\<close>

definition Work ::
  "(string \<Rightarrow> string result) \<Rightarrow> (string \<Rightarrow> SDConfig result) \<Rightarrow> (nat \<Rightarrow> int) \<Rightarrow>
   (ScrapeTask list \<Rightarrow> 's \<Rightarrow> unit result \<times> 's) \<Rightarrow> string \<Rightarrow> 's \<Rightarrow> unit result \<times> 's" where
  "Work readFile yamlUnmarshal now save sdConfigPath s =
     (case LoadSDConfig readFile yamlUnmarshal sdConfigPath of
        Inl e \<Rightarrow> (Inl e, s)
      | Inr sdConfig \<Rightarrow> save (buildScrapeTasks now sdConfig) s)"

section \<open>One task per static config\<close>

text \<open>The configuration pairs in the order the two loops visit them.\<close>

definition config_pairs :: "SDConfig \<Rightarrow> (ScrapeConfig \<times> StaticConfig) list" where
  "config_pairs sd = concat (map (\<lambda>c. map (Pair c) (StaticConfigs c)) (ScrapeConfigs sd))"

lemma buildScrapeTasks_inner:
  "foldl (\<lambda>tasks st. tasks @ [makeTask (now (length tasks)) c st]) ts sts =
   ts @ map (\<lambda>(i, st). makeTask (now (length ts + i)) c st) (enumerate 0 sts)"
proof (induction sts rule: rev_induct)
  case (snoc st sts)
  then show ?case by (simp add: enumerate_append_eq)
qed simp

lemma buildScrapeTasks_eq:
  "buildScrapeTasks now sd =
   map (\<lambda>(i, c, st). makeTask (now i) c st) (enumerate 0 (config_pairs sd))"
proof -
  let ?pairs = "\<lambda>cs. concat (map (\<lambda>c. map (Pair c) (StaticConfigs c)) cs)"
  let ?outer = "\<lambda>tasks c. foldl (\<lambda>tasks st. tasks @ [makeTask (now (length tasks)) c st])
      tasks (StaticConfigs c)"
  have "foldl ?outer [] cs = map (\<lambda>(i, c, st). makeTask (now i) c st) (enumerate 0 (?pairs cs))" for cs
  proof (induction cs rule: rev_induct)
    case (snoc c cs)
    have shift: "map (\<lambda>(i, st). makeTask (now (n + i)) c st) (enumerate 0 sts) =
        map (\<lambda>(i, c, st). makeTask (now i) c st) (enumerate n (map (Pair c) sts))" for n sts
      by (rule nth_equalityI) (auto simp: nth_enumerate_eq)
    have "foldl ?outer [] (cs @ [c]) = ?outer (foldl ?outer [] cs) c" by simp
    also have "\<dots> = ?outer (map (\<lambda>(i, c, st). makeTask (now i) c st) (enumerate 0 (?pairs cs))) c"
      by (simp only: snoc.IH)
    also have "\<dots> = map (\<lambda>(i, c, st). makeTask (now i) c st) (enumerate 0 (?pairs (cs @ [c])))"
      by (simp add: buildScrapeTasks_inner shift enumerate_append_eq)
    finally show ?case .
  qed simp
  then show ?thesis by (simp add: buildScrapeTasks_def config_pairs_def)
qed

end
