(* ===== verification/Metrics_Client.thy ===== *)
theory Metrics_Client
  imports Prelude
begin

text \<open>
  The scrape client (\<open>internal/scraper/client.go\<close>). The HTTP exchange and the exposition-format
  parser are parameters:
  \<^item> \<open>newRequest url\<close> is \<open>http.NewRequestWithContext\<close>;
  \<^item> \<open>doRequest url\<close> is \<open>client.Do\<close>: an error, or the status code and the body;
  \<^item> \<open>parse body\<close> is \<open>TextToMetricFamilies\<close> reading \<open>body\<close>: the chunks it got from
    \<open>Read\<close>, and the families or an error.
  The parser returns a Go map from names to families. The code only ranges over its values, in
  an order Go leaves open, so the map is the list of its values in the order of one such range.
  The data types hold what the sources read of the protobuf messages; a nil pointer is \<open>None\<close>.
\<close>

record LabelPair =
  lp_Name :: string
  lp_Value :: string

record Bucket =
  b_CumulativeCount :: nat

record Histogram =
  h_Bucket :: "Bucket list"

record Metric =
  m_Label :: "LabelPair option list"
  m_Histogram :: "Histogram option"

record MetricFamily =
  mf_Name :: string
  mf_Metric :: "Metric option list"

type_synonym families = "MetricFamily option list"

record countingReader =
  cr_n :: int

definition Read :: "countingReader \<Rightarrow> string \<Rightarrow> countingReader" where
  "Read c chunk = c\<lparr>cr_n := cr_n c + int (length chunk)\<rparr>"

definition StatusOK :: nat where
  "StatusOK = 200"

definition GetTargetMetrics ::
  "(string \<Rightarrow> unit result) \<Rightarrow> (string \<Rightarrow> (nat \<times> string) result) \<Rightarrow>
   (string \<Rightarrow> string list \<times> families result) \<Rightarrow> string \<Rightarrow> (families \<times> int) result" where
  "GetTargetMetrics newRequest doRequest parse url =
     (case newRequest url of
        Inl err \<Rightarrow> Inl (ErrWrap ''failed to create request'' err)
      | Inr _ \<Rightarrow>
          (case doRequest url of
             Inl err \<Rightarrow> Inl (ErrWrap ''failed to send request'' err)
           | Inr (statusCode, body) \<Rightarrow>
               if statusCode \<noteq> StatusOK
               then Inl (ErrNew (''unexpected status code: '' @ utoa statusCode))
               else (case parse body of
                       (chunks, Inl err) \<Rightarrow> Inl (ErrWrap ''failed to parse metrics'' err)
                     | (chunks, Inr metrics) \<Rightarrow>
                         Inr (metrics, cr_n (foldl Read \<lparr>cr_n = 0\<rparr> chunks)))))"

lemma cr_n_Read: "cr_n (foldl Read c chunks) = cr_n c + int (length (concat chunks))"
  by (induction chunks arbitrary: c) (auto simp: Read_def)

text \<open>What the code relies on of the parser: on success it has read the body to its end.\<close>

definition parser_reads_all :: "(string \<Rightarrow> string list \<times> families result) \<Rightarrow> bool" where
  "parser_reads_all parse \<longleftrightarrow> (\<forall>body chunks ms. parse body = (chunks, Inr ms) \<longrightarrow> concat chunks = body)"

lemma GetTargetMetrics_Inr_iff:
  "GetTargetMetrics newRequest doRequest parse url = Inr (ms, weight) \<longleftrightarrow>
   (\<exists>body chunks. newRequest url = Inr () \<and> doRequest url = Inr (StatusOK, body) \<and>
      parse body = (chunks, Inr ms) \<and> weight = int (length (concat chunks)))"
  by (auto simp: GetTargetMetrics_def cr_n_Read split: sum.splits prod.splits if_splits)

end
