(* ===== verification/Processing.thy ===== *)
theory Processing
  imports Violations Scrape_Tasks Metrics_Client
begin

text \<open>
  The processor (\<open>internal/scraper/processor.go\<close>): one task's targets are scraped, every metric
  family is checked against the limits and whitelists, and the report and its check results are
  built. The providers and the client are fields of the processor, as in the code; \<open>None\<close> is a
  nil provider. The steps of \<open>handleMetricFamily\<close> are one definition per check.
\<close>

record Processor =
  p_client :: "string \<Rightarrow> (families \<times> int) result"
  p_defaultLimits :: LimitsConfig
  p_limitsProvider :: "(unit \<Rightarrow> LimitsConfig result) option"
  p_whitelistProvider :: "(string \<Rightarrow> string \<Rightarrow> EffectiveWhitelists option result) option"

abbreviation len :: "'a list \<Rightarrow> int" where
  "len xs \<equiv> int (length xs)"

section \<open>Checking one metric family\<close>

text \<open>The result is \<open>(limit, isWhitelisted, violated)\<close>.\<close>

definition metricCheckLimit ::
  "string \<Rightarrow> CheckType \<Rightarrow> int \<Rightarrow> int \<Rightarrow> EffectiveWhitelists option \<Rightarrow> int \<times> bool \<times> bool" where
  "metricCheckLimit metricName checkType defaultLimit current whitelists =
     (case MetricCustomLimit whitelists metricName checkType of
        Some customLimit \<Rightarrow> (customLimit, True, current > customLimit)
      | None \<Rightarrow> (defaultLimit, False, current > defaultLimit))"

definition checkMetricName ::
  "LimitsConfig \<Rightarrow> EffectiveWhitelists option \<Rightarrow> string \<Rightarrow> Report \<Rightarrow> Report" where
  "checkMetricName limits whitelists metricName stats =
     (if IsCheckDisabled whitelists CheckTypeMetricNameLength then stats
      else
        let stats = stats\<lparr>maxMetricNameLen := upmax (maxMetricNameLen stats) (len metricName)\<rparr>
        in case metricCheckLimit metricName CheckTypeMetricNameLength (MaxMetricNameLen limits)
                  (len metricName) whitelists of
             (_, whitelisted, violated) \<Rightarrow>
               if violated
               then stats\<lparr>rep_Details := addMetricNameViolation (rep_Details stats)
                      \<lparr>mn_MetricName = metricName, mn_Length = len metricName,
                       mn_Whitelisted = whitelisted\<rparr>\<rparr>
               else stats)"

definition checkCardinality ::
  "LimitsConfig \<Rightarrow> EffectiveWhitelists option \<Rightarrow> string \<Rightarrow> Metric option list \<Rightarrow> Report \<Rightarrow> Report" where
  "checkCardinality limits whitelists metricName metrics stats =
     (if IsCheckDisabled whitelists CheckTypeCardinality then stats
      else
        let stats = stats\<lparr>maxMetricCardinality := upmax (maxMetricCardinality stats) (len metrics)\<rparr>
        in case metricCheckLimit metricName CheckTypeCardinality (MaxMetricCardinality limits)
                  (len metrics) whitelists of
             (_, whitelisted, violated) \<Rightarrow>
               if violated
               then stats\<lparr>rep_Details := addCardinalityViolation (rep_Details stats)
                      \<lparr>cv_MetricName = metricName, cv_Value = len metrics,
                       cv_Whitelisted = whitelisted\<rparr>\<rparr>
               else stats)"

definition checkLabelName ::
  "LimitsConfig \<Rightarrow> EffectiveWhitelists option \<Rightarrow> string \<Rightarrow> LabelPair \<Rightarrow> Report \<Rightarrow> Report" where
  "checkLabelName limits whitelists metricName label stats =
     (if IsCheckDisabled whitelists CheckTypeLabelNameLength then stats
      else
        let stats = stats\<lparr>maxLabelNameLen := upmax (maxLabelNameLen stats) (len (lp_Name label))\<rparr>
        in case metricCheckLimit metricName CheckTypeLabelNameLength (MaxLabelNameLen limits)
                  (len (lp_Name label)) whitelists of
             (_, whitelisted, violated) \<Rightarrow>
               if violated
               then stats\<lparr>rep_Details := addLabelNameViolation (rep_Details stats)
                      \<lparr>ln_MetricName = metricName, ln_LabelName = lp_Name label,
                       ln_Length = len (lp_Name label), ln_Whitelisted = whitelisted\<rparr>\<rparr>
               else stats)"

definition checkLabelValue ::
  "LimitsConfig \<Rightarrow> EffectiveWhitelists option \<Rightarrow> string \<Rightarrow> LabelPair \<Rightarrow> Report \<Rightarrow> Report" where
  "checkLabelValue limits whitelists metricName label stats =
     (if IsCheckDisabled whitelists CheckTypeLabelValueLength then stats
      else
        let stats = stats\<lparr>maxLabelValueLen := upmax (maxLabelValueLen stats) (len (lp_Value label))\<rparr>
        in case metricCheckLimit metricName CheckTypeLabelValueLength (MaxLabelValueLen limits)
                  (len (lp_Value label)) whitelists of
             (_, whitelisted, violated) \<Rightarrow>
               if violated
               then stats\<lparr>rep_Details := addLabelValueViolation (rep_Details stats)
                      \<lparr>lv_MetricName = metricName, lv_LabelName = lp_Name label,
                       lv_Value = lp_Value label, lv_Length = len (lp_Value label),
                       lv_Whitelisted = whitelisted\<rparr>\<rparr>
               else stats)"

definition checkHistogram ::
  "LimitsConfig \<Rightarrow> EffectiveWhitelists option \<Rightarrow> string \<Rightarrow> Histogram option \<Rightarrow> Report \<Rightarrow> Report" where
  "checkHistogram limits whitelists metricName histogram stats =
     (if IsCheckDisabled whitelists CheckTypeHistogramBuckets then stats
      else case histogram of
        None \<Rightarrow> stats
      | Some h \<Rightarrow>
          let stats = stats\<lparr>maxHistogramBuckets := upmax (maxHistogramBuckets stats) (len (h_Bucket h))\<rparr>
          in case metricCheckLimit metricName CheckTypeHistogramBuckets (MaxHistogramBuckets limits)
                    (len (h_Bucket h)) whitelists of
               (_, whitelisted, violated) \<Rightarrow>
                 if violated
                 then stats\<lparr>rep_Details := addHistogramBucketsViolation (rep_Details stats)
                        \<lparr>hb_MetricName = metricName, hb_Buckets = len (h_Bucket h),
                         hb_Whitelisted = whitelisted\<rparr>\<rparr>
                 else stats)"

definition handleLabel ::
  "LimitsConfig \<Rightarrow> EffectiveWhitelists option \<Rightarrow> string \<Rightarrow> Report \<Rightarrow> LabelPair option \<Rightarrow> Report" where
  "handleLabel limits whitelists metricName stats label =
     (case label of
        None \<Rightarrow> stats
      | Some l \<Rightarrow> checkLabelValue limits whitelists metricName l
                    (checkLabelName limits whitelists metricName l stats))"

definition handleMetric ::
  "LimitsConfig \<Rightarrow> EffectiveWhitelists option \<Rightarrow> string \<Rightarrow> Report \<Rightarrow> Metric option \<Rightarrow> Report" where
  "handleMetric limits whitelists metricName stats metric =
     (case metric of
        None \<Rightarrow> stats
      | Some m \<Rightarrow> checkHistogram limits whitelists metricName (m_Histogram m)
                    (foldl (handleLabel limits whitelists metricName) stats (m_Label m)))"

definition handleMetricFamily ::
  "LimitsConfig \<Rightarrow> EffectiveWhitelists option \<Rightarrow> Report \<Rightarrow> MetricFamily option \<Rightarrow> Report" where
  "handleMetricFamily limits whitelists stats family =
     (case family of
        None \<Rightarrow> stats
      | Some mf \<Rightarrow>
          foldl (handleMetric limits whitelists (mf_Name mf))
            (checkCardinality limits whitelists (mf_Name mf) (mf_Metric mf)
              (checkMetricName limits whitelists (mf_Name mf) stats))
            (mf_Metric mf))"

section \<open>Building the check results\<close>

definition makeCheck :: "CheckType \<Rightarrow> int \<Rightarrow> int \<Rightarrow> bool \<times> bool \<Rightarrow> CheckResult" where
  "makeCheck ty limit current status =
     (case status of (hasViolation, allWhitelisted) \<Rightarrow>
        \<lparr>chk_Type = ty, chk_Limit = limit, chk_Current = current, chk_Violated = hasViolation,
         chk_Whitelisted = (hasViolation \<and> allWhitelisted)\<rparr>)"

definition buildCheckResults ::
  "Report \<Rightarrow> LimitsConfig \<Rightarrow> EffectiveWhitelists option \<Rightarrow> CheckResult list" where
  "buildCheckResults report limits whitelists =
     (if IsCheckDisabled whitelists CheckTypeMetricNameLength then []
      else [makeCheck CheckTypeMetricNameLength (MaxMetricNameLen limits) (maxMetricNameLen report)
              (metricNameWhitelistStatus (rep_Details report))]) @
     (if IsCheckDisabled whitelists CheckTypeLabelNameLength then []
      else [makeCheck CheckTypeLabelNameLength (MaxLabelNameLen limits) (maxLabelNameLen report)
              (labelNameWhitelistStatus (rep_Details report))]) @
     (if IsCheckDisabled whitelists CheckTypeLabelValueLength then []
      else [makeCheck CheckTypeLabelValueLength (MaxLabelValueLen limits) (maxLabelValueLen report)
              (labelValueWhitelistStatus (rep_Details report))]) @
     (if IsCheckDisabled whitelists CheckTypeCardinality then []
      else [makeCheck CheckTypeCardinality (MaxMetricCardinality limits) (maxMetricCardinality report)
              (cardinalityWhitelistStatus (rep_Details report))]) @
     (if IsCheckDisabled whitelists CheckTypeHistogramBuckets then []
      else [makeCheck CheckTypeHistogramBuckets (MaxHistogramBuckets limits) (maxHistogramBuckets report)
              (histogramBucketsWhitelistStatus (rep_Details report))]) @
     (if IsCheckDisabled whitelists CheckTypeResponseWeight then []
      else [\<lparr>chk_Type = CheckTypeResponseWeight, chk_Limit = MaxBytesWeight limits,
             chk_Current = maxResponseWeight report,
             chk_Violated = (maxResponseWeight report > MaxBytesWeight limits),
             chk_Whitelisted = False\<rparr>])"

definition setLimit :: "CheckLimits \<Rightarrow> CheckResult \<Rightarrow> CheckLimits" where
  "setLimit limits check =
     (if chk_Type check = CheckTypeMetricNameLength then limits\<lparr>cl_MetricNameLength := chk_Limit check\<rparr>
      else if chk_Type check = CheckTypeLabelNameLength then limits\<lparr>cl_LabelNameLength := chk_Limit check\<rparr>
      else if chk_Type check = CheckTypeLabelValueLength then limits\<lparr>cl_LabelValueLength := chk_Limit check\<rparr>
      else if chk_Type check = CheckTypeCardinality then limits\<lparr>cl_Cardinality := chk_Limit check\<rparr>
      else if chk_Type check = CheckTypeHistogramBuckets then limits\<lparr>cl_HistogramBuckets := chk_Limit check\<rparr>
      else if chk_Type check = CheckTypeResponseWeight then limits\<lparr>cl_ResponseWeight := chk_Limit check\<rparr>
      else limits)"

definition buildCheckLimits :: "CheckResult list \<Rightarrow> CheckLimits option" where
  "buildCheckLimits checks =
     (if checks = [] then None
      else Some (foldl setLimit
        \<lparr>cl_MetricNameLength = 0, cl_LabelNameLength = 0, cl_LabelValueLength = 0,
         cl_Cardinality = 0, cl_HistogramBuckets = 0, cl_ResponseWeight = 0\<rparr> checks))"

definition setCurrent :: "CheckCurrent \<Rightarrow> CheckResult \<Rightarrow> CheckCurrent" where
  "setCurrent current check =
     (if chk_Type check = CheckTypeMetricNameLength then current\<lparr>cc_MetricNameLength := chk_Current check\<rparr>
      else if chk_Type check = CheckTypeLabelNameLength then current\<lparr>cc_LabelNameLength := chk_Current check\<rparr>
      else if chk_Type check = CheckTypeLabelValueLength then current\<lparr>cc_LabelValueLength := chk_Current check\<rparr>
      else if chk_Type check = CheckTypeCardinality then current\<lparr>cc_Cardinality := chk_Current check\<rparr>
      else if chk_Type check = CheckTypeHistogramBuckets then current\<lparr>cc_HistogramBuckets := chk_Current check\<rparr>
      else if chk_Type check = CheckTypeResponseWeight then current\<lparr>cc_ResponseWeight := chk_Current check\<rparr>
      else current)"

definition buildCheckCurrent :: "CheckResult list \<Rightarrow> CheckCurrent option" where
  "buildCheckCurrent checks =
     (if checks = [] then None
      else Some (foldl setCurrent
        \<lparr>cc_MetricNameLength = 0, cc_LabelNameLength = 0, cc_LabelValueLength = 0,
         cc_Cardinality = 0, cc_HistogramBuckets = 0, cc_ResponseWeight = 0\<rparr> checks))"

section \<open>Processing a task\<close>

definition newReport :: "ScrapeTask \<Rightarrow> Report" where
  "newReport task =
     \<lparr>rep_TargetGroup = st_TargetGroup task, rep_Env = st_Env task, rep_Cluster = st_Cluster task,
      rep_TeamName = st_TeamName task, rep_Details = zeroDetails, rep_Checks = [],
      maxMetricNameLen = 0, maxLabelNameLen = 0, maxLabelValueLen = 0, maxMetricCardinality = 0,
      maxHistogramBuckets = 0, maxResponseWeight = 0\<rparr>"

definition effectiveLimits :: "Processor \<Rightarrow> LimitsConfig" where
  "effectiveLimits p =
     (case p_limitsProvider p of
        None \<Rightarrow> p_defaultLimits p
      | Some GetMetricLimits \<Rightarrow>
          (case GetMetricLimits () of
             Inl err \<Rightarrow> p_defaultLimits p
           | Inr loadedLimits \<Rightarrow> loadedLimits))"

definition effectiveWhitelists :: "Processor \<Rightarrow> ScrapeTask \<Rightarrow> EffectiveWhitelists" where
  "effectiveWhitelists p task =
     (case p_whitelistProvider p of
        None \<Rightarrow> NewEffectiveWhitelists
      | Some GetEffectiveWhitelists \<Rightarrow>
          (case GetEffectiveWhitelists (st_TargetGroup task) (st_Env task) of
             Inl err \<Rightarrow> NewEffectiveWhitelists
           | Inr None \<Rightarrow> NewEffectiveWhitelists
           | Inr (Some loadedWhitelists) \<Rightarrow> loadedWhitelists))"

definition weighResponse ::
  "LimitsConfig \<Rightarrow> EffectiveWhitelists option \<Rightarrow> int \<Rightarrow> Report \<Rightarrow> Report" where
  "weighResponse limits whitelists bytesWeight stats =
     (if IsCheckDisabled whitelists CheckTypeResponseWeight then stats
      else
        let stats = stats\<lparr>maxResponseWeight := upmax (maxResponseWeight stats) bytesWeight\<rparr>
        in if MaxBytesWeight limits < bytesWeight \<and> d_ResponseWeight (rep_Details stats) < bytesWeight
           then stats\<lparr>rep_Details := (rep_Details stats)\<lparr>d_ResponseWeight := bytesWeight\<rparr>\<rparr>
           else stats)"

definition processAddress ::
  "Processor \<Rightarrow> LimitsConfig \<Rightarrow> EffectiveWhitelists option \<Rightarrow> Report \<times> nat \<Rightarrow> string \<Rightarrow> Report \<times> nat" where
  "processAddress p limits whitelists acc address =
     (case acc of (stats, totalProcessed) \<Rightarrow>
        (case p_client p address of
           Inl err \<Rightarrow> (stats, totalProcessed)
         | Inr (metrics, bytesWeight) \<Rightarrow>
             (weighResponse limits whitelists bytesWeight
                (foldl (handleMetricFamily limits whitelists) stats metrics),
              totalProcessed + 1)))"

definition finishReport :: "LimitsConfig \<Rightarrow> EffectiveWhitelists option \<Rightarrow> Report \<Rightarrow> Report" where
  "finishReport limits whitelists stats =
     (let checks = buildCheckResults stats limits whitelists in
      stats\<lparr>rep_Checks := checks,
            rep_Details := (rep_Details stats)\<lparr>d_Checks := checks, d_Limits := buildCheckLimits checks,
                              d_Current := buildCheckCurrent checks\<rparr>\<rparr>)"

definition Process :: "Processor \<Rightarrow> ScrapeTask \<Rightarrow> (Report \<times> TargetGroup list) result" where
  "Process p task =
     (let limits = effectiveLimits p;
          whitelists = Some (effectiveWhitelists p task)
      in case foldl (processAddress p limits whitelists) (newReport task, 0) (st_Addresses task) of
           (stats, totalProcessed) \<Rightarrow>
             if totalProcessed = 0 then Inl (ErrNew ''failed to get target metrics'')
             else Inr (finishReport limits whitelists stats,
                       [\<lparr>tg_Name = st_TargetGroup task, tg_Env = st_Env task,
                         tg_Cluster = st_Cluster task, tg_Job = st_Job task,
                         tg_TeamName = st_TeamName task\<rparr>]))"

end
