(* ===== verification/Check_Semantics.thy ===== *)
theory Check_Semantics
  imports Processing
begin

text \<open>
  What the check results mean. \<open>observations\<close> lists, for each check, the pairs of a metric name
  and a value that a scrape yields; \<open>spec_check\<close> is the verdict the check should give on them.
  The main lemma, \<open>Process_checks\<close>, says that \<open>Process\<close> computes exactly these verdicts,
  whatever the order in which Go ranges over the parsed families. The proof follows each log and
  each running maximum through the loops as a sequence of additions (\<open>foldl_trace\<close>).
\<close>

section \<open>The specification\<close>

definition scraped_families :: "families \<Rightarrow> MetricFamily list" where
  "scraped_families fs = concat (map (case_option [] (\<lambda>mf. [mf])) fs)"

definition scraped_metrics :: "families \<Rightarrow> (string \<times> Metric) list" where
  "scraped_metrics fs =
     concat (map (\<lambda>mf. concat (map (case_option [] (\<lambda>m. [(mf_Name mf, m)])) (mf_Metric mf)))
       (scraped_families fs))"

definition scraped_labels :: "families \<Rightarrow> (string \<times> LabelPair) list" where
  "scraped_labels fs =
     concat (map (\<lambda>(n, m). concat (map (case_option [] (\<lambda>l. [(n, l)])) (m_Label m)))
       (scraped_metrics fs))"

definition scraped_histograms :: "families \<Rightarrow> (string \<times> Histogram) list" where
  "scraped_histograms fs =
     concat (map (\<lambda>(n, m). case_option [] (\<lambda>h. [(n, h)]) (m_Histogram m)) (scraped_metrics fs))"

definition observations :: "CheckType \<Rightarrow> families \<Rightarrow> (string \<times> int) list" where
  "observations ct fs =
     (if ct = CheckTypeMetricNameLength
        then map (\<lambda>mf. (mf_Name mf, len (mf_Name mf))) (scraped_families fs)
      else if ct = CheckTypeLabelNameLength
        then map (\<lambda>x. (fst x, len (lp_Name (snd x)))) (scraped_labels fs)
      else if ct = CheckTypeLabelValueLength
        then map (\<lambda>x. (fst x, len (lp_Value (snd x)))) (scraped_labels fs)
      else if ct = CheckTypeCardinality
        then map (\<lambda>mf. (mf_Name mf, len (mf_Metric mf))) (scraped_families fs)
      else if ct = CheckTypeHistogramBuckets
        then map (\<lambda>x. (fst x, len (h_Bucket (snd x)))) (scraped_histograms fs)
      else [])"

definition defaultLimit :: "LimitsConfig \<Rightarrow> CheckType \<Rightarrow> int" where
  "defaultLimit lim ct =
     (if ct = CheckTypeMetricNameLength then MaxMetricNameLen lim
      else if ct = CheckTypeLabelNameLength then MaxLabelNameLen lim
      else if ct = CheckTypeLabelValueLength then MaxLabelValueLen lim
      else if ct = CheckTypeCardinality then MaxMetricCardinality lim
      else if ct = CheckTypeHistogramBuckets then MaxHistogramBuckets lim
      else MaxBytesWeight lim)"

text \<open>The limit that applies to a metric, and whether it comes from the whitelist.\<close>

definition limit_for :: "EffectiveWhitelists option \<Rightarrow> LimitsConfig \<Rightarrow> CheckType \<Rightarrow> string \<Rightarrow> int" where
  "limit_for wl lim ct name =
     (case MetricCustomLimit wl name ct of Some l \<Rightarrow> l | None \<Rightarrow> defaultLimit lim ct)"

definition has_custom :: "EffectiveWhitelists option \<Rightarrow> CheckType \<Rightarrow> string \<Rightarrow> bool" where
  "has_custom wl ct name \<longleftrightarrow> MetricCustomLimit wl name ct \<noteq> None"

definition offending ::
  "EffectiveWhitelists option \<Rightarrow> LimitsConfig \<Rightarrow> CheckType \<Rightarrow> families \<Rightarrow> (string \<times> int) set" where
  "offending wl lim ct fs = {(n, v) \<in> set (observations ct fs). limit_for wl lim ct n < v}"

definition spec_check ::
  "EffectiveWhitelists option \<Rightarrow> LimitsConfig \<Rightarrow> families \<Rightarrow> CheckType \<Rightarrow> CheckResult" where
  "spec_check wl lim fs ct =
     \<lparr>chk_Type = ct, chk_Limit = defaultLimit lim ct,
      chk_Current = Max (insert 0 (snd ` set (observations ct fs))),
      chk_Violated = (offending wl lim ct fs \<noteq> {}),
      chk_Whitelisted = (offending wl lim ct fs \<noteq> {} \<and>
        (\<forall>(n, v) \<in> offending wl lim ct fs. has_custom wl ct n))\<rparr>"

definition spec_weight_check :: "LimitsConfig \<Rightarrow> int list \<Rightarrow> CheckResult" where
  "spec_weight_check lim ws =
     \<lparr>chk_Type = CheckTypeResponseWeight, chk_Limit = MaxBytesWeight lim,
      chk_Current = Max (insert 0 (set ws)),
      chk_Violated = (MaxBytesWeight lim < Max (insert 0 (set ws))),
      chk_Whitelisted = False\<rparr>"

definition metric_check_types :: "CheckType list" where
  "metric_check_types = [CheckTypeMetricNameLength, CheckTypeLabelNameLength,
     CheckTypeLabelValueLength, CheckTypeCardinality, CheckTypeHistogramBuckets]"

definition spec_checks ::
  "EffectiveWhitelists option \<Rightarrow> LimitsConfig \<Rightarrow> families \<Rightarrow> int list \<Rightarrow> CheckResult list" where
  "spec_checks wl lim fs ws =
     map (spec_check wl lim fs) (filter (\<lambda>ct. \<not> IsCheckDisabled wl ct) metric_check_types) @
     (if IsCheckDisabled wl CheckTypeResponseWeight then [] else [spec_weight_check lim ws])"

text \<open>What a task's successful scrapes yield, in the order of its addresses.\<close>

definition scrapes :: "Processor \<Rightarrow> ScrapeTask \<Rightarrow> (families \<times> int) list" where
  "scrapes p task =
     concat (map (\<lambda>a. case p_client p a of Inl e \<Rightarrow> [] | Inr r \<Rightarrow> [r]) (st_Addresses task))"

section \<open>Each check as a sequence of additions\<close>

definition event ::
  "EffectiveWhitelists option \<Rightarrow> LimitsConfig \<Rightarrow> CheckType \<Rightarrow> (bool \<Rightarrow> 'v) \<Rightarrow> string \<times> int \<Rightarrow> 'v list" where
  "event wl lim ct mk ob =
     (if \<not> IsCheckDisabled wl ct \<and> limit_for wl lim ct (fst ob) < snd ob
      then [mk (has_custom wl ct (fst ob))] else [])"

definition seen :: "EffectiveWhitelists option \<Rightarrow> CheckType \<Rightarrow> int \<Rightarrow> int list" where
  "seen wl ct v = (if IsCheckDisabled wl ct then [] else [v])"

definition mn_event where
  "mn_event lim wl mf = event wl lim CheckTypeMetricNameLength
     (\<lambda>w. \<lparr>mn_MetricName = mf_Name mf, mn_Length = len (mf_Name mf), mn_Whitelisted = w\<rparr>)
     (mf_Name mf, len (mf_Name mf))"

definition cv_event where
  "cv_event lim wl mf = event wl lim CheckTypeCardinality
     (\<lambda>w. \<lparr>cv_MetricName = mf_Name mf, cv_Value = len (mf_Metric mf), cv_Whitelisted = w\<rparr>)
     (mf_Name mf, len (mf_Metric mf))"

definition ln_event where
  "ln_event lim wl x = event wl lim CheckTypeLabelNameLength
     (\<lambda>w. \<lparr>ln_MetricName = fst x, ln_LabelName = lp_Name (snd x), ln_Length = len (lp_Name (snd x)),
            ln_Whitelisted = w\<rparr>)
     (fst x, len (lp_Name (snd x)))"

definition lv_event where
  "lv_event lim wl x = event wl lim CheckTypeLabelValueLength
     (\<lambda>w. \<lparr>lv_MetricName = fst x, lv_LabelName = lp_Name (snd x), lv_Value = lp_Value (snd x),
            lv_Length = len (lp_Value (snd x)), lv_Whitelisted = w\<rparr>)
     (fst x, len (lp_Value (snd x)))"

definition hb_event where
  "hb_event lim wl x = event wl lim CheckTypeHistogramBuckets
     (\<lambda>w. \<lparr>hb_MetricName = fst x, hb_Buckets = len (h_Bucket (snd x)), hb_Whitelisted = w\<rparr>)
     (fst x, len (h_Bucket (snd x)))"

lemmas check_step_defs =
  checkMetricName_def checkCardinality_def checkLabelName_def checkLabelValue_def
  checkHistogram_def metricCheckLimit_def Let_def

lemmas event_defs =
  mn_event_def cv_event_def ln_event_def lv_event_def hb_event_def event_def seen_def
  limit_for_def has_custom_def defaultLimit_def

lemma check_frame [simp]:
  "d_Cardinality (rep_Details (checkMetricName limits wl name s)) = d_Cardinality (rep_Details s)"
  "maxMetricCardinality (checkMetricName limits wl name s) = maxMetricCardinality s"
  "d_LabelNameTooLong (rep_Details (checkMetricName limits wl name s)) = d_LabelNameTooLong (rep_Details s)"
  "maxLabelNameLen (checkMetricName limits wl name s) = maxLabelNameLen s"
  "d_LabelValueTooLong (rep_Details (checkMetricName limits wl name s)) = d_LabelValueTooLong (rep_Details s)"
  "maxLabelValueLen (checkMetricName limits wl name s) = maxLabelValueLen s"
  "d_HistogramBuckets (rep_Details (checkMetricName limits wl name s)) = d_HistogramBuckets (rep_Details s)"
  "maxHistogramBuckets (checkMetricName limits wl name s) = maxHistogramBuckets s"
  "d_ResponseWeight (rep_Details (checkMetricName limits wl name s)) = d_ResponseWeight (rep_Details s)"
  "maxResponseWeight (checkMetricName limits wl name s) = maxResponseWeight s"
  "d_MetricNameTooLong (rep_Details (checkCardinality limits wl name ms s)) = d_MetricNameTooLong (rep_Details s)"
  "maxMetricNameLen (checkCardinality limits wl name ms s) = maxMetricNameLen s"
  "d_LabelNameTooLong (rep_Details (checkCardinality limits wl name ms s)) = d_LabelNameTooLong (rep_Details s)"
  "maxLabelNameLen (checkCardinality limits wl name ms s) = maxLabelNameLen s"
  "d_LabelValueTooLong (rep_Details (checkCardinality limits wl name ms s)) = d_LabelValueTooLong (rep_Details s)"
  "maxLabelValueLen (checkCardinality limits wl name ms s) = maxLabelValueLen s"
  "d_HistogramBuckets (rep_Details (checkCardinality limits wl name ms s)) = d_HistogramBuckets (rep_Details s)"
  "maxHistogramBuckets (checkCardinality limits wl name ms s) = maxHistogramBuckets s"
  "d_ResponseWeight (rep_Details (checkCardinality limits wl name ms s)) = d_ResponseWeight (rep_Details s)"
  "maxResponseWeight (checkCardinality limits wl name ms s) = maxResponseWeight s"
  "d_MetricNameTooLong (rep_Details (checkLabelName limits wl name l s)) = d_MetricNameTooLong (rep_Details s)"
  "maxMetricNameLen (checkLabelName limits wl name l s) = maxMetricNameLen s"
  "d_Cardinality (rep_Details (checkLabelName limits wl name l s)) = d_Cardinality (rep_Details s)"
  "maxMetricCardinality (checkLabelName limits wl name l s) = maxMetricCardinality s"
  "d_LabelValueTooLong (rep_Details (checkLabelName limits wl name l s)) = d_LabelValueTooLong (rep_Details s)"
  "maxLabelValueLen (checkLabelName limits wl name l s) = maxLabelValueLen s"
  "d_HistogramBuckets (rep_Details (checkLabelName limits wl name l s)) = d_HistogramBuckets (rep_Details s)"
  "maxHistogramBuckets (checkLabelName limits wl name l s) = maxHistogramBuckets s"
  "d_ResponseWeight (rep_Details (checkLabelName limits wl name l s)) = d_ResponseWeight (rep_Details s)"
  "maxResponseWeight (checkLabelName limits wl name l s) = maxResponseWeight s"
  "d_MetricNameTooLong (rep_Details (checkLabelValue limits wl name l s)) = d_MetricNameTooLong (rep_Details s)"
  "maxMetricNameLen (checkLabelValue limits wl name l s) = maxMetricNameLen s"
  "d_Cardinality (rep_Details (checkLabelValue limits wl name l s)) = d_Cardinality (rep_Details s)"
  "maxMetricCardinality (checkLabelValue limits wl name l s) = maxMetricCardinality s"
  "d_LabelNameTooLong (rep_Details (checkLabelValue limits wl name l s)) = d_LabelNameTooLong (rep_Details s)"
  "maxLabelNameLen (checkLabelValue limits wl name l s) = maxLabelNameLen s"
  "d_HistogramBuckets (rep_Details (checkLabelValue limits wl name l s)) = d_HistogramBuckets (rep_Details s)"
  "maxHistogramBuckets (checkLabelValue limits wl name l s) = maxHistogramBuckets s"
  "d_ResponseWeight (rep_Details (checkLabelValue limits wl name l s)) = d_ResponseWeight (rep_Details s)"
  "maxResponseWeight (checkLabelValue limits wl name l s) = maxResponseWeight s"
  "d_MetricNameTooLong (rep_Details (checkHistogram limits wl name h s)) = d_MetricNameTooLong (rep_Details s)"
  "maxMetricNameLen (checkHistogram limits wl name h s) = maxMetricNameLen s"
  "d_Cardinality (rep_Details (checkHistogram limits wl name h s)) = d_Cardinality (rep_Details s)"
  "maxMetricCardinality (checkHistogram limits wl name h s) = maxMetricCardinality s"
  "d_LabelNameTooLong (rep_Details (checkHistogram limits wl name h s)) = d_LabelNameTooLong (rep_Details s)"
  "maxLabelNameLen (checkHistogram limits wl name h s) = maxLabelNameLen s"
  "d_LabelValueTooLong (rep_Details (checkHistogram limits wl name h s)) = d_LabelValueTooLong (rep_Details s)"
  "maxLabelValueLen (checkHistogram limits wl name h s) = maxLabelValueLen s"
  "d_ResponseWeight (rep_Details (checkHistogram limits wl name h s)) = d_ResponseWeight (rep_Details s)"
  "maxResponseWeight (checkHistogram limits wl name h s) = maxResponseWeight s"
  by (simp_all add: check_step_defs split: option.splits)

lemma check_log:
  "d_MetricNameTooLong (rep_Details (checkMetricName lim wl (mf_Name mf) s)) =
     foldl placeMetricName (d_MetricNameTooLong (rep_Details s)) (mn_event lim wl mf)"
  "d_Cardinality (rep_Details (checkCardinality lim wl (mf_Name mf) (mf_Metric mf) s)) =
     foldl placeCardinality (d_Cardinality (rep_Details s)) (cv_event lim wl mf)"
  "d_LabelNameTooLong (rep_Details (checkLabelName lim wl n l s)) =
     foldl placeLabelName (d_LabelNameTooLong (rep_Details s)) (ln_event lim wl (n, l))"
  "d_LabelValueTooLong (rep_Details (checkLabelValue lim wl n l s)) =
     foldl placeLabelValue (d_LabelValueTooLong (rep_Details s)) (lv_event lim wl (n, l))"
  "d_HistogramBuckets (rep_Details (checkHistogram lim wl n h s)) =
     foldl placeHistogramBuckets (d_HistogramBuckets (rep_Details s))
       (case h of None \<Rightarrow> [] | Some h \<Rightarrow> hb_event lim wl (n, h))"
  by (simp_all add: check_step_defs event_defs mn_log.items_add cv_log.items_add ln_log.items_add
      lv_log.items_add hb_log.items_add split: option.splits)

lemma check_max:
  "maxMetricNameLen (checkMetricName lim wl (mf_Name mf) s) =
     foldl max (maxMetricNameLen s) (seen wl CheckTypeMetricNameLength (len (mf_Name mf)))"
  "maxMetricCardinality (checkCardinality lim wl (mf_Name mf) (mf_Metric mf) s) =
     foldl max (maxMetricCardinality s) (seen wl CheckTypeCardinality (len (mf_Metric mf)))"
  "maxLabelNameLen (checkLabelName lim wl n l s) =
     foldl max (maxLabelNameLen s) (seen wl CheckTypeLabelNameLength (len (lp_Name l)))"
  "maxLabelValueLen (checkLabelValue lim wl n l s) =
     foldl max (maxLabelValueLen s) (seen wl CheckTypeLabelValueLength (len (lp_Value l)))"
  "maxHistogramBuckets (checkHistogram lim wl n h s) =
     foldl max (maxHistogramBuckets s)
       (case h of None \<Rightarrow> [] | Some h \<Rightarrow> seen wl CheckTypeHistogramBuckets (len (h_Bucket h)))"
  by (simp_all add: check_step_defs seen_def split: option.splits)

lemma check_Details_ok:
  "Details_ok (rep_Details s) \<Longrightarrow> Details_ok (rep_Details (checkMetricName lim wl n s))"
  "Details_ok (rep_Details s) \<Longrightarrow> Details_ok (rep_Details (checkCardinality lim wl n ms s))"
  "Details_ok (rep_Details s) \<Longrightarrow> Details_ok (rep_Details (checkLabelName lim wl n l s))"
  "Details_ok (rep_Details s) \<Longrightarrow> Details_ok (rep_Details (checkLabelValue lim wl n l s))"
  "Details_ok (rep_Details s) \<Longrightarrow> Details_ok (rep_Details (checkHistogram lim wl n h s))"
  by (simp_all add: check_step_defs split: option.splits)


section \<open>The loops\<close>

lemma handleLabel_frame [simp]:
  "d_MetricNameTooLong (rep_Details (handleLabel lim wl n s l)) = d_MetricNameTooLong (rep_Details s)"
  "d_Cardinality (rep_Details (handleLabel lim wl n s l)) = d_Cardinality (rep_Details s)"
  "d_HistogramBuckets (rep_Details (handleLabel lim wl n s l)) = d_HistogramBuckets (rep_Details s)"
  "d_ResponseWeight (rep_Details (handleLabel lim wl n s l)) = d_ResponseWeight (rep_Details s)"
  "maxMetricNameLen (handleLabel lim wl n s l) = maxMetricNameLen s"
  "maxMetricCardinality (handleLabel lim wl n s l) = maxMetricCardinality s"
  "maxHistogramBuckets (handleLabel lim wl n s l) = maxHistogramBuckets s"
  "maxResponseWeight (handleLabel lim wl n s l) = maxResponseWeight s"
  by (simp_all add: handleLabel_def split: option.splits)

lemma handleLabel_trace:
  "d_LabelNameTooLong (rep_Details (handleLabel lim wl n s l)) =
     foldl placeLabelName (d_LabelNameTooLong (rep_Details s))
       (case l of None \<Rightarrow> [] | Some l \<Rightarrow> ln_event lim wl (n, l))"
  "d_LabelValueTooLong (rep_Details (handleLabel lim wl n s l)) =
     foldl placeLabelValue (d_LabelValueTooLong (rep_Details s))
       (case l of None \<Rightarrow> [] | Some l \<Rightarrow> lv_event lim wl (n, l))"
  "maxLabelNameLen (handleLabel lim wl n s l) =
     foldl max (maxLabelNameLen s)
       (case l of None \<Rightarrow> [] | Some l \<Rightarrow> seen wl CheckTypeLabelNameLength (len (lp_Name l)))"
  "maxLabelValueLen (handleLabel lim wl n s l) =
     foldl max (maxLabelValueLen s)
       (case l of None \<Rightarrow> [] | Some l \<Rightarrow> seen wl CheckTypeLabelValueLength (len (lp_Value l)))"
  by (simp_all add: handleLabel_def check_log check_max split: option.splits)

lemmas handleLabels_trace =
  foldl_trace [where f = "\<lambda>s. d_LabelNameTooLong (rep_Details s)", OF handleLabel_trace(1)]
  foldl_trace [where f = "\<lambda>s. d_LabelValueTooLong (rep_Details s)", OF handleLabel_trace(2)]
  foldl_trace [where f = maxLabelNameLen, OF handleLabel_trace(3)]
  foldl_trace [where f = maxLabelValueLen, OF handleLabel_trace(4)]

lemmas handleLabels_frame =
  foldl_frame [where f = "\<lambda>s. d_MetricNameTooLong (rep_Details s)", OF handleLabel_frame(1)]
  foldl_frame [where f = "\<lambda>s. d_Cardinality (rep_Details s)", OF handleLabel_frame(2)]
  foldl_frame [where f = "\<lambda>s. d_HistogramBuckets (rep_Details s)", OF handleLabel_frame(3)]
  foldl_frame [where f = "\<lambda>s. d_ResponseWeight (rep_Details s)", OF handleLabel_frame(4)]
  foldl_frame [where f = maxMetricNameLen, OF handleLabel_frame(5)]
  foldl_frame [where f = maxMetricCardinality, OF handleLabel_frame(6)]
  foldl_frame [where f = maxHistogramBuckets, OF handleLabel_frame(7)]
  foldl_frame [where f = maxResponseWeight, OF handleLabel_frame(8)]

text \<open>The labels and the histogram of one metric.\<close>

definition metric_labels :: "string \<Rightarrow> Metric option \<Rightarrow> (string \<times> LabelPair) list" where
  "metric_labels n metric =
     (case metric of None \<Rightarrow> []
      | Some m \<Rightarrow> concat (map (case_option [] (\<lambda>l. [(n, l)])) (m_Label m)))"

definition metric_histograms :: "string \<Rightarrow> Metric option \<Rightarrow> (string \<times> Histogram) list" where
  "metric_histograms n metric =
     (case metric of None \<Rightarrow> [] | Some m \<Rightarrow> case_option [] (\<lambda>h. [(n, h)]) (m_Histogram m))"

lemma concat_map_option:
  "concat (map g (concat (map (case_option [] (\<lambda>l. [(n, l)])) ls))) =
   concat (map (\<lambda>l. case l of None \<Rightarrow> [] | Some l \<Rightarrow> g (n, l)) ls)"
  by (induction ls) (auto split: option.splits)

lemma handleMetric_frame [simp]:
  "d_MetricNameTooLong (rep_Details (handleMetric lim wl n s m)) = d_MetricNameTooLong (rep_Details s)"
  "d_Cardinality (rep_Details (handleMetric lim wl n s m)) = d_Cardinality (rep_Details s)"
  "d_ResponseWeight (rep_Details (handleMetric lim wl n s m)) = d_ResponseWeight (rep_Details s)"
  "maxMetricNameLen (handleMetric lim wl n s m) = maxMetricNameLen s"
  "maxMetricCardinality (handleMetric lim wl n s m) = maxMetricCardinality s"
  "maxResponseWeight (handleMetric lim wl n s m) = maxResponseWeight s"
  by (simp_all add: handleMetric_def handleLabels_frame split: option.splits)

lemma handleMetric_trace:
  "d_LabelNameTooLong (rep_Details (handleMetric lim wl n s m)) =
     foldl placeLabelName (d_LabelNameTooLong (rep_Details s))
       (concat (map (ln_event lim wl) (metric_labels n m)))"
  "d_LabelValueTooLong (rep_Details (handleMetric lim wl n s m)) =
     foldl placeLabelValue (d_LabelValueTooLong (rep_Details s))
       (concat (map (lv_event lim wl) (metric_labels n m)))"
  "d_HistogramBuckets (rep_Details (handleMetric lim wl n s m)) =
     foldl placeHistogramBuckets (d_HistogramBuckets (rep_Details s))
       (concat (map (hb_event lim wl) (metric_histograms n m)))"
  "maxLabelNameLen (handleMetric lim wl n s m) =
     foldl max (maxLabelNameLen s)
       (concat (map (\<lambda>x. seen wl CheckTypeLabelNameLength (len (lp_Name (snd x)))) (metric_labels n m)))"
  "maxLabelValueLen (handleMetric lim wl n s m) =
     foldl max (maxLabelValueLen s)
       (concat (map (\<lambda>x. seen wl CheckTypeLabelValueLength (len (lp_Value (snd x)))) (metric_labels n m)))"
  "maxHistogramBuckets (handleMetric lim wl n s m) =
     foldl max (maxHistogramBuckets s)
       (concat (map (\<lambda>x. seen wl CheckTypeHistogramBuckets (len (h_Bucket (snd x))))
         (metric_histograms n m)))"
  by (simp_all add: handleMetric_def metric_labels_def metric_histograms_def handleLabels_trace
      handleLabels_frame check_log check_max concat_map_option cong: option.case_cong split: option.splits)

lemmas handleMetrics_trace =
  foldl_trace [where f = "\<lambda>s. d_LabelNameTooLong (rep_Details s)", OF handleMetric_trace(1)]
  foldl_trace [where f = "\<lambda>s. d_LabelValueTooLong (rep_Details s)", OF handleMetric_trace(2)]
  foldl_trace [where f = "\<lambda>s. d_HistogramBuckets (rep_Details s)", OF handleMetric_trace(3)]
  foldl_trace [where f = maxLabelNameLen, OF handleMetric_trace(4)]
  foldl_trace [where f = maxLabelValueLen, OF handleMetric_trace(5)]
  foldl_trace [where f = maxHistogramBuckets, OF handleMetric_trace(6)]

lemmas handleMetrics_frame =
  foldl_frame [where f = "\<lambda>s. d_MetricNameTooLong (rep_Details s)", OF handleMetric_frame(1)]
  foldl_frame [where f = "\<lambda>s. d_Cardinality (rep_Details s)", OF handleMetric_frame(2)]
  foldl_frame [where f = "\<lambda>s. d_ResponseWeight (rep_Details s)", OF handleMetric_frame(3)]
  foldl_frame [where f = maxMetricNameLen, OF handleMetric_frame(4)]
  foldl_frame [where f = maxMetricCardinality, OF handleMetric_frame(5)]
  foldl_frame [where f = maxResponseWeight, OF handleMetric_frame(6)]

lemma scraped_Nil [simp]:
  "scraped_families [] = []" "scraped_metrics [] = []" "scraped_labels [] = []" "scraped_histograms [] = []"
  by (simp_all add: scraped_families_def scraped_metrics_def scraped_labels_def scraped_histograms_def)

lemma scraped_None [simp]:
  "scraped_families [None] = []" "scraped_labels [None] = []" "scraped_histograms [None] = []"
  by (simp_all add: scraped_families_def scraped_metrics_def scraped_labels_def scraped_histograms_def)

lemma scraped_append:
  "scraped_families (fs @ gs) = scraped_families fs @ scraped_families gs"
  "scraped_labels (fs @ gs) = scraped_labels fs @ scraped_labels gs"
  "scraped_histograms (fs @ gs) = scraped_histograms fs @ scraped_histograms gs"
  by (simp_all add: scraped_families_def scraped_metrics_def scraped_labels_def scraped_histograms_def)

lemma scraped_Some:
  "scraped_families [Some mf] = [mf]"
  "scraped_labels [Some mf] = concat (map (metric_labels (mf_Name mf)) (mf_Metric mf))"
  "scraped_histograms [Some mf] = concat (map (metric_histograms (mf_Name mf)) (mf_Metric mf))"
proof -
  show "scraped_families [Some mf] = [mf]"
    by (simp add: scraped_families_def)
  have m: "scraped_metrics [Some mf] =
      concat (map (case_option [] (\<lambda>m. [(mf_Name mf, m)])) (mf_Metric mf))"
    by (simp add: scraped_metrics_def scraped_families_def)
  show "scraped_labels [Some mf] = concat (map (metric_labels (mf_Name mf)) (mf_Metric mf))"
    unfolding scraped_labels_def m concat_map_option
    by (rule arg_cong [where f = concat], rule map_cong [OF refl])
      (simp add: metric_labels_def split: option.splits)
  show "scraped_histograms [Some mf] = concat (map (metric_histograms (mf_Name mf)) (mf_Metric mf))"
    unfolding scraped_histograms_def m concat_map_option
    by (rule arg_cong [where f = concat], rule map_cong [OF refl])
      (simp add: metric_histograms_def split: option.splits)
qed

lemma concat_map_scraped:
  "concat (map (\<lambda>f. concat (map g (scraped_families [f]))) fs) = concat (map g (scraped_families fs))"
  "concat (map (\<lambda>f. concat (map h (scraped_labels [f]))) fs) = concat (map h (scraped_labels fs))"
  "concat (map (\<lambda>f. concat (map k (scraped_histograms [f]))) fs) = concat (map k (scraped_histograms fs))"
proof -
  have cons: "f # fs = [f] @ fs" for f :: "MetricFamily option" and fs by simp
  show "concat (map (\<lambda>f. concat (map g (scraped_families [f]))) fs) = concat (map g (scraped_families fs))"
    by (induction fs) (simp, subst (2) cons, simp only: scraped_append, simp)
  show "concat (map (\<lambda>f. concat (map h (scraped_labels [f]))) fs) = concat (map h (scraped_labels fs))"
    by (induction fs) (simp, subst (2) cons, simp only: scraped_append, simp)
  show "concat (map (\<lambda>f. concat (map k (scraped_histograms [f]))) fs) = concat (map k (scraped_histograms fs))"
    by (induction fs) (simp, subst (2) cons, simp only: scraped_append, simp)
qed

lemma concat_map_nested: "concat (map g (concat (map f xs))) = concat (map (\<lambda>x. concat (map g (f x))) xs)"
  by (induction xs) auto

lemma handleMetricFamily_trace:
  "d_MetricNameTooLong (rep_Details (handleMetricFamily lim wl s f)) =
     foldl placeMetricName (d_MetricNameTooLong (rep_Details s))
       (concat (map (mn_event lim wl) (scraped_families [f])))"
  "d_Cardinality (rep_Details (handleMetricFamily lim wl s f)) =
     foldl placeCardinality (d_Cardinality (rep_Details s))
       (concat (map (cv_event lim wl) (scraped_families [f])))"
  "d_LabelNameTooLong (rep_Details (handleMetricFamily lim wl s f)) =
     foldl placeLabelName (d_LabelNameTooLong (rep_Details s))
       (concat (map (ln_event lim wl) (scraped_labels [f])))"
  "d_LabelValueTooLong (rep_Details (handleMetricFamily lim wl s f)) =
     foldl placeLabelValue (d_LabelValueTooLong (rep_Details s))
       (concat (map (lv_event lim wl) (scraped_labels [f])))"
  "d_HistogramBuckets (rep_Details (handleMetricFamily lim wl s f)) =
     foldl placeHistogramBuckets (d_HistogramBuckets (rep_Details s))
       (concat (map (hb_event lim wl) (scraped_histograms [f])))"
  "maxMetricNameLen (handleMetricFamily lim wl s f) = foldl max (maxMetricNameLen s)
       (concat (map (\<lambda>mf. seen wl CheckTypeMetricNameLength (len (mf_Name mf))) (scraped_families [f])))"
  "maxMetricCardinality (handleMetricFamily lim wl s f) = foldl max (maxMetricCardinality s)
       (concat (map (\<lambda>mf. seen wl CheckTypeCardinality (len (mf_Metric mf))) (scraped_families [f])))"
  "maxLabelNameLen (handleMetricFamily lim wl s f) = foldl max (maxLabelNameLen s)
       (concat (map (\<lambda>x. seen wl CheckTypeLabelNameLength (len (lp_Name (snd x)))) (scraped_labels [f])))"
  "maxLabelValueLen (handleMetricFamily lim wl s f) = foldl max (maxLabelValueLen s)
       (concat (map (\<lambda>x. seen wl CheckTypeLabelValueLength (len (lp_Value (snd x)))) (scraped_labels [f])))"
  "maxHistogramBuckets (handleMetricFamily lim wl s f) = foldl max (maxHistogramBuckets s)
       (concat (map (\<lambda>x. seen wl CheckTypeHistogramBuckets (len (h_Bucket (snd x))))
         (scraped_histograms [f])))"
  "maxResponseWeight (handleMetricFamily lim wl s f) = maxResponseWeight s"
  "d_ResponseWeight (rep_Details (handleMetricFamily lim wl s f)) = d_ResponseWeight (rep_Details s)"
  by (cases f; simp add: handleMetricFamily_def handleMetrics_trace handleMetrics_frame check_log
      check_max scraped_Some concat_map_nested)+


text \<open>A task's loop over its addresses is a loop over its successful scrapes.\<close>

definition handleScrape ::
  "LimitsConfig \<Rightarrow> EffectiveWhitelists option \<Rightarrow> Report \<Rightarrow> families \<times> int \<Rightarrow> Report" where
  "handleScrape lim wl s r =
     weighResponse lim wl (snd r) (foldl (handleMetricFamily lim wl) s (fst r))"

lemma foldl_processAddress:
  "foldl (processAddress p lim wl) acc addrs =
   (let rs = concat (map (\<lambda>a. case p_client p a of Inl e \<Rightarrow> [] | Inr r \<Rightarrow> [r]) addrs)
    in (foldl (handleScrape lim wl) (fst acc) rs, snd acc + length rs))"
proof (induction addrs arbitrary: acc)
  case (Cons a addrs)
  then show ?case
    by (auto simp: processAddress_def handleScrape_def Let_def split: sum.splits prod.splits)
qed simp

lemmas handleFamilies_trace =
  foldl_trace [where f = "\<lambda>s. d_MetricNameTooLong (rep_Details s)", OF handleMetricFamily_trace(1)]
  foldl_trace [where f = "\<lambda>s. d_Cardinality (rep_Details s)", OF handleMetricFamily_trace(2)]
  foldl_trace [where f = "\<lambda>s. d_LabelNameTooLong (rep_Details s)", OF handleMetricFamily_trace(3)]
  foldl_trace [where f = "\<lambda>s. d_LabelValueTooLong (rep_Details s)", OF handleMetricFamily_trace(4)]
  foldl_trace [where f = "\<lambda>s. d_HistogramBuckets (rep_Details s)", OF handleMetricFamily_trace(5)]
  foldl_trace [where f = maxMetricNameLen, OF handleMetricFamily_trace(6)]
  foldl_trace [where f = maxMetricCardinality, OF handleMetricFamily_trace(7)]
  foldl_trace [where f = maxLabelNameLen, OF handleMetricFamily_trace(8)]
  foldl_trace [where f = maxLabelValueLen, OF handleMetricFamily_trace(9)]
  foldl_trace [where f = maxHistogramBuckets, OF handleMetricFamily_trace(10)]
  foldl_frame [where f = maxResponseWeight, OF handleMetricFamily_trace(11)]
  foldl_frame [where f = "\<lambda>s. d_ResponseWeight (rep_Details s)", OF handleMetricFamily_trace(12)]

lemma weighResponse_frame [simp]:
  "d_MetricNameTooLong (rep_Details (weighResponse lim wl w s)) = d_MetricNameTooLong (rep_Details s)"
  "d_Cardinality (rep_Details (weighResponse lim wl w s)) = d_Cardinality (rep_Details s)"
  "d_LabelNameTooLong (rep_Details (weighResponse lim wl w s)) = d_LabelNameTooLong (rep_Details s)"
  "d_LabelValueTooLong (rep_Details (weighResponse lim wl w s)) = d_LabelValueTooLong (rep_Details s)"
  "d_HistogramBuckets (rep_Details (weighResponse lim wl w s)) = d_HistogramBuckets (rep_Details s)"
  "maxMetricNameLen (weighResponse lim wl w s) = maxMetricNameLen s"
  "maxMetricCardinality (weighResponse lim wl w s) = maxMetricCardinality s"
  "maxLabelNameLen (weighResponse lim wl w s) = maxLabelNameLen s"
  "maxLabelValueLen (weighResponse lim wl w s) = maxLabelValueLen s"
  "maxHistogramBuckets (weighResponse lim wl w s) = maxHistogramBuckets s"
  by (simp_all add: weighResponse_def Let_def)

lemma handleScrape_trace:
  "d_MetricNameTooLong (rep_Details (handleScrape lim wl s r)) =
     foldl placeMetricName (d_MetricNameTooLong (rep_Details s))
       (concat (map (mn_event lim wl) (scraped_families (fst r))))"
  "d_Cardinality (rep_Details (handleScrape lim wl s r)) =
     foldl placeCardinality (d_Cardinality (rep_Details s))
       (concat (map (cv_event lim wl) (scraped_families (fst r))))"
  "d_LabelNameTooLong (rep_Details (handleScrape lim wl s r)) =
     foldl placeLabelName (d_LabelNameTooLong (rep_Details s))
       (concat (map (ln_event lim wl) (scraped_labels (fst r))))"
  "d_LabelValueTooLong (rep_Details (handleScrape lim wl s r)) =
     foldl placeLabelValue (d_LabelValueTooLong (rep_Details s))
       (concat (map (lv_event lim wl) (scraped_labels (fst r))))"
  "d_HistogramBuckets (rep_Details (handleScrape lim wl s r)) =
     foldl placeHistogramBuckets (d_HistogramBuckets (rep_Details s))
       (concat (map (hb_event lim wl) (scraped_histograms (fst r))))"
  "maxMetricNameLen (handleScrape lim wl s r) = foldl max (maxMetricNameLen s)
     (concat (map (\<lambda>mf. seen wl CheckTypeMetricNameLength (len (mf_Name mf))) (scraped_families (fst r))))"
  "maxMetricCardinality (handleScrape lim wl s r) = foldl max (maxMetricCardinality s)
     (concat (map (\<lambda>mf. seen wl CheckTypeCardinality (len (mf_Metric mf))) (scraped_families (fst r))))"
  "maxLabelNameLen (handleScrape lim wl s r) = foldl max (maxLabelNameLen s)
     (concat (map (\<lambda>x. seen wl CheckTypeLabelNameLength (len (lp_Name (snd x)))) (scraped_labels (fst r))))"
  "maxLabelValueLen (handleScrape lim wl s r) = foldl max (maxLabelValueLen s)
     (concat (map (\<lambda>x. seen wl CheckTypeLabelValueLength (len (lp_Value (snd x)))) (scraped_labels (fst r))))"
  "maxHistogramBuckets (handleScrape lim wl s r) = foldl max (maxHistogramBuckets s)
     (concat (map (\<lambda>x. seen wl CheckTypeHistogramBuckets (len (h_Bucket (snd x))))
       (scraped_histograms (fst r))))"
  "maxResponseWeight (handleScrape lim wl s r) = foldl max (maxResponseWeight s)
     (seen wl CheckTypeResponseWeight (snd r))"
  by (simp_all add: handleScrape_def handleFamilies_trace concat_map_scraped)
    (simp add: weighResponse_def seen_def handleFamilies_trace Let_def)

lemmas handleScrapes_trace =
  foldl_trace [where f = "\<lambda>s. d_MetricNameTooLong (rep_Details s)" and step = "handleScrape lim wl" for lim wl, OF handleScrape_trace(1)]
  foldl_trace [where f = "\<lambda>s. d_Cardinality (rep_Details s)" and step = "handleScrape lim wl" for lim wl, OF handleScrape_trace(2)]
  foldl_trace [where f = "\<lambda>s. d_LabelNameTooLong (rep_Details s)" and step = "handleScrape lim wl" for lim wl, OF handleScrape_trace(3)]
  foldl_trace [where f = "\<lambda>s. d_LabelValueTooLong (rep_Details s)" and step = "handleScrape lim wl" for lim wl, OF handleScrape_trace(4)]
  foldl_trace [where f = "\<lambda>s. d_HistogramBuckets (rep_Details s)" and step = "handleScrape lim wl" for lim wl, OF handleScrape_trace(5)]
  foldl_trace [where f = maxMetricNameLen and step = "handleScrape lim wl" for lim wl, OF handleScrape_trace(6)]
  foldl_trace [where f = maxMetricCardinality and step = "handleScrape lim wl" for lim wl, OF handleScrape_trace(7)]
  foldl_trace [where f = maxLabelNameLen and step = "handleScrape lim wl" for lim wl, OF handleScrape_trace(8)]
  foldl_trace [where f = maxLabelValueLen and step = "handleScrape lim wl" for lim wl, OF handleScrape_trace(9)]
  foldl_trace [where f = maxHistogramBuckets and step = "handleScrape lim wl" for lim wl, OF handleScrape_trace(10)]
  foldl_trace [where f = maxResponseWeight and step = "handleScrape lim wl" for lim wl, OF handleScrape_trace(11)]

lemma concat_map_scrapes:
  "concat (map (\<lambda>r. concat (map g (scraped_families (fst r)))) rs) =
     concat (map g (scraped_families (concat (map fst rs))))"
  "concat (map (\<lambda>r. concat (map h (scraped_labels (fst r)))) rs) =
     concat (map h (scraped_labels (concat (map fst rs))))"
  "concat (map (\<lambda>r. concat (map k (scraped_histograms (fst r)))) rs) =
     concat (map k (scraped_histograms (concat (map fst rs))))"
  by (induction rs) (simp_all add: scraped_append)


section \<open>The verdict of one check\<close>

text \<open>
  For a kind of observation \<open>os\<close> with metric name \<open>nm\<close> and value \<open>v\<close>, and the violations
  \<open>mk o\<close> made of them: the log is empty iff nothing offends, all its entries are whitelisted iff
  every offender's metric has a custom limit, and the running maximum is the largest value.
\<close>

lemma set_events:
  "\<not> IsCheckDisabled wl ct \<Longrightarrow>
   set (concat (map (\<lambda>o'. event wl lim ct (mk o') (nm o', v o')) os)) =
   {mk o' (has_custom wl ct (nm o')) | o'. o' \<in> set os \<and> limit_for wl lim ct (nm o') < v o'}"
  by (auto simp: event_def)

lemma events_Nil_iff:
  "\<not> IsCheckDisabled wl ct \<Longrightarrow> observations ct fs = map (\<lambda>o'. (nm o', v o')) os \<Longrightarrow>
   concat (map (\<lambda>o'. event wl lim ct (mk o') (nm o', v o')) os) = [] \<longleftrightarrow> offending wl lim ct fs = {}"
  by (auto simp: event_def offending_def)

lemma seen_Max:
  "\<not> IsCheckDisabled wl ct \<Longrightarrow> observations ct fs = map (\<lambda>o'. (nm o', v o')) os \<Longrightarrow>
   foldl max 0 (concat (map (\<lambda>o'. seen wl ct (v o')) os)) =
   Max (insert 0 (snd ` set (observations ct fs)))"
  by (simp add: seen_def foldl_max_Max image_image)

context violation_log
begin

lemma makeCheck_spec:
  fixes os :: "'o list"
  assumes en: "\<not> IsCheckDisabled wl ct"
    and obs: "observations ct fs = map (\<lambda>o'. (nm o', v o')) os"
    and flag: "\<And>o' b. flag (mk o' b) = b"
    and nm: "\<And>o1 o2 b1 b2. key (mk o1 b1) = key (mk o2 b2) \<Longrightarrow> nm o1 = nm o2"
    and log: "xs = foldl place [] (concat (map (\<lambda>o'. event wl lim ct (mk o') (nm o', v o')) os))"
    and cur: "current = foldl max 0 (concat (map (\<lambda>o'. seen wl ct (v o')) os))"
  shows "makeCheck ct (defaultLimit lim ct) current
      (if xs = [] then (False, False) else (True, list_all id (map flag xs))) =
    spec_check wl lim fs ct"
proof -
  let ?evs = "concat (map (\<lambda>o'. event wl lim ct (mk o') (nm o', v o')) os)"
  note ev = set_events [OF en, where mk = mk and nm = nm and v = v and os = os and lim = lim]
  have empty: "xs = [] \<longleftrightarrow> offending wl lim ct fs = {}"
    unfolding log foldl_place_Nil_iff by (rule events_Nil_iff [OF en obs])
  have "flag a = flag b" if "a \<in> set ?evs" "b \<in> set ?evs" "key a = key b" for a b
  proof -
    from that(1,2) obtain o1 o2 where "a = mk o1 (has_custom wl ct (nm o1))"
      "b = mk o2 (has_custom wl ct (nm o2))"
      unfolding ev by blast
    with that(3) nm [of o1 _ o2] show ?thesis by (simp add: flag)
  qed
  then have "(\<forall>x \<in> set xs. flag x) \<longleftrightarrow> (\<forall>x \<in> set ?evs. flag x)"
    unfolding log by (rule flag_foldl_place)
  also have "\<dots> \<longleftrightarrow> (\<forall>(n, w) \<in> offending wl lim ct fs. has_custom wl ct n)"
    unfolding ev offending_def obs by (fastforce simp: flag)
  finally have all: "list_all id (map flag xs) \<longleftrightarrow>
      (\<forall>(n, w) \<in> offending wl lim ct fs. has_custom wl ct n)"
    by (simp add: list_all_iff)
  have "current = Max (insert 0 (snd ` set (observations ct fs)))"
    unfolding cur by (rule seen_Max [OF en obs])
  with empty all show ?thesis by (auto simp: makeCheck_def spec_check_def)
qed

end

lemma spec_checks_cases:
  "spec_checks wl lim fs ws =
     (if IsCheckDisabled wl CheckTypeMetricNameLength then []
      else [spec_check wl lim fs CheckTypeMetricNameLength]) @
     (if IsCheckDisabled wl CheckTypeLabelNameLength then []
      else [spec_check wl lim fs CheckTypeLabelNameLength]) @
     (if IsCheckDisabled wl CheckTypeLabelValueLength then []
      else [spec_check wl lim fs CheckTypeLabelValueLength]) @
     (if IsCheckDisabled wl CheckTypeCardinality then []
      else [spec_check wl lim fs CheckTypeCardinality]) @
     (if IsCheckDisabled wl CheckTypeHistogramBuckets then []
      else [spec_check wl lim fs CheckTypeHistogramBuckets]) @
     (if IsCheckDisabled wl CheckTypeResponseWeight then [] else [spec_weight_check lim ws])"
  by (simp add: spec_checks_def metric_check_types_def)

lemma buildCheckResults_spec:
  assumes zero: "rep_Details s0 = zeroDetails" "maxMetricNameLen s0 = 0" "maxLabelNameLen s0 = 0"
      "maxLabelValueLen s0 = 0" "maxMetricCardinality s0 = 0" "maxHistogramBuckets s0 = 0"
      "maxResponseWeight s0 = 0"
    and s: "s = foldl (handleScrape lim wl) s0 rs"
  shows "buildCheckResults s lim wl = spec_checks wl lim (concat (map fst rs)) (map snd rs)"
proof -
  let ?fs = "concat (map fst rs)"
  note tr = handleScrapes_trace [where s = s0 and xs = rs and lim = lim and wl = wl, folded s,
      unfolded concat_map_scrapes]
  have dl: "defaultLimit lim CheckTypeMetricNameLength = MaxMetricNameLen lim"
    "defaultLimit lim CheckTypeLabelNameLength = MaxLabelNameLen lim"
    "defaultLimit lim CheckTypeLabelValueLength = MaxLabelValueLen lim"
    "defaultLimit lim CheckTypeCardinality = MaxMetricCardinality lim"
    "defaultLimit lim CheckTypeHistogramBuckets = MaxHistogramBuckets lim"
    by (simp_all add: defaultLimit_def)
  have mn: "makeCheck CheckTypeMetricNameLength (MaxMetricNameLen lim) (maxMetricNameLen s)
      (metricNameWhitelistStatus (rep_Details s)) = spec_check wl lim ?fs CheckTypeMetricNameLength"
    if en: "\<not> IsCheckDisabled wl CheckTypeMetricNameLength"
    unfolding whitelist_status_eqs dl(1) [symmetric]
    by (rule mn_log.makeCheck_spec [OF en, where os = "scraped_families ?fs" and nm = mf_Name
          and v = "\<lambda>mf. len (mf_Name mf)" and flag = mn_Whitelisted
          and mk = "\<lambda>mf w. \<lparr>mn_MetricName = mf_Name mf, mn_Length = len (mf_Name mf), mn_Whitelisted = w\<rparr>"])
      (simp_all add: observations_def tr zero zeroDetails_def mn_event_def [abs_def])
  have cv: "makeCheck CheckTypeCardinality (MaxMetricCardinality lim) (maxMetricCardinality s)
      (cardinalityWhitelistStatus (rep_Details s)) = spec_check wl lim ?fs CheckTypeCardinality"
    if en: "\<not> IsCheckDisabled wl CheckTypeCardinality"
    unfolding whitelist_status_eqs dl(4) [symmetric]
    by (rule cv_log.makeCheck_spec [OF en, where os = "scraped_families ?fs" and nm = mf_Name
          and v = "\<lambda>mf. len (mf_Metric mf)" and flag = cv_Whitelisted
          and mk = "\<lambda>mf w. \<lparr>cv_MetricName = mf_Name mf, cv_Value = len (mf_Metric mf), cv_Whitelisted = w\<rparr>"])
      (simp_all add: observations_def tr zero zeroDetails_def cv_event_def [abs_def])
  have ln: "makeCheck CheckTypeLabelNameLength (MaxLabelNameLen lim) (maxLabelNameLen s)
      (labelNameWhitelistStatus (rep_Details s)) = spec_check wl lim ?fs CheckTypeLabelNameLength"
    if en: "\<not> IsCheckDisabled wl CheckTypeLabelNameLength"
    unfolding whitelist_status_eqs dl(2) [symmetric]
    by (rule ln_log.makeCheck_spec [OF en, where os = "scraped_labels ?fs" and nm = fst
          and v = "\<lambda>x. len (lp_Name (snd x))" and flag = ln_Whitelisted
          and mk = "\<lambda>x w. \<lparr>ln_MetricName = fst x, ln_LabelName = lp_Name (snd x),
              ln_Length = len (lp_Name (snd x)), ln_Whitelisted = w\<rparr>"])
      (simp_all add: observations_def tr zero zeroDetails_def ln_event_def [abs_def])
  have lv: "makeCheck CheckTypeLabelValueLength (MaxLabelValueLen lim) (maxLabelValueLen s)
      (labelValueWhitelistStatus (rep_Details s)) = spec_check wl lim ?fs CheckTypeLabelValueLength"
    if en: "\<not> IsCheckDisabled wl CheckTypeLabelValueLength"
    unfolding whitelist_status_eqs dl(3) [symmetric]
    by (rule lv_log.makeCheck_spec [OF en, where os = "scraped_labels ?fs" and nm = fst
          and v = "\<lambda>x. len (lp_Value (snd x))" and flag = lv_Whitelisted
          and mk = "\<lambda>x w. \<lparr>lv_MetricName = fst x, lv_LabelName = lp_Name (snd x),
              lv_Value = lp_Value (snd x), lv_Length = len (lp_Value (snd x)), lv_Whitelisted = w\<rparr>"])
      (simp_all add: observations_def tr zero zeroDetails_def lv_event_def [abs_def])
  have hb: "makeCheck CheckTypeHistogramBuckets (MaxHistogramBuckets lim) (maxHistogramBuckets s)
      (histogramBucketsWhitelistStatus (rep_Details s)) = spec_check wl lim ?fs CheckTypeHistogramBuckets"
    if en: "\<not> IsCheckDisabled wl CheckTypeHistogramBuckets"
    unfolding whitelist_status_eqs dl(5) [symmetric]
    by (rule hb_log.makeCheck_spec [OF en, where os = "scraped_histograms ?fs" and nm = fst
          and v = "\<lambda>x. len (h_Bucket (snd x))" and flag = hb_Whitelisted
          and mk = "\<lambda>x w. \<lparr>hb_MetricName = fst x, hb_Buckets = len (h_Bucket (snd x)), hb_Whitelisted = w\<rparr>"])
      (simp_all add: observations_def tr zero zeroDetails_def hb_event_def [abs_def])
  have rw: "maxResponseWeight s = Max (insert 0 (set (map snd rs)))"
    if "\<not> IsCheckDisabled wl CheckTypeResponseWeight"
    using that by (simp add: tr zero seen_def foldl_max_Max)
  show ?thesis
    unfolding buildCheckResults_def spec_checks_cases
    using mn cv ln lv hb rw by (simp add: spec_weight_check_def)
qed


section \<open>The report of a task\<close>

lemma Process_cases:
  "Process p task =
     (let lim = effectiveLimits p; wl = Some (effectiveWhitelists p task);
          rs = scrapes p task
      in if rs = [] then Inl (ErrNew ''failed to get target metrics'')
         else Inr (finishReport lim wl (foldl (handleScrape lim wl) (newReport task) rs),
                   [\<lparr>tg_Name = st_TargetGroup task, tg_Env = st_Env task, tg_Cluster = st_Cluster task,
                     tg_Job = st_Job task, tg_TeamName = st_TeamName task\<rparr>]))"
  by (simp add: Process_def foldl_processAddress scrapes_def Let_def)

lemma finishReport_simps [simp]:
  "rep_Checks (finishReport lim wl s) = buildCheckResults s lim wl"
  "d_Checks (rep_Details (finishReport lim wl s)) = buildCheckResults s lim wl"
  "d_Limits (rep_Details (finishReport lim wl s)) = buildCheckLimits (buildCheckResults s lim wl)"
  "d_Current (rep_Details (finishReport lim wl s)) = buildCheckCurrent (buildCheckResults s lim wl)"
  "d_MetricNameTooLong (rep_Details (finishReport lim wl s)) = d_MetricNameTooLong (rep_Details s)"
  "d_LabelNameTooLong (rep_Details (finishReport lim wl s)) = d_LabelNameTooLong (rep_Details s)"
  "d_LabelValueTooLong (rep_Details (finishReport lim wl s)) = d_LabelValueTooLong (rep_Details s)"
  "d_Cardinality (rep_Details (finishReport lim wl s)) = d_Cardinality (rep_Details s)"
  "d_HistogramBuckets (rep_Details (finishReport lim wl s)) = d_HistogramBuckets (rep_Details s)"
  "d_ResponseWeight (rep_Details (finishReport lim wl s)) = d_ResponseWeight (rep_Details s)"
  "max_of (rep_Details (finishReport lim wl s)) = max_of (rep_Details s)"
  by (simp_all add: finishReport_def Let_def max_of_def)

lemma newReport_start [simp]:
  "d_MetricNameTooLong (rep_Details (newReport task)) = []"
  "d_LabelNameTooLong (rep_Details (newReport task)) = []"
  "d_LabelValueTooLong (rep_Details (newReport task)) = []"
  "d_Cardinality (rep_Details (newReport task)) = []"
  "d_HistogramBuckets (rep_Details (newReport task)) = []"
  "d_ResponseWeight (rep_Details (newReport task)) = 0"
  by (simp_all add: newReport_def zeroDetails_def)

lemma buildCheckResults_newReport:
  "buildCheckResults (foldl (handleScrape lim wl) (newReport task) rs) lim wl =
   spec_checks wl lim (concat (map fst rs)) (map snd rs)"
  by (rule buildCheckResults_spec [OF _ _ _ _ _ _ _ refl]) (simp_all add: newReport_def)

lemma header_frame:
  "(rep_TargetGroup s, rep_Env s, rep_Cluster s, rep_TeamName s) = h \<Longrightarrow>
   (rep_TargetGroup t, rep_Env t, rep_Cluster t, rep_TeamName t) = h"
  if "t = foldl (handleScrape lim wl) s rs"
proof -
  let ?h = "\<lambda>s. (rep_TargetGroup s, rep_Env s, rep_Cluster s, rep_TeamName s)"
  have steps: "?h (checkMetricName lim wl n s) = ?h s" "?h (checkCardinality lim wl n ms s) = ?h s"
    "?h (checkLabelName lim wl n l s) = ?h s" "?h (checkLabelValue lim wl n l s) = ?h s"
    "?h (checkHistogram lim wl n hg s) = ?h s" "?h (weighResponse lim wl w s) = ?h s" for n ms l hg w s
    by (simp_all add: check_step_defs weighResponse_def split: option.splits)
  have "?h (handleLabel lim wl n s l) = ?h s" for n s l
    unfolding handleLabel_def using steps by (cases l) auto
  then have labels: "?h (foldl (handleLabel lim wl n) s ls) = ?h s" for n s ls
    by (rule foldl_frame)
  have "?h (handleMetric lim wl n s m) = ?h s" for n s m
    unfolding handleMetric_def using steps labels by (cases m) auto
  then have metrics: "?h (foldl (handleMetric lim wl n) s ms) = ?h s" for n s ms
    by (rule foldl_frame)
  have "?h (handleMetricFamily lim wl s f) = ?h s" for s f
    unfolding handleMetricFamily_def using steps metrics by (cases f) auto
  then have "?h (foldl (handleMetricFamily lim wl) s fs) = ?h s" for s fs
    by (rule foldl_frame)
  then have "?h (handleScrape lim wl s r) = ?h s" for s r
    unfolding handleScrape_def using steps by simp
  then have "?h (foldl (handleScrape lim wl) s rs) = ?h s"
    by (rule foldl_frame)
  then show "?h s = h \<Longrightarrow> ?h t = h" using that by simp
qed

lemma handleScrapes_Details_ok:
  "Details_ok (rep_Details s) \<Longrightarrow> Details_ok (rep_Details (foldl (handleScrape lim wl) s rs))"
proof -
  let ?ok = "\<lambda>s. Details_ok (rep_Details s)"
  have label: "?ok s \<Longrightarrow> ?ok (handleLabel lim wl n s l)" for n s l
    by (simp add: handleLabel_def check_Details_ok split: option.splits)
  have metric: "?ok s \<Longrightarrow> ?ok (handleMetric lim wl n s m)" for n s m
    by (auto simp: handleMetric_def split: option.splits
        intro!: check_Details_ok foldl_invariant [where I = ?ok] label)
  have family: "?ok s \<Longrightarrow> ?ok (handleMetricFamily lim wl s f)" for s f
    by (auto simp: handleMetricFamily_def split: option.splits
        intro!: check_Details_ok foldl_invariant [where I = ?ok] metric)
  have weigh: "?ok s \<Longrightarrow> ?ok (weighResponse lim wl w s)" for s w
    by (simp add: weighResponse_def Let_def Details_ok_def max_of_def)
  have "?ok s \<Longrightarrow> ?ok (handleScrape lim wl s r)" for s r
    unfolding handleScrape_def by (intro weigh foldl_invariant [where I = ?ok] family)
  then show "?ok s \<Longrightarrow> ?ok (foldl (handleScrape lim wl) s rs)"
    by (intro foldl_invariant [where I = ?ok])
qed


section \<open>Properties of the processor\<close>

text \<open>
  C1. The processor implements the check specification: it fails exactly when no address of the
  task could be scraped, and otherwise the report carries the task's identity, one target group,
  and, for every check that is not disabled, the verdict that \<open>spec_checks\<close> gives on everything
  the task's targets returned (default limit, largest value seen, violated iff some metric exceeds
  the limit that applies to it, whitelisted iff every offending metric has a custom limit).
\<close>

theorem Process_refines_spec:
  "case Process p task of
     Inl e \<Rightarrow> scrapes p task = [] \<and> e = ErrNew ''failed to get target metrics''
   | Inr (rep, tgs) \<Rightarrow>
       scrapes p task \<noteq> [] \<and>
       rep_Checks rep = spec_checks (Some (effectiveWhitelists p task)) (effectiveLimits p)
         (concat (map fst (scrapes p task))) (map snd (scrapes p task)) \<and>
       d_Checks (rep_Details rep) = rep_Checks rep \<and>
       (rep_TargetGroup rep, rep_Env rep, rep_Cluster rep, rep_TeamName rep) =
         (st_TargetGroup task, st_Env task, st_Cluster task, st_TeamName task) \<and>
       tgs = [\<lparr>tg_Name = st_TargetGroup task, tg_Env = st_Env task, tg_Cluster = st_Cluster task,
               tg_Job = st_Job task, tg_TeamName = st_TeamName task\<rparr>]"
proof -
  let ?lim = "effectiveLimits p" and ?wl = "Some (effectiveWhitelists p task)"
  let ?s = "foldl (handleScrape ?lim ?wl) (newReport task) (scrapes p task)"
  have "(rep_TargetGroup ?s, rep_Env ?s, rep_Cluster ?s, rep_TeamName ?s) =
      (st_TargetGroup task, st_Env task, st_Cluster task, st_TeamName task)"
    by (rule header_frame [OF refl]) (simp add: newReport_def)
  then show ?thesis
    by (simp add: Process_cases Let_def buildCheckResults_newReport)
      (simp add: finishReport_def Let_def)
qed

lemma set_scraped_families: "set (scraped_families fs) = {mf. Some mf \<in> set fs}"
proof -
  have "set (scraped_families fs) = (\<Union>f \<in> set fs. case f of None \<Rightarrow> {} | Some mf \<Rightarrow> {mf})"
    by (auto simp: scraped_families_def split: option.splits)
  also have "\<dots> = {mf. Some mf \<in> set fs}" by (force split: option.splits)
  finally show ?thesis .
qed

lemma scraped_set_cong:
  assumes "set fs = set gs"
  shows "set (scraped_families fs) = set (scraped_families gs)"
    and "set (scraped_labels fs) = set (scraped_labels gs)"
    and "set (scraped_histograms fs) = set (scraped_histograms gs)"
proof -
  show fam: "set (scraped_families fs) = set (scraped_families gs)"
    using assms by (simp add: set_scraped_families)
  have met: "set (scraped_metrics fs) = set (scraped_metrics gs)"
    unfolding scraped_metrics_def by (simp add: fam)
  show "set (scraped_labels fs) = set (scraped_labels gs)"
    unfolding scraped_labels_def by (simp add: met)
  show "set (scraped_histograms fs) = set (scraped_histograms gs)"
    unfolding scraped_histograms_def by (simp add: met)
qed

lemma spec_checks_set_cong:
  assumes "set fs = set gs" and "set ws = set us"
  shows "spec_checks wl lim fs ws = spec_checks wl lim gs us"
proof -
  have obs: "set (observations ct fs) = set (observations ct gs)" for ct
    by (simp add: observations_def scraped_set_cong [OF assms(1)])
  then have "spec_check wl lim fs ct = spec_check wl lim gs ct" for ct
    by (simp add: spec_check_def offending_def obs)
  then show ?thesis by (simp add: spec_checks_def spec_weight_check_def assms(2))
qed

text \<open>Two clients that return the same scrapes, with the families in any order and multiplicity.\<close>

definition same_scrapes :: "Processor \<Rightarrow> Processor \<Rightarrow> bool" where
  "same_scrapes p q \<longleftrightarrow>
     (\<forall>a. case (p_client p a, p_client q a) of
        (Inr (fs, w), Inr (gs, u)) \<Rightarrow> set fs = set gs \<and> w = u
      | (Inl _, Inl _) \<Rightarrow> True
      | _ \<Rightarrow> False)"

lemma same_scrapes_lists:
  assumes "same_scrapes p q"
  shows "list_all2 (\<lambda>(fs, w) (gs, u). set fs = set gs \<and> w = u)
    (concat (map (\<lambda>a. case p_client p a of Inl e \<Rightarrow> [] | Inr r \<Rightarrow> [r]) addrs))
    (concat (map (\<lambda>a. case p_client q a of Inl e \<Rightarrow> [] | Inr r \<Rightarrow> [r]) addrs))"
proof (induction addrs)
  case (Cons a addrs)
  from assms have "case (p_client p a, p_client q a) of
        (Inr (fs, w), Inr (gs, u)) \<Rightarrow> set fs = set gs \<and> w = u
      | (Inl _, Inl _) \<Rightarrow> True
      | _ \<Rightarrow> False"
    by (simp add: same_scrapes_def)
  with Cons show ?case by (auto split: sum.splits prod.splits)
qed simp

text \<open>
  C8. The check results do not depend on the order in which Go ranges over the parsed metric
  families: two clients that return the same families in different orders give the same checks,
  the same target groups and the same errors.
\<close>

theorem Process_checks_order_independent:
  assumes "same_scrapes p q"
    and "effectiveLimits p = effectiveLimits q"
    and "effectiveWhitelists p task = effectiveWhitelists q task"
  shows "map_sum id (map_prod rep_Checks id) (Process p task) =
         map_sum id (map_prod rep_Checks id) (Process q task)"
proof -
  have rel: "list_all2 (\<lambda>(fs, w) (gs, u). set fs = set gs \<and> w = u) (scrapes p task) (scrapes q task)"
    unfolding scrapes_def by (rule same_scrapes_lists [OF assms(1)])
  have "list_all2 (\<lambda>(fs, w) (gs, u). set fs = set gs \<and> w = u) rs ts \<Longrightarrow>
      set (concat (map fst rs)) = set (concat (map fst ts)) \<and> map snd rs = map snd ts" for rs ts
    by (induction rs ts rule: list_all2_induct) auto
  from this [OF rel] have
    "set (concat (map fst (scrapes p task))) = set (concat (map fst (scrapes q task)))"
    "map snd (scrapes p task) = map snd (scrapes q task)" by auto
  then have "spec_checks wl lim (concat (map fst (scrapes p task))) (map snd (scrapes p task)) =
      spec_checks wl lim (concat (map fst (scrapes q task))) (map snd (scrapes q task))" for wl lim
    by (intro spec_checks_set_cong) simp_all
  moreover have "scrapes p task = [] \<longleftrightarrow> scrapes q task = []"
    using list_all2_lengthD [OF rel] by auto
  ultimately show ?thesis
    by (simp add: Process_cases Let_def buildCheckResults_newReport assms(2,3))
qed

definition example_family :: "string \<Rightarrow> nat \<Rightarrow> MetricFamily" where
  "example_family n k = \<lparr>mf_Name = n, mf_Metric = replicate k
     (Some \<lparr>m_Label = [Some \<lparr>lp_Name = ''job'', lp_Value = ''api''\<rparr>], m_Histogram = None\<rparr>)\<rparr>"

definition example_limits :: LimitsConfig where
  "example_limits = \<lparr>MaxMetricNameLen = 4, MaxLabelNameLen = 5, MaxLabelValueLen = 5,
     MaxMetricCardinality = 1, MaxHistogramBuckets = 3, MaxBytesWeight = 100\<rparr>"

definition example_processor :: "families \<Rightarrow> Processor" where
  "example_processor fs = \<lparr>p_client = (\<lambda>_. Inr (fs, 50)), p_defaultLimits = example_limits,
     p_limitsProvider = None, p_whitelistProvider = None\<rparr>"

definition example_task :: ScrapeTask where
  "example_task = \<lparr>st_ID = 1, st_Status = TaskStatusRunning, st_CreatedAt = 0, st_Job = ''apps'',
     st_Addresses = [''http://a:8080/metrics''], st_TargetGroup = ''svc'', st_Env = ''prod'',
     st_Cluster = ''k8s'', st_TeamName = ''team''\<rparr>"

lemma Process_checks_order_independent_witness:
  "map_sum id (map_prod rep_Checks id)
     (Process (example_processor [Some (example_family ''up'' 1), Some (example_family ''requests'' 2)])
       example_task) =
   map_sum id (map_prod rep_Checks id)
     (Process (example_processor [Some (example_family ''requests'' 2), Some (example_family ''up'' 1)])
       example_task)"
  by (rule Process_checks_order_independent)
    (auto simp: same_scrapes_def example_processor_def effectiveLimits_def effectiveWhitelists_def)


text \<open>
  What the logs of a report should hold: for every key the largest offending observation.
\<close>

definition spec_log ::
  "EffectiveWhitelists option \<Rightarrow> LimitsConfig \<Rightarrow> CheckType \<Rightarrow> ('v \<Rightarrow> 'k) \<Rightarrow> ('v \<Rightarrow> int) \<Rightarrow>
   ('o \<Rightarrow> bool \<Rightarrow> 'v) \<Rightarrow> ('o \<Rightarrow> string \<times> int) \<Rightarrow> 'o list \<Rightarrow> 'v set" where
  "spec_log wl lim ct key val mk ob os =
     largest_per_key key val
       {mk x (has_custom wl ct (fst (ob x))) | x.
          x \<in> set os \<and> \<not> IsCheckDisabled wl ct \<and> limit_for wl lim ct (fst (ob x)) < snd (ob x)}"

lemma set_event_list:
  "set (concat (map (\<lambda>x. event wl lim ct (mk x) (ob x)) os)) =
   {mk x (has_custom wl ct (fst (ob x))) | x.
      x \<in> set os \<and> \<not> IsCheckDisabled wl ct \<and> limit_for wl lim ct (fst (ob x)) < snd (ob x)}"
  by (auto simp: event_def)

context violation_log
begin

lemma log_spec:
  assumes log: "xs = foldl place [] (concat (map (\<lambda>x. event wl lim ct (mk x) (ob x)) os))"
    and det: "\<And>x y b c. key (mk x b) = key (mk y c) \<Longrightarrow> val (mk x b) = val (mk y c) \<Longrightarrow>
      fst (ob x) = fst (ob y) \<and> (b = c \<longrightarrow> mk x b = mk y c)"
  shows "set xs = spec_log wl lim ct key val mk ob os"
  unfolding log spec_log_def set_event_list [symmetric]
proof (rule set_foldl_place)
  fix v w
  assume "v \<in> set (concat (map (\<lambda>x. event wl lim ct (mk x) (ob x)) os))"
    and "w \<in> set (concat (map (\<lambda>x. event wl lim ct (mk x) (ob x)) os))"
    and eq: "key v = key w" "val v = val w"
  then obtain x y where v: "v = mk x (has_custom wl ct (fst (ob x)))"
    and w: "w = mk y (has_custom wl ct (fst (ob y)))"
    unfolding set_event_list by blast
  from det [OF eq [unfolded v w]] show "v = w" unfolding v w by simp
qed

end

text \<open>
  C18. The violation lists of a report are complete and minimal: for each metric (each metric and
  label, each metric, label and value) with an offending observation the report lists exactly one
  violation, the largest, marked whitelisted iff the metric has a custom limit, and nothing else.
\<close>

theorem Process_violation_lists:
  "case Process p task of
     Inl e \<Rightarrow> scrapes p task = []
   | Inr (rep, tgs) \<Rightarrow>
     (let wl = Some (effectiveWhitelists p task); lim = effectiveLimits p;
          fs = concat (map fst (scrapes p task)); d = rep_Details rep
      in set (d_MetricNameTooLong d) = spec_log wl lim CheckTypeMetricNameLength mn_key mn_Length
           (\<lambda>mf w. \<lparr>mn_MetricName = mf_Name mf, mn_Length = len (mf_Name mf), mn_Whitelisted = w\<rparr>)
           (\<lambda>mf. (mf_Name mf, len (mf_Name mf))) (scraped_families fs) \<and>
         set (d_Cardinality d) = spec_log wl lim CheckTypeCardinality cv_MetricName cv_Value
           (\<lambda>mf w. \<lparr>cv_MetricName = mf_Name mf, cv_Value = len (mf_Metric mf), cv_Whitelisted = w\<rparr>)
           (\<lambda>mf. (mf_Name mf, len (mf_Metric mf))) (scraped_families fs) \<and>
         set (d_LabelNameTooLong d) = spec_log wl lim CheckTypeLabelNameLength ln_key ln_Length
           (\<lambda>x w. \<lparr>ln_MetricName = fst x, ln_LabelName = lp_Name (snd x),
              ln_Length = len (lp_Name (snd x)), ln_Whitelisted = w\<rparr>)
           (\<lambda>x. (fst x, len (lp_Name (snd x)))) (scraped_labels fs) \<and>
         set (d_LabelValueTooLong d) = spec_log wl lim CheckTypeLabelValueLength lv_key lv_Length
           (\<lambda>x w. \<lparr>lv_MetricName = fst x, lv_LabelName = lp_Name (snd x), lv_Value = lp_Value (snd x),
              lv_Length = len (lp_Value (snd x)), lv_Whitelisted = w\<rparr>)
           (\<lambda>x. (fst x, len (lp_Value (snd x)))) (scraped_labels fs) \<and>
         set (d_HistogramBuckets d) = spec_log wl lim CheckTypeHistogramBuckets hb_MetricName hb_Buckets
           (\<lambda>x w. \<lparr>hb_MetricName = fst x, hb_Buckets = len (h_Bucket (snd x)), hb_Whitelisted = w\<rparr>)
           (\<lambda>x. (fst x, len (h_Bucket (snd x)))) (scraped_histograms fs))"
proof -
  let ?lim = "effectiveLimits p" and ?wl = "Some (effectiveWhitelists p task)"
  note tr = handleScrapes_trace [where s = "newReport task" and xs = "scrapes p task" and lim = ?lim
      and wl = ?wl, unfolded concat_map_scrapes]
  show ?thesis
    unfolding Process_cases Let_def
    by (simp only: if_distrib [of "case_sum _ _"] sum.case prod.case finishReport_simps split: if_split)
      (intro conjI impI TrueI; (assumption | rule mn_log.log_spec cv_log.log_spec ln_log.log_spec
          lv_log.log_spec hb_log.log_spec);
        simp add: tr mn_event_def [abs_def] cv_event_def [abs_def] ln_event_def [abs_def]
          lv_event_def [abs_def] hb_event_def [abs_def])
qed

text \<open>
  C19. The report keeps the invariant of \<open>Details\<close>: no two entries of a list share their key,
  and each field of \<open>Max\<close> holds the largest value of its list, and is absent iff the list is
  empty.
\<close>

theorem Process_Details_ok:
  "case Process p task of Inl e \<Rightarrow> True | Inr (rep, tgs) \<Rightarrow> Details_ok (rep_Details rep)"
proof -
  let ?lim = "effectiveLimits p" and ?wl = "Some (effectiveWhitelists p task)"
  have "Details_ok (rep_Details (foldl (handleScrape ?lim ?wl) (newReport task) (scrapes p task)))"
    by (rule handleScrapes_Details_ok) (simp add: newReport_def)
  then show ?thesis by (simp add: Process_cases Let_def Details_ok_def)
qed

lemma d_ResponseWeight_handleScrape:
  "d_ResponseWeight (rep_Details (handleScrape lim wl s r)) =
   foldl max (d_ResponseWeight (rep_Details s))
     (if IsCheckDisabled wl CheckTypeResponseWeight \<or> \<not> MaxBytesWeight lim < snd r then [] else [snd r])"
  by (auto simp: handleScrape_def weighResponse_def handleFamilies_trace Let_def max_def)

text \<open>
  The response weight of a report is the largest response above the limit, and 0 when no
  response is above it or the check is disabled; the check itself is violated iff some response
  is above the limit (for a limit that is not negative).
\<close>

lemma Process_response_weight:
  assumes "Process p task = Inr (rep, tgs)" and "0 \<le> MaxBytesWeight (effectiveLimits p)"
    and "\<not> IsCheckDisabled (Some (effectiveWhitelists p task)) CheckTypeResponseWeight"
  shows "d_ResponseWeight (rep_Details rep) =
      Max (insert 0 {w \<in> set (map snd (scrapes p task)). MaxBytesWeight (effectiveLimits p) < w}) \<and>
    (\<exists>c \<in> set (rep_Checks rep). chk_Type c = CheckTypeResponseWeight \<and>
       (chk_Violated c \<longleftrightarrow> 0 < d_ResponseWeight (rep_Details rep)))"
proof -
  let ?lim = "effectiveLimits p" and ?wl = "Some (effectiveWhitelists p task)"
  let ?ws = "map snd (scrapes p task)" and ?L = "MaxBytesWeight (effectiveLimits p)"
  let ?s = "foldl (handleScrape ?lim ?wl) (newReport task) (scrapes p task)"
  from assms(1) have rep: "rep = finishReport ?lim ?wl ?s"
    by (auto simp: Process_cases Let_def split: if_splits)
  have ev: "set (concat (map (\<lambda>r. if IsCheckDisabled ?wl CheckTypeResponseWeight \<or> \<not> ?L < snd r
        then [] else [snd r]) rs)) = {w \<in> set (map snd rs). ?L < w}" for rs :: "(families \<times> int) list"
    using assms(3) by (induction rs) auto
  have rw: "d_ResponseWeight (rep_Details rep) = Max (insert 0 {w \<in> set ?ws. ?L < w})"
    unfolding rep finishReport_simps
      foldl_trace [where f = "\<lambda>s. d_ResponseWeight (rep_Details s)", OF d_ResponseWeight_handleScrape]
      foldl_max_Max ev
    by simp
  have "spec_weight_check ?lim ?ws \<in> set (rep_Checks rep)"
    using assms(3) by (simp add: rep buildCheckResults_newReport spec_checks_def del: set_map)
  moreover have "?L < Max (insert 0 (set ?ws)) \<longleftrightarrow> 0 < Max (insert 0 {w \<in> set ?ws. ?L < w})"
    using assms(2) by (subst Max_gr_iff, simp, simp, subst Max_gr_iff, simp, simp) fastforce
  ultimately have "\<exists>c \<in> set (rep_Checks rep). chk_Type c = CheckTypeResponseWeight \<and>
       (chk_Violated c \<longleftrightarrow> 0 < d_ResponseWeight (rep_Details rep))"
    unfolding rw by (intro bexI [where x = "spec_weight_check ?lim ?ws"]) (simp_all add: spec_weight_check_def)
  with rw show ?thesis by blast
qed

end
