(* ===== verification/Database.thy ===== *)
theory Database
  imports Violations Scrape_Tasks
begin

text \<open>
  The tables behind \<open>internal/storage/postgres\<close> (the schema is in \<open>migrations/postgres\<close>) and
  what a call to the driver can do. A table is the list of its rows, a sequence the next number
  it gives. Times are microseconds, the server's precision.

  A \<open>Link\<close> says how the driver behaves during one storage operation: whether a connection is
  acquired, whether a transaction begins, which of its statements fail, and how the final
  statement (or commit) ends. \<open>Done\<close> is success; \<open>Refused\<close> is an error after which the
  statement has had no effect; \<open>Lost\<close> is an error, such as a broken connection, after which the
  statement took effect all the same.
\<close>

datatype outcome = Done | Refused goerr | Lost goerr

record Link =
  lk_acquire :: "goerr option"
  lk_begin :: "goerr option"
  lk_exec :: "nat \<Rightarrow> goerr option"
  lk_end :: outcome

definition good_link :: Link where
  "good_link = \<lparr>lk_acquire = None, lk_begin = None, lk_exec = (\<lambda>_. None), lk_end = Done\<rparr>"

record OutboxRow =
  ob_id :: int
  ob_topic :: string
  ob_event_key :: string
  ob_event_body :: string
  ob_status :: string
  ob_retry_count :: int
  ob_last_error :: string
  ob_created_at :: int
  ob_updated_at :: int

record ReportRow =
  rr_target_group :: string
  rr_env :: string
  rr_cluster :: string
  rr_team_name :: string
  rr_details :: string
  rr_created_at :: int

record TargetGroupRow =
  gr_id :: int
  gr_target_group :: string
  gr_env :: string
  gr_cluster :: string
  gr_job :: string
  gr_team_name :: string
  gr_first_check :: "int option"
  gr_last_check :: "int option"

record MetricsWhitelistRow =
  mw_target_group :: string
  mw_env :: string
  mw_metric_name :: string
  mw_checks :: string

record TargetsWhitelistRow =
  tw_target_group :: string
  tw_env :: string
  tw_checks :: string

record DB =
  db_outbox :: "OutboxRow list"
  db_outbox_seq :: int
  db_reports :: "ReportRow list"
  db_scrape_tasks :: "ScrapeTask list"
  db_scrape_tasks_seq :: int
  db_target_groups :: "TargetGroupRow list"
  db_target_groups_seq :: int
  db_metrics_whitelist :: "MetricsWhitelistRow list"
  db_targets_whitelist :: "TargetsWhitelistRow list"

definition empty_db :: DB where
  "empty_db = \<lparr>db_outbox = [], db_outbox_seq = 1, db_reports = [], db_scrape_tasks = [],
     db_scrape_tasks_seq = 1, db_target_groups = [], db_target_groups_seq = 1,
     db_metrics_whitelist = [], db_targets_whitelist = []\<rparr>"

section \<open>Statements and transactions\<close>

text \<open>
  Sequences are not transactional: a rolled back transaction restores the tables, not the
  numbers it drew.
\<close>

definition rollback :: "DB \<Rightarrow> DB \<Rightarrow> DB" where
  "rollback before working =
     before\<lparr>db_outbox_seq := db_outbox_seq working, db_scrape_tasks_seq := db_scrape_tasks_seq working,
       db_target_groups_seq := db_target_groups_seq working\<rparr>"

text \<open>The last statement of an operation, \<open>f\<close>, or the commit of what \<open>f\<close> has done.\<close>

fun finish :: "outcome \<Rightarrow> DB \<Rightarrow> DB \<Rightarrow> unit result \<times> DB" where
  "finish Done before working = (Inr (), working)"
| "finish (Refused e) before working = (Inl e, rollback before working)"
| "finish (Lost e) before working = (Inl e, working)"

text \<open>\<open>conn.Exec\<close> of one statement on an acquired connection, and a query whose rows are read.\<close>

definition exec :: "Link \<Rightarrow> (DB \<Rightarrow> DB) \<Rightarrow> DB \<Rightarrow> unit result \<times> DB" where
  "exec lk stmt db =
     (case lk_acquire lk of Some e \<Rightarrow> (Inl e, db) | None \<Rightarrow> finish (lk_end lk) db (stmt db))"

definition query :: "Link \<Rightarrow> (DB \<Rightarrow> 'a result \<times> DB) \<Rightarrow> DB \<Rightarrow> 'a result \<times> DB" where
  "query lk stmt db =
     (case lk_acquire lk of
        Some e \<Rightarrow> (Inl e, db)
      | None \<Rightarrow>
          (case stmt db of (r, db') \<Rightarrow>
             (case finish (lk_end lk) db db' of
                (Inl e, db'') \<Rightarrow> (Inl e, db'')
              | (Inr _, db'') \<Rightarrow> (r, db''))))"

lemma exec_good [simp]: "exec good_link f db = (Inr (), f db)"
  by (simp add: exec_def good_link_def)

lemma query_good [simp]: "query good_link f db = f db"
  by (simp add: query_def good_link_def split: prod.splits)

text \<open>Whatever the driver does, a statement's effect is there in full or not at all.\<close>

lemma exec_cases:
  obtains (ok) "exec lk f db = (Inr (), f db)"
  | (lost) e where "exec lk f db = (Inl e, f db)"
  | (refused) e where "exec lk f db = (Inl e, rollback db (f db))"
  | (unreached) e where "exec lk f db = (Inl e, db)"
  by (cases "lk_acquire lk"; cases "lk_end lk") (auto simp: exec_def)

lemma exec_Inr: "exec lk f db = (Inr u, db') \<Longrightarrow> db' = f db"
  by (rule exec_cases [of lk f db]) auto

lemma rollback_tables [simp]:
  "db_outbox (rollback d w) = db_outbox d" "db_reports (rollback d w) = db_reports d"
  "db_scrape_tasks (rollback d w) = db_scrape_tasks d" "db_target_groups (rollback d w) = db_target_groups d"
  "db_metrics_whitelist (rollback d w) = db_metrics_whitelist d"
  "db_targets_whitelist (rollback d w) = db_targets_whitelist d"
  "db_outbox_seq (rollback d w) = db_outbox_seq w"
  "db_scrape_tasks_seq (rollback d w) = db_scrape_tasks_seq w"
  "db_target_groups_seq (rollback d w) = db_target_groups_seq w"
  by (simp_all add: rollback_def)

text \<open>A property of the state that a statement keeps and that survives its undoing is kept.\<close>

lemma exec_invariant:
  assumes "I db" and "I (f db)" and "I (rollback db (f db))"
  shows "I (snd (exec lk f db))"
  using assms by (cases rule: exec_cases [of lk f db]) auto

lemma query_invariant:
  assumes "I db" and "I (snd (f db))" and "I (rollback db (snd (f db)))"
  shows "I (snd (query lk f db))"
  using assms by (cases "lk_acquire lk"; cases "lk_end lk") (auto simp: query_def split: prod.splits)

text \<open>The tables, without the sequences.\<close>

definition other_tables where
  "other_tables db = (db_scrape_tasks db, db_target_groups db, db_metrics_whitelist db, db_targets_whitelist db)"

definition tables where
  "tables db = (db_outbox db, db_reports db, other_tables db)"

lemma tables_rollback [simp]: "tables (rollback db w) = tables db"
  by (simp add: tables_def other_tables_def)

section \<open>Tables with a unique index\<close>

text \<open>\<open>INSERT ... ON CONFLICT (key) DO UPDATE\<close>: \<open>merge\<close> says what a conflicting row becomes.\<close>

definition upsert :: "('r \<Rightarrow> 'k) \<Rightarrow> ('r \<Rightarrow> 'r \<Rightarrow> 'r) \<Rightarrow> 'r \<Rightarrow> 'r list \<Rightarrow> 'r list" where
  "upsert key merge row rows =
     (if key row \<in> key ` set rows
      then map (\<lambda>r. if key r = key row then merge r row else r) rows
      else rows @ [row])"

locale keyed_table =
  fixes key :: "'r \<Rightarrow> 'k" and merge :: "'r \<Rightarrow> 'r \<Rightarrow> 'r"
  assumes merge_key: "key old = key new \<Longrightarrow> key (merge old new) = key new"
begin

definition unique_rows :: "'r list \<Rightarrow> bool" where
  "unique_rows rows \<longleftrightarrow> distinct (map key rows)"

definition rows_at :: "'k \<Rightarrow> 'r list \<Rightarrow> 'r list" where
  "rows_at k rows = filter (\<lambda>r. key r = k) rows"

lemma upsert_keys: "map key (upsert key merge row rows) =
    (if key row \<in> key ` set rows then map key rows else map key rows @ [key row])"
  by (auto simp: upsert_def merge_key)

lemma upsert_unique: "unique_rows rows \<Longrightarrow> unique_rows (upsert key merge row rows)"
  by (simp add: unique_rows_def upsert_keys)

lemma upsert_other: "k \<noteq> key row \<Longrightarrow> rows_at k (upsert key merge row rows) = rows_at k rows"
proof -
  assume k: "k \<noteq> key row"
  have "filter (\<lambda>r. key r = k) (map (\<lambda>r. if key r = key row then merge r row else r) rows) =
      filter (\<lambda>r. key r = k) rows" for rows
    using k by (induction rows) (auto simp: merge_key)
  with k show ?thesis by (simp add: rows_at_def upsert_def)
qed

lemma upsert_self:
  "rows_at (key row) (upsert key merge row rows) =
   (case rows_at (key row) rows of [] \<Rightarrow> [row] | olds \<Rightarrow> map (\<lambda>r. merge r row) olds)"
proof (cases "key row \<in> key ` set rows")
  case True
  have "filter (\<lambda>r. key r = key row) (map (\<lambda>r. if key r = key row then merge r row else r) rows) =
      map (\<lambda>r. merge r row) (filter (\<lambda>r. key r = key row) rows)" for rows
    by (induction rows) (auto simp: merge_key)
  moreover from True have "filter (\<lambda>r. key r = key row) rows \<noteq> []"
    by (auto simp: filter_empty_conv)
  ultimately show ?thesis
    using True by (simp add: rows_at_def upsert_def split: list.splits)
next
  case False
  then have "filter (\<lambda>r. key r = key row) rows = []" by (simp add: filter_empty_conv) (metis image_eqI)
  with False show ?thesis by (simp add: rows_at_def upsert_def)
qed

lemma rows_at_unique: "unique_rows rows \<Longrightarrow> rows_at k rows = [] \<or> (\<exists>r. rows_at k rows = [r] \<and> key r = k)"
proof (induction rows)
  case (Cons r rows)
  show ?case
  proof (cases "key r = k")
    case True
    with Cons.prems have "filter (\<lambda>r. key r = k) rows = []"
      by (simp add: unique_rows_def filter_empty_conv) (metis image_eqI)
    with True show ?thesis by (simp add: rows_at_def)
  qed (use Cons in \<open>simp add: unique_rows_def rows_at_def\<close>)
qed (simp add: rows_at_def)

text \<open>When the merged row is the new one, the last row saved for a key is what is found there.\<close>

lemma upsert_all_last:
  assumes "unique_rows rows" and "\<And>old new. key old = key new \<Longrightarrow> merge old new = new"
    and "row \<in> set news" and "\<And>row'. row' \<in> set news \<Longrightarrow> key row' = key row \<Longrightarrow> row' = row"
  shows "rows_at (key row) (foldl (\<lambda>rows row. upsert key merge row rows) rows news) = [row]"
  using assms(1,3,4)
proof (induction news arbitrary: rows rule: rev_induct)
  case (snoc n news)
  let ?rows = "foldl (\<lambda>rows row. upsert key merge row rows) rows news"
  have uniq: "unique_rows ?rows"
    using snoc.prems(1) by (intro foldl_invariant [where I = unique_rows]) (auto intro: upsert_unique)
  show ?case
  proof (cases "key n = key row")
    case True
    with snoc.prems(3) have "n = row" by simp
    with rows_at_unique [OF uniq, of "key row"] show ?thesis
      using upsert_self [of row ?rows] assms(2) by auto
  next
    case False
    with snoc have "rows_at (key row) ?rows = [row]" by auto
    with False upsert_other [of "key row" n ?rows] show ?thesis by simp
  qed
qed simp

end

section \<open>Constants and construction of the storage\<close>

text \<open>
  \<open>postgres.go\<close>: the pool is opened by \<open>pgxpool.New\<close> (the argument \<open>connect\<close>); the storage
  keeps the outbox topic.
\<close>

record Storage =
  outboxTopic :: string

definition defaultOutboxTopic :: string where "defaultOutboxTopic = ''metric-sherlock''"

definition rowsPerBatch :: nat where "rowsPerBatch = 1000"

definition errCodeDeadlock :: string where "errCodeDeadlock = ''40P01''"

definition New :: "(string \<Rightarrow> unit result) \<Rightarrow> string \<Rightarrow> string \<Rightarrow> Storage result" where
  "New connect dsn topic =
     (case connect dsn of
        Inl e \<Rightarrow> Inl e
      | Inr _ \<Rightarrow> Inr \<lparr>outboxTopic = (if topic = [] then defaultOutboxTopic else topic)\<rparr>)"

end
