(* ===== verification/Outbox.thy ===== *)
theory Outbox
  imports Database "HOL-Library.Multiset"
begin

text \<open>
  The outbox table's operations (\<open>internal/storage/postgres/outbox.go\<close>) and the relay that
  moves its messages to Kafka (\<open>internal/outbox/relay.go\<close>).

  The relay is written against an interface; the locale \<open>outbox_store\<close> states what it promises
  (what is fetched is claimed, an unknown id changes nothing, marking touches one message) and
  what the relay then guarantees: a message is only ever marked sent after it was written.
  The locale is interpreted on the SQL of \<open>outbox.go\<close>.
\<close>

section \<open>Storage operations\<close>

definition OutboxStatusPending :: string where "OutboxStatusPending = ''pending''"
definition OutboxStatusProcessing :: string where "OutboxStatusProcessing = ''processing''"
definition OutboxStatusSent :: string where "OutboxStatusSent = ''sent''"
definition OutboxStatusFailed :: string where "OutboxStatusFailed = ''failed''"

lemmas OutboxStatus_defs = OutboxStatusPending_def OutboxStatusProcessing_def OutboxStatusSent_def
  OutboxStatusFailed_def

lemma OutboxStatus_distinct [simp]:
  "OutboxStatusPending \<noteq> OutboxStatusProcessing" "OutboxStatusPending \<noteq> OutboxStatusSent"
  "OutboxStatusPending \<noteq> OutboxStatusFailed" "OutboxStatusProcessing \<noteq> OutboxStatusPending"
  "OutboxStatusProcessing \<noteq> OutboxStatusSent" "OutboxStatusProcessing \<noteq> OutboxStatusFailed"
  "OutboxStatusSent \<noteq> OutboxStatusPending" "OutboxStatusSent \<noteq> OutboxStatusProcessing"
  "OutboxStatusSent \<noteq> OutboxStatusFailed" "OutboxStatusFailed \<noteq> OutboxStatusPending"
  "OutboxStatusFailed \<noteq> OutboxStatusProcessing" "OutboxStatusFailed \<noteq> OutboxStatusSent"
  by (simp_all add: OutboxStatus_defs)

record OutboxMessage =
  msg_ID :: int
  msg_Topic :: string
  msg_EventKey :: string
  msg_EventBody :: string
  msg_RetryCount :: int

record outboxEvent =
  ev_Topic :: string
  ev_Key :: string
  ev_Body :: string
  ev_CreatedAt :: int

definition saveOutboxMessage :: "outboxEvent \<Rightarrow> DB \<Rightarrow> DB" where
  "saveOutboxMessage event db =
     db\<lparr>db_outbox := db_outbox db @
          [\<lparr>ob_id = db_outbox_seq db, ob_topic = ev_Topic event, ob_event_key = ev_Key event,
            ob_event_body = ev_Body event, ob_status = OutboxStatusPending, ob_retry_count = 0,
            ob_last_error = [], ob_created_at = ev_CreatedAt event, ob_updated_at = ev_CreatedAt event\<rparr>],
        db_outbox_seq := db_outbox_seq db + 1\<rparr>"

text \<open>
  Inside a transaction. \<open>n\<close> counts the transaction's statements, so that the \<open>Link\<close> can say
  which of them fails; the count is returned with the working state.
\<close>

fun enqueueOutboxEvents :: "Link \<Rightarrow> outboxEvent list \<Rightarrow> nat \<Rightarrow> DB \<Rightarrow> unit result \<times> nat \<times> DB" where
  "enqueueOutboxEvents lk [] n db = (Inr (), n, db)"
| "enqueueOutboxEvents lk (event # events) n db =
     (case lk_exec lk n of
        Some e \<Rightarrow> (Inl e, n, db)
      | None \<Rightarrow> enqueueOutboxEvents lk events (Suc n) (saveOutboxMessage event db))"

definition minute :: int where "minute = 60000000"

definition outbox_due :: "int \<Rightarrow> OutboxRow \<Rightarrow> bool" where
  "outbox_due now r \<longleftrightarrow> ob_status r = OutboxStatusPending \<or>
     (ob_status r = OutboxStatusProcessing \<and> ob_updated_at r < now - minute)"

text \<open>
  The statement of \<open>FetchPendingOutboxMessages\<close>. \<open>locked\<close> holds the rows other transactions
  have locked, which \<open>SKIP LOCKED\<close> passes over; \<open>rank\<close> gives the order in which \<open>RETURNING\<close>
  happens to list the rows, which the statement leaves open.
\<close>

definition outbox_picked :: "int \<Rightarrow> int set \<Rightarrow> nat \<Rightarrow> OutboxRow list \<Rightarrow> OutboxRow list" where
  "outbox_picked now locked limit rows =
     take limit (sort_key ob_created_at (filter (\<lambda>r. outbox_due now r \<and> ob_id r \<notin> locked) rows))"

definition claim :: "int \<Rightarrow> int set \<Rightarrow> OutboxRow \<Rightarrow> OutboxRow" where
  "claim now ids r =
     (if ob_id r \<in> ids then r\<lparr>ob_status := OutboxStatusProcessing, ob_updated_at := now\<rparr> else r)"

definition message_of :: "OutboxRow \<Rightarrow> OutboxMessage" where
  "message_of r = \<lparr>msg_ID = ob_id r, msg_Topic = ob_topic r, msg_EventKey = ob_event_key r,
     msg_EventBody = ob_event_body r, msg_RetryCount = ob_retry_count r\<rparr>"

definition fetchPendingOutboxMessages_stmt ::
  "int \<Rightarrow> int set \<Rightarrow> (int \<Rightarrow> nat) \<Rightarrow> int \<Rightarrow> DB \<Rightarrow> OutboxMessage list result \<times> DB" where
  "fetchPendingOutboxMessages_stmt now locked rank limit db =
     (let picked = ob_id ` set (outbox_picked now locked (nat limit) (db_outbox db));
          rows = map (claim now picked) (db_outbox db)
      in (Inr (map message_of (sort_key (\<lambda>r. rank (ob_id r)) (filter (\<lambda>r. ob_id r \<in> picked) rows))), db\<lparr>db_outbox := rows\<rparr>))"

text \<open>When reading the rows fails the source returns the rows read so far with the error; its
  only caller drops them, and so does the model.\<close>

definition FetchPendingOutboxMessages ::
  "Link \<Rightarrow> int \<Rightarrow> int set \<Rightarrow> (int \<Rightarrow> nat) \<Rightarrow> int \<Rightarrow> DB \<Rightarrow>
   OutboxMessage list result \<times> DB" where
  "FetchPendingOutboxMessages lk now locked rank limit db =
     (if limit \<le> 0 then (Inr [], db)
      else query lk (fetchPendingOutboxMessages_stmt now locked rank limit) db)"

definition on_row :: "int \<Rightarrow> (OutboxRow \<Rightarrow> OutboxRow) \<Rightarrow> DB \<Rightarrow> DB" where
  "on_row mid f db = db\<lparr>db_outbox := map (\<lambda>r. if ob_id r = mid then f r else r) (db_outbox db)\<rparr>"

definition MarkOutboxMessageSent :: "Link \<Rightarrow> int \<Rightarrow> int \<Rightarrow> DB \<Rightarrow> unit result \<times> DB" where
  "MarkOutboxMessageSent lk now mid db =
     exec lk (on_row mid (\<lambda>r. r\<lparr>ob_status := OutboxStatusSent, ob_last_error := [], ob_updated_at := now\<rparr>)) db"

definition markFailed_row :: "int \<Rightarrow> string \<Rightarrow> int \<Rightarrow> OutboxRow \<Rightarrow> OutboxRow" where
  "markFailed_row now lastError maxTries r =
     r\<lparr>ob_status := (if ob_retry_count r + 1 \<ge> maxTries then OutboxStatusFailed else OutboxStatusPending),
       ob_retry_count := ob_retry_count r + 1, ob_last_error := lastError, ob_updated_at := now\<rparr>"

definition MarkOutboxMessageFailed ::
  "Link \<Rightarrow> int \<Rightarrow> int \<Rightarrow> string \<Rightarrow> int \<Rightarrow> DB \<Rightarrow> unit result \<times> DB" where
  "MarkOutboxMessageFailed lk now mid lastError maxTries db =
     exec lk (on_row mid (markFailed_row now lastError maxTries)) db"

section \<open>The relay\<close>

record Relay =
  batchSize :: int
  pollInterval :: int
  maxRetries :: int

definition NewRelay :: "int \<Rightarrow> int \<Rightarrow> int \<Rightarrow> Relay" where
  "NewRelay batch poll retries =
     \<lparr>batchSize = (if batch \<le> 0 then 100 else batch),
      pollInterval = (if poll \<le> 0 then 1000000000 else poll),
      maxRetries = (if retries \<le> 0 then 5 else retries)\<rparr>"

record KafkaMessage =
  km_Topic :: string
  km_Key :: string
  km_Value :: string

definition kafkaMessage :: "OutboxMessage \<Rightarrow> KafkaMessage" where
  "kafkaMessage m = \<lparr>km_Topic = msg_Topic m, km_Key = msg_EventKey m, km_Value = msg_EventBody m\<rparr>"

text \<open>The Go interfaces \<open>storage\<close> and \<open>writer\<close>, over any state.\<close>

record 's relay_ops =
  op_fetch :: "int \<Rightarrow> 's \<Rightarrow> OutboxMessage list result \<times> 's"
  op_sent :: "int \<Rightarrow> 's \<Rightarrow> unit result \<times> 's"
  op_failed :: "int \<Rightarrow> string \<Rightarrow> int \<Rightarrow> 's \<Rightarrow> unit result \<times> 's"
  op_write :: "KafkaMessage \<Rightarrow> 's \<Rightarrow> unit result \<times> 's"

definition relay_message :: "'s relay_ops \<Rightarrow> Relay \<Rightarrow> 's \<Rightarrow> OutboxMessage \<Rightarrow> 's" where
  "relay_message ops r s message =
     (case op_write ops (kafkaMessage message) s of
        (Inl e, s) \<Rightarrow> snd (op_failed ops (msg_ID message) (err_message e) (maxRetries r) s)
      | (Inr _, s) \<Rightarrow> snd (op_sent ops (msg_ID message) s))"

definition flush :: "'s relay_ops \<Rightarrow> Relay \<Rightarrow> 's \<Rightarrow> 's" where
  "flush ops r s =
     (case op_fetch ops (batchSize r) s of
        (Inl e, s) \<Rightarrow> s
      | (Inr messages, s) \<Rightarrow> foldl (relay_message ops r) s messages)"

text \<open>\<open>Run\<close> on the sequence of events its \<open>select\<close> takes: a tick, or the end of the context.\<close>

datatype relay_event = Tick | CtxDone

fun Run :: "'s relay_ops \<Rightarrow> Relay \<Rightarrow> relay_event list \<Rightarrow> 's \<Rightarrow> 's" where
  "Run ops r [] s = s"
| "Run ops r (CtxDone # evs) s = s"
| "Run ops r (Tick # evs) s = Run ops r evs (flush ops r s)"

section \<open>The relay on the database and a Kafka log\<close>

text \<open>
  \<open>Env\<close> fixes, for the n-th call the relay makes, how the driver and the broker behave. A broker
  error may come although the message was stored (\<open>Lost\<close>).
\<close>

record Env =
  en_link :: "nat \<Rightarrow> Link"
  en_now :: "nat \<Rightarrow> int"
  en_locked :: "nat \<Rightarrow> int set"
  en_rank :: "nat \<Rightarrow> int \<Rightarrow> nat"
  en_write :: "nat \<Rightarrow> outcome"

record World =
  w_db :: DB
  w_kafka :: "KafkaMessage list"
  w_calls :: nat

definition on_db :: "(nat \<Rightarrow> DB \<Rightarrow> 'a \<times> DB) \<Rightarrow> World \<Rightarrow> 'a \<times> World" where
  "on_db f w = (case f (w_calls w) (w_db w) of (a, db) \<Rightarrow> (a, w\<lparr>w_db := db, w_calls := Suc (w_calls w)\<rparr>))"

fun write_result :: "outcome \<Rightarrow> unit result" where
  "write_result Done = Inr ()"
| "write_result (Refused e) = Inl e"
| "write_result (Lost e) = Inl e"

definition WriteMessages :: "Env \<Rightarrow> KafkaMessage \<Rightarrow> World \<Rightarrow> unit result \<times> World" where
  "WriteMessages en m w =
     (let out = en_write en (w_calls w) in
      (write_result out,
       w\<lparr>w_kafka := w_kafka w @ (case out of Refused _ \<Rightarrow> [] | _ \<Rightarrow> [m]), w_calls := Suc (w_calls w)\<rparr>))"

definition pg_ops :: "Env \<Rightarrow> World relay_ops" where
  "pg_ops en =
     \<lparr>op_fetch = (\<lambda>limit. on_db (\<lambda>n. FetchPendingOutboxMessages (en_link en n) (en_now en n) (en_locked en n)
          (en_rank en n) limit)),
      op_sent = (\<lambda>mid. on_db (\<lambda>n. MarkOutboxMessageSent (en_link en n) (en_now en n) mid)),
      op_failed = (\<lambda>mid err k. on_db (\<lambda>n. MarkOutboxMessageFailed (en_link en n) (en_now en n) mid err k)),
      op_write = WriteMessages en\<rparr>"

section \<open>What the relay relies on, and what it guarantees\<close>

text \<open>
  \<open>content s\<close> is the identity of every stored message and what it holds, \<open>sent s\<close> the ids
  marked sent, \<open>log s\<close> what the broker has, \<open>live s\<close> the messages that may still be fetched,
  each with the number of times it has failed. \<open>inv\<close> is the store's own invariant.
\<close>

locale outbox_store =
  fixes ops :: "'s relay_ops" and inv :: "'s \<Rightarrow> bool"
    and content :: "'s \<Rightarrow> (int \<times> KafkaMessage) set" and sent :: "'s \<Rightarrow> int set"
    and log :: "'s \<Rightarrow> KafkaMessage list"
    and live :: "'s \<Rightarrow> (int \<times> int) set"
  assumes unique: "inv s \<Longrightarrow> single_valued (content s)"
    and fetch: "op_fetch ops k s = (r, s') \<Longrightarrow> inv s \<Longrightarrow>
        inv s' \<and> content s' = content s \<and> sent s' \<subseteq> sent s \<and> log s' = log s \<and> live s' \<subseteq> live s"
    and fetched: "op_fetch ops k s = (Inr ms, s') \<Longrightarrow> inv s \<Longrightarrow> m \<in> set ms \<Longrightarrow>
        (msg_ID m, kafkaMessage m) \<in> content s"
    and mark_sent: "op_sent ops i s = (u, s') \<Longrightarrow> inv s \<Longrightarrow>
        inv s' \<and> content s' = content s \<and> sent s' \<subseteq> insert i (sent s) \<and> log s' = log s \<and> live s' \<subseteq> live s"
    and mark_failed: "op_failed ops i err k s = (u, s') \<Longrightarrow> inv s \<Longrightarrow>
        inv s' \<and> content s' = content s \<and> sent s' \<subseteq> sent s \<and> log s' = log s \<and>
        live s' \<subseteq> live s \<union> {p. snd p < k}"
    and written: "op_write ops km s = (u, s') \<Longrightarrow> inv s \<Longrightarrow>
        inv s' \<and> content s' = content s \<and> sent s' = sent s \<and> live s' = live s \<and>
        set (log s) \<subseteq> set (log s') \<and> (isOk u \<longrightarrow> km \<in> set (log s'))"
begin

text \<open>Every message marked sent is in the broker's log; a message that may be fetched again has
  failed fewer times than allowed.\<close>

definition relay_ok :: "Relay \<Rightarrow> 's \<Rightarrow> bool" where
  "relay_ok rl s \<longleftrightarrow> inv s \<and>
     (\<forall>i m. i \<in> sent s \<longrightarrow> (i, m) \<in> content s \<longrightarrow> m \<in> set (log s)) \<and>
     (\<forall>p \<in> live s. snd p < maxRetries rl)"

lemma relay_message_ok:
  assumes ok: "relay_ok rl s" and m: "(msg_ID m, kafkaMessage m) \<in> content s"
  shows "relay_ok rl (relay_message ops rl s m)" "content (relay_message ops rl s m) = content s"
proof -
  obtain r1 s1 where w: "op_write ops (kafkaMessage m) s = (r1, s1)" by force
  from ok have "inv s" by (simp add: relay_ok_def)
  note w' = written [OF w this]
  have "relay_ok rl (relay_message ops rl s m) \<and> content (relay_message ops rl s m) = content s"
  proof (cases r1)
    case (Inl e)
    obtain r2 s2 where f: "op_failed ops (msg_ID m) (err_message e) (maxRetries rl) s1 = (r2, s2)" by force
    from mark_failed [OF f] w' ok show ?thesis
      by (simp add: relay_message_def w f Inl relay_ok_def) blast
  next
    case (Inr u)
    obtain r2 s2 where f: "op_sent ops (msg_ID m) s1 = (r2, s2)" by force
    from unique [OF \<open>inv s\<close>] m have "m' = kafkaMessage m" if "(msg_ID m, m') \<in> content s" for m'
      using that by (blast dest: single_valuedD)
    with mark_sent [OF f] w' ok show ?thesis
      by (simp add: relay_message_def w f Inr relay_ok_def) blast
  qed
  then show "relay_ok rl (relay_message ops rl s m)" "content (relay_message ops rl s m) = content s"
    by simp_all
qed

lemma relay_messages_ok:
  assumes "relay_ok rl s" and "\<forall>m \<in> set ms. (msg_ID m, kafkaMessage m) \<in> content s"
  shows "relay_ok rl (foldl (relay_message ops rl) s ms)"
  using assms
proof (induction ms arbitrary: s)
  case (Cons m ms)
  with relay_message_ok [of rl s m] show ?case by simp
qed simp

lemma flush_ok:
  assumes ok: "relay_ok rl s"
  shows "relay_ok rl (flush ops rl s)"
proof -
  obtain r s1 where f: "op_fetch ops (batchSize rl) s = (r, s1)" by force
  from ok have "inv s" by (simp add: relay_ok_def)
  note f' = fetch [OF f this]
  with ok have s1: "relay_ok rl s1" by (auto simp: relay_ok_def subset_iff)
  show ?thesis
  proof (cases r)
    case (Inr ms)
    with f f' fetched [of "batchSize rl" s ms s1] \<open>inv s\<close>
    have "\<forall>m \<in> set ms. (msg_ID m, kafkaMessage m) \<in> content s1" by auto
    with s1 Inr f show ?thesis by (simp add: flush_def relay_messages_ok)
  qed (use f s1 in \<open>simp add: flush_def\<close>)
qed

theorem Run_ok: "relay_ok rl s \<Longrightarrow> relay_ok rl (Run ops rl evs s)"
proof (induction evs arbitrary: s)
  case (Cons ev evs)
  then show ?case by (cases ev) (simp_all add: flush_ok)
qed simp

end

section \<open>The SQL store is such a store\<close>

definition outbox_ids_ok :: "DB \<Rightarrow> bool" where
  "outbox_ids_ok db \<longleftrightarrow> distinct (map ob_id (db_outbox db)) \<and> (\<forall>r \<in> set (db_outbox db). ob_id r < db_outbox_seq db)"

definition row_content :: "OutboxRow \<Rightarrow> int \<times> KafkaMessage" where
  "row_content r = (ob_id r, kafkaMessage (message_of r))"

definition row_live :: "OutboxRow \<Rightarrow> bool" where
  "row_live r \<longleftrightarrow> ob_status r = OutboxStatusPending \<or> ob_status r = OutboxStatusProcessing"

definition db_content :: "DB \<Rightarrow> (int \<times> KafkaMessage) set" where
  "db_content db = row_content ` set (db_outbox db)"

definition db_sent :: "DB \<Rightarrow> int set" where
  "db_sent db = ob_id ` {r \<in> set (db_outbox db). ob_status r = OutboxStatusSent}"

definition db_live :: "DB \<Rightarrow> (int \<times> int) set" where
  "db_live db = (\<lambda>r. (ob_id r, ob_retry_count r)) ` {r \<in> set (db_outbox db). row_live r}"

lemma ids_unique:
  "outbox_ids_ok db \<Longrightarrow> r \<in> set (db_outbox db) \<Longrightarrow> r' \<in> set (db_outbox db) \<Longrightarrow> ob_id r = ob_id r' \<Longrightarrow> r = r'"
  unfolding outbox_ids_ok_def by (metis distinct_map inj_onD)

lemma content_unique: "outbox_ids_ok db \<Longrightarrow> single_valued (db_content db)"
  by (rule single_valuedI) (auto simp: db_content_def row_content_def dest: ids_unique)

text \<open>An update of the rows that keeps ids and contents.\<close>

definition keeps_content :: "(OutboxRow \<Rightarrow> OutboxRow) \<Rightarrow> bool" where
  "keeps_content f \<longleftrightarrow> (\<forall>r. row_content (f r) = row_content r)"

lemma keeps_content_id: "keeps_content f \<Longrightarrow> ob_id (f r) = ob_id r"
  by (metis keeps_content_def row_content_def fst_conv)

lemma map_rows:
  assumes "keeps_content f"
  shows "outbox_ids_ok (db\<lparr>db_outbox := map f (db_outbox db)\<rparr>) = outbox_ids_ok db" (is ?A)
    and "db_content (db\<lparr>db_outbox := map f (db_outbox db)\<rparr>) = db_content db" (is ?B)
proof -
  have "ob_id \<circ> f = ob_id"
    using assms by (simp add: fun_eq_iff keeps_content_id)
  moreover have "row_content ` f ` X = row_content ` X" for X
    using assms by (simp add: keeps_content_def image_image)
  ultimately show ?A ?B
    using assms by (simp_all add: outbox_ids_ok_def db_content_def keeps_content_id)
qed

lemma keeps_content_ops [simp]:
  "keeps_content (claim now ids)"
  "keeps_content (\<lambda>r. if ob_id r = i then r\<lparr>ob_status := st, ob_last_error := le, ob_updated_at := now\<rparr> else r)"
  "keeps_content (\<lambda>r. if ob_id r = i then markFailed_row now err k r else r)"
  by (simp_all add: keeps_content_def row_content_def kafkaMessage_def message_of_def claim_def markFailed_row_def)

lemma picked_subset:
  "r \<in> set (outbox_picked now locked n rows) \<Longrightarrow> r \<in> set rows \<and> outbox_due now r \<and> ob_id r \<notin> locked"
  unfolding outbox_picked_def by (drule in_set_takeD) auto

lemma due_live: "outbox_due now r \<Longrightarrow> row_live r"
  by (auto simp: outbox_due_def row_live_def)

lemma rollback_outbox [simp]: "rollback db (db\<lparr>db_outbox := x\<rparr>) = db"
  by (simp add: rollback_def)

lemma exec_on_row: "exec lk (on_row i f) db = (r, db') \<Longrightarrow> db' = db \<or> db' = on_row i f db"
  by (rule exec_cases [of lk "on_row i f" db]) (auto simp: on_row_def)

lemma Fetch_cases:
  assumes "FetchPendingOutboxMessages lk now locked rank limit db = (r, db')"
  obtains (unchanged) "db' = db" "\<forall>ms. r = Inr ms \<longrightarrow> ms = []"
  | (claimed) "db' = snd (fetchPendingOutboxMessages_stmt now locked rank limit db)"
    "\<forall>ms. r = Inr ms \<longrightarrow> r = fst (fetchPendingOutboxMessages_stmt now locked rank limit db)"
  using assms
  by (cases "limit \<le> 0"; cases "lk_acquire lk"; cases "lk_end lk")
    (auto simp: FetchPendingOutboxMessages_def query_def fetchPendingOutboxMessages_stmt_def Let_def)

definition claimed_ids :: "int \<Rightarrow> int set \<Rightarrow> int \<Rightarrow> DB \<Rightarrow> int set" where
  "claimed_ids now locked limit db = ob_id ` set (outbox_picked now locked (nat limit) (db_outbox db))"

lemma fetch_stmt_eq:
  "fetchPendingOutboxMessages_stmt now locked rank limit db =
     (let ids = claimed_ids now locked limit db in
      (Inr (map message_of (sort_key (\<lambda>r. rank (ob_id r))
          (filter (\<lambda>r. ob_id r \<in> ids) (map (claim now ids) (db_outbox db))))),
       db\<lparr>db_outbox := map (claim now ids) (db_outbox db)\<rparr>))"
  by (simp add: fetchPendingOutboxMessages_stmt_def claimed_ids_def Let_def)

lemma claimed_live:
  assumes "outbox_ids_ok db" and "r \<in> set (db_outbox db)" and "ob_id r \<in> claimed_ids now locked limit db"
  shows "outbox_due now r" "ob_id r \<notin> locked"
proof -
  from assms(3) obtain r' where r': "r' \<in> set (outbox_picked now locked (nat limit) (db_outbox db))" "ob_id r = ob_id r'"
    by (auto simp: claimed_ids_def)
  with picked_subset [OF r'(1)] ids_unique [OF assms(1,2)] have "r' = r" by metis
  with picked_subset [OF r'(1)] show "outbox_due now r" "ob_id r \<notin> locked" by simp_all
qed

lemma message_claim [simp]: "message_of (claim now ids r) = message_of r"
  by (simp add: message_of_def claim_def)

lemma fetch_stmt_store:
  assumes "outbox_ids_ok db" and "snd (fetchPendingOutboxMessages_stmt now locked rank limit db) = db'"
  shows "outbox_ids_ok db'" "db_content db' = db_content db" "db_sent db' \<subseteq> db_sent db" "db_live db' \<subseteq> db_live db"
proof -
  let ?ids = "claimed_ids now locked limit db"
  have db': "db' = db\<lparr>db_outbox := map (claim now ?ids) (db_outbox db)\<rparr>"
    using assms(2) by (simp add: fetch_stmt_eq Let_def)
  show "outbox_ids_ok db'" "db_content db' = db_content db"
    using assms by (simp_all add: db' map_rows)
  show "db_sent db' \<subseteq> db_sent db"
    by (auto simp: db' db_sent_def claim_def split: if_splits)
  show "db_live db' \<subseteq> db_live db"
  proof
    fix p assume "p \<in> db_live db'"
    then obtain r where r: "r \<in> set (db_outbox db)" "row_live (claim now ?ids r)"
      "p = (ob_id r, ob_retry_count r)"
      by (auto simp: db' db_live_def claim_def split: if_splits)
    have "row_live r"
      using r(2) claimed_live(1) [OF assms(1) r(1), THEN due_live, of now locked limit]
      by (auto simp: claim_def split: if_splits)
    with r show "p \<in> db_live db" by (auto simp: db_live_def)
  qed
qed

lemma fetch_stmt_messages:
  assumes "fst (fetchPendingOutboxMessages_stmt now locked rank limit db) = Inr ms" and "m \<in> set ms"
  shows "(msg_ID m, kafkaMessage m) \<in> db_content db"
proof -
  from assms obtain r where "r \<in> set (db_outbox db)" "m = message_of r"
    by (auto simp: fetch_stmt_eq Let_def)
  then show ?thesis by (auto simp: db_content_def row_content_def message_of_def)
qed

lemma on_row_sent:
  "db_sent (on_row i (\<lambda>r. r\<lparr>ob_status := OutboxStatusSent, ob_last_error := le, ob_updated_at := now\<rparr>) db)
     \<subseteq> insert i (db_sent db)"
  "db_live (on_row i (\<lambda>r. r\<lparr>ob_status := OutboxStatusSent, ob_last_error := le, ob_updated_at := now\<rparr>) db)
     \<subseteq> db_live db"
  by (auto simp: on_row_def db_sent_def db_live_def row_live_def split: if_splits)

lemma on_row_failed:
  "db_sent (on_row i (markFailed_row now err k) db) \<subseteq> db_sent db"
  "db_live (on_row i (markFailed_row now err k) db) \<subseteq> db_live db \<union> {p. snd p < k}"
  by (auto simp: on_row_def db_sent_def db_live_def row_live_def markFailed_row_def split: if_splits)

lemma write_result_ok: "isOk (write_result out) \<Longrightarrow> out = Done"
  by (cases out) auto

interpretation pg: outbox_store "pg_ops en" "\<lambda>w. outbox_ids_ok (w_db w)" "\<lambda>w. db_content (w_db w)"
  "\<lambda>w. db_sent (w_db w)" w_kafka "\<lambda>w. db_live (w_db w)" for en
proof unfold_locales
  fix s :: World
  show "outbox_ids_ok (w_db s) \<Longrightarrow> single_valued (db_content (w_db s))" by (rule content_unique)
next
  fix k s r s'
  assume *: "op_fetch (pg_ops en) k s = (r, s')" and inv: "outbox_ids_ok (w_db s)"
  then obtain db' where f: "FetchPendingOutboxMessages (en_link en (w_calls s)) (en_now en (w_calls s))
      (en_locked en (w_calls s)) (en_rank en (w_calls s)) k (w_db s) = (r, db')"
    and s': "s' = s\<lparr>w_db := db', w_calls := Suc (w_calls s)\<rparr>"
    by (auto simp: pg_ops_def on_db_def split: prod.splits)
  show "outbox_ids_ok (w_db s') \<and> db_content (w_db s') = db_content (w_db s) \<and>
      db_sent (w_db s') \<subseteq> db_sent (w_db s) \<and> w_kafka s' = w_kafka s \<and> db_live (w_db s') \<subseteq> db_live (w_db s)"
    using f
  proof (cases rule: Fetch_cases)
    case claimed
    with fetch_stmt_store [OF inv claimed(1) [symmetric]] show ?thesis by (simp add: s')
  qed (simp add: s' inv)
next
  fix k s ms s' m
  assume *: "op_fetch (pg_ops en) k s = (Inr ms, s')" and m: "m \<in> set ms"
  then obtain db' where f: "FetchPendingOutboxMessages (en_link en (w_calls s)) (en_now en (w_calls s))
      (en_locked en (w_calls s)) (en_rank en (w_calls s)) k (w_db s) = (Inr ms, db')"
    by (auto simp: pg_ops_def on_db_def split: prod.splits)
  then show "(msg_ID m, kafkaMessage m) \<in> db_content (w_db s)"
  proof (cases rule: Fetch_cases)
    case claimed
    then show ?thesis using m by (intro fetch_stmt_messages) (auto dest: sym)
  qed (use m in simp)
next
  fix i s u s'
  assume *: "op_sent (pg_ops en) i s = (u, s')" and inv: "outbox_ids_ok (w_db s)"
  then obtain db' where f: "MarkOutboxMessageSent (en_link en (w_calls s)) (en_now en (w_calls s)) i (w_db s) = (u, db')"
    and s': "s' = s\<lparr>w_db := db', w_calls := Suc (w_calls s)\<rparr>"
    by (auto simp: pg_ops_def on_db_def split: prod.splits)
  from exec_on_row [OF f [unfolded MarkOutboxMessageSent_def]] inv
  show "outbox_ids_ok (w_db s') \<and> db_content (w_db s') = db_content (w_db s) \<and>
      db_sent (w_db s') \<subseteq> insert i (db_sent (w_db s)) \<and> w_kafka s' = w_kafka s \<and> db_live (w_db s') \<subseteq> db_live (w_db s)"
    by (elim disjE) (simp_all add: s' on_row_sent, auto simp: on_row_def map_rows)
next
  fix i err k s u s'
  assume *: "op_failed (pg_ops en) i err k s = (u, s')" and inv: "outbox_ids_ok (w_db s)"
  then obtain db' where f: "MarkOutboxMessageFailed (en_link en (w_calls s)) (en_now en (w_calls s)) i err k (w_db s) = (u, db')"
    and s': "s' = s\<lparr>w_db := db', w_calls := Suc (w_calls s)\<rparr>"
    by (auto simp: pg_ops_def on_db_def split: prod.splits)
  from exec_on_row [OF f [unfolded MarkOutboxMessageFailed_def]] inv
  show "outbox_ids_ok (w_db s') \<and> db_content (w_db s') = db_content (w_db s) \<and>
      db_sent (w_db s') \<subseteq> db_sent (w_db s) \<and> w_kafka s' = w_kafka s \<and>
      db_live (w_db s') \<subseteq> db_live (w_db s) \<union> {p. snd p < k}"
    by (elim disjE) (simp_all add: s' on_row_failed, auto simp: on_row_def map_rows)
next
  fix km s u s'
  assume *: "op_write (pg_ops en) km s = (u, s')" and inv: "outbox_ids_ok (w_db s)"
  then show "outbox_ids_ok (w_db s') \<and> db_content (w_db s') = db_content (w_db s) \<and>
      db_sent (w_db s') = db_sent (w_db s) \<and> db_live (w_db s') = db_live (w_db s) \<and>
      set (w_kafka s) \<subseteq> set (w_kafka s') \<and> (isOk u \<longrightarrow> km \<in> set (w_kafka s'))"
    by (auto simp: pg_ops_def WriteMessages_def Let_def dest!: write_result_ok)
qed

section \<open>Fetching\<close>

lemma sort_take_oldest:
  assumes "x \<in> set (take n (sort_key k xs))" and "y \<in> set xs" and "y \<notin> set (take n (sort_key k xs))"
  shows "k x \<le> (k y :: int)"
proof -
  let ?s = "sort_key k xs"
  have "y \<in> set (drop n ?s)"
    using assms(2,3) by (metis Un_iff append_take_drop_id set_append set_sort)
  then obtain j where "j < length (drop n ?s)" "drop n ?s ! j = y"
    by (auto simp: in_set_conv_nth)
  then have j: "n + j < length ?s" "?s ! (n + j) = y" by auto
  from assms(1) obtain i where i: "i < n" "i < length ?s" "?s ! i = x"
    by (auto simp: in_set_conv_nth)
  have "map k ?s ! i \<le> map k ?s ! (n + j)"
    using i j by (intro sorted_nth_mono) auto
  with i j show ?thesis by simp
qed

lemma fetch_stmt_ids:
  assumes "outbox_ids_ok db"
  shows "filter (\<lambda>r. ob_id r \<in> claimed_ids now locked limit db) (db_outbox db)
    = filter (\<lambda>r. r \<in> set (outbox_picked now locked (nat limit) (db_outbox db))) (db_outbox db)"
proof (rule filter_cong)
  fix r assume r: "r \<in> set (db_outbox db)"
  show "ob_id r \<in> claimed_ids now locked limit db \<longleftrightarrow> r \<in> set (outbox_picked now locked (nat limit) (db_outbox db))"
    unfolding claimed_ids_def
    using ids_unique [OF assms r] picked_subset by (auto simp: image_iff) metis
qed simp

lemma picked_distinct: "outbox_ids_ok db \<Longrightarrow> distinct (outbox_picked now locked n (db_outbox db))"
  by (auto simp: outbox_picked_def outbox_ids_ok_def distinct_map intro: distinct_take)

lemma picked_length: "length (outbox_picked now locked n rows) \<le> n"
  by (simp add: outbox_picked_def)

text \<open>The rows a fetch claims, as they were before it.\<close>

definition claimed_rows :: "int \<Rightarrow> int set \<Rightarrow> int \<Rightarrow> DB \<Rightarrow> OutboxRow list" where
  "claimed_rows now locked limit db =
     filter (\<lambda>r. ob_id r \<in> claimed_ids now locked limit db) (db_outbox db)"

lemma mset_claimed_rows:
  assumes "outbox_ids_ok db"
  shows "mset (claimed_rows now locked limit db) = mset (outbox_picked now locked (nat limit) (db_outbox db))"
proof -
  let ?p = "outbox_picked now locked (nat limit) (db_outbox db)"
  have "distinct (db_outbox db)" using assms by (simp add: outbox_ids_ok_def distinct_map)
  moreover have "set (filter (\<lambda>r. r \<in> set ?p) (db_outbox db)) = set ?p"
    using picked_subset by auto
  ultimately have "mset (filter (\<lambda>r. r \<in> set ?p) (db_outbox db)) = mset ?p"
    using set_eq_iff_mset_eq_distinct [of "filter (\<lambda>r. r \<in> set ?p) (db_outbox db)" ?p]
      picked_distinct [OF assms] by simp
  then show ?thesis by (simp add: claimed_rows_def fetch_stmt_ids [OF assms])
qed

lemma message_claim_map: "mset (map message_of (sort_key f (map (claim now ids) rows))) = mset (map message_of rows)"
  by (simp add: multiset.map_comp comp_def)

lemma fetched_messages:
  "fst (fetchPendingOutboxMessages_stmt now locked rank limit db) =
   Inr (map message_of (sort_key (\<lambda>r. rank (ob_id r)) (map (claim now (claimed_ids now locked limit db))
     (claimed_rows now locked limit db))))"
  by (simp add: fetch_stmt_eq Let_def claimed_rows_def filter_map comp_def claim_def if_distrib cong: if_cong)


text \<open>
  A successful fetch returns at most \<open>limit\<close> messages, exactly the rows it claims, each of
  them due and not locked by another transaction; no due and unlocked row that it leaves behind
  is older than one it takes, and it leaves none behind unless it took \<open>limit\<close> rows.
\<close>

lemma Fetch_oldest_first:
  assumes "outbox_ids_ok db" and "0 < limit" and "lk_acquire lk = None" and "lk_end lk = Done"
  shows "case FetchPendingOutboxMessages lk now locked rank limit db of
      (Inl _, _) \<Rightarrow> False
    | (Inr ms, db') \<Rightarrow>
        length ms \<le> nat limit \<and>
        mset ms = mset (map message_of (claimed_rows now locked limit db)) \<and>
        (\<forall>r \<in> set (claimed_rows now locked limit db). outbox_due now r \<and> ob_id r \<notin> locked) \<and>
        (\<forall>r \<in> set (db_outbox db). outbox_due now r \<longrightarrow> ob_id r \<notin> locked \<longrightarrow>
           r \<notin> set (claimed_rows now locked limit db) \<longrightarrow>
           length ms = nat limit \<and> (\<forall>p \<in> set (claimed_rows now locked limit db). ob_created_at p \<le> ob_created_at r))"
proof -
  let ?rows = "claimed_rows now locked limit db" and ?n = "nat limit"
  let ?cand = "filter (\<lambda>r. outbox_due now r \<and> ob_id r \<notin> locked) (db_outbox db)"
  let ?p = "outbox_picked now locked ?n (db_outbox db)"
  obtain db' where f: "FetchPendingOutboxMessages lk now locked rank limit db =
      (fst (fetchPendingOutboxMessages_stmt now locked rank limit db), db')"
    using assms by (cases "fetchPendingOutboxMessages_stmt now locked rank limit db")
      (simp add: FetchPendingOutboxMessages_def query_def)
  define ms where "ms = map message_of (sort_key (\<lambda>r. rank (ob_id r))
    (map (claim now (claimed_ids now locked limit db)) ?rows))"
  have ms: "fst (fetchPendingOutboxMessages_stmt now locked rank limit db) = Inr ms"
    "mset ms = mset (map message_of ?rows)"
    unfolding ms_def by (rule fetched_messages, rule message_claim_map)
  have set: "set ?rows = set ?p" and len: "length ms = length ?p"
    using mset_claimed_rows [OF assms(1)] ms(2)
    by (metis set_mset_mset, metis length_map size_mset)
  have "length ?p = ?n" if "r \<in> set ?cand" "r \<notin> set ?p" for r
  proof -
    have "length (sort_key ob_created_at ?cand) > ?n"
      using that unfolding outbox_picked_def by (metis linorder_not_less set_sort take_all)
    then show ?thesis by (simp add: outbox_picked_def)
  qed
  moreover have "ob_created_at p \<le> ob_created_at r" if "p \<in> set ?p" "r \<in> set ?cand" "r \<notin> set ?p" for p r
    using that unfolding outbox_picked_def by (rule sort_take_oldest)
  ultimately show ?thesis
    using picked_length [of now locked ?n "db_outbox db"] picked_subset len ms f set by auto
qed


text \<open>Two pending messages, the second one older than the first.\<close>

definition sample_event :: outboxEvent where
  "sample_event = \<lparr>ev_Topic = ''topic'', ev_Key = ''key'', ev_Body = ''body'', ev_CreatedAt = 1\<rparr>"

definition sample_outbox :: DB where
  "sample_outbox = saveOutboxMessage sample_event (saveOutboxMessage (sample_event\<lparr>ev_CreatedAt := 2\<rparr>) empty_db)"

lemma sample_outbox_rows:
  "db_outbox sample_outbox =
    [\<lparr>ob_id = 1, ob_topic = ''topic'', ob_event_key = ''key'', ob_event_body = ''body'', ob_status = OutboxStatusPending,
      ob_retry_count = 0, ob_last_error = [], ob_created_at = 2, ob_updated_at = 2\<rparr>,
     \<lparr>ob_id = 2, ob_topic = ''topic'', ob_event_key = ''key'', ob_event_body = ''body'', ob_status = OutboxStatusPending,
      ob_retry_count = 0, ob_last_error = [], ob_created_at = 1, ob_updated_at = 1\<rparr>]"
  "outbox_ids_ok sample_outbox"
  by (simp_all add: sample_outbox_def sample_event_def saveOutboxMessage_def empty_db_def outbox_ids_ok_def)

text \<open>
  What any relay and any saver may do to the outbox, in any order: each call is one statement, or the
  insertion of an event by a transaction that is committed or not.
\<close>

datatype outbox_call =
    CallFetch Link int "int set" "int \<Rightarrow> nat" int
  | CallMarkSent Link int int
  | CallMarkFailed Link int int string int
  | CallEnqueue outboxEvent bool

fun run_call :: "outbox_call \<Rightarrow> DB \<Rightarrow> OutboxMessage list \<times> DB" where
  "run_call (CallFetch lk now locked rank limit) db =
     (case FetchPendingOutboxMessages lk now locked rank limit db of (Inl _, db) \<Rightarrow> ([], db) | (Inr ms, db) \<Rightarrow> (ms, db))"
| "run_call (CallMarkSent lk now mid) db = ([], snd (MarkOutboxMessageSent lk now mid db))"
| "run_call (CallMarkFailed lk now mid err maxTries) db = ([], snd (MarkOutboxMessageFailed lk now mid err maxTries db))"
| "run_call (CallEnqueue event committed) db =
     ([], if committed then saveOutboxMessage event db else rollback db (saveOutboxMessage event db))"

text \<open>The messages all calls return together.\<close>

fun outbox_calls :: "outbox_call list \<Rightarrow> DB \<Rightarrow> OutboxMessage list" where
  "outbox_calls [] db = []"
| "outbox_calls (call # calls) db = (case run_call call db of (ms, db) \<Rightarrow> ms @ outbox_calls calls db)"

definition fetches_before :: "int \<Rightarrow> outbox_call \<Rightarrow> bool" where
  "fetches_before t call \<longleftrightarrow> (case call of CallFetch _ now _ _ _ \<Rightarrow> now \<le> t | _ \<Rightarrow> True)"

definition fails_one_of :: "int set \<Rightarrow> outbox_call \<Rightarrow> bool" where
  "fails_one_of ids call \<longleftrightarrow> (case call of CallMarkFailed _ _ mid _ _ \<Rightarrow> mid \<in> ids | _ \<Rightarrow> False)"

text \<open>A row that is claimed since \<open>t\<close> or sent.\<close>

definition held :: "int \<Rightarrow> int \<Rightarrow> DB \<Rightarrow> bool" where
  "held i t db \<longleftrightarrow> i < db_outbox_seq db \<and> (\<forall>r \<in> set (db_outbox db). ob_id r = i \<longrightarrow>
     ob_status r = OutboxStatusSent \<or> (ob_status r = OutboxStatusProcessing \<and> t \<le> ob_updated_at r))"

lemma held_exec: "held i t db \<Longrightarrow> held i t (f db) \<Longrightarrow> held i t (snd (exec lk f db))"
  by (rule exec_cases [of lk f db]) (auto simp: held_def rollback_def)

lemma held_fetch:
  assumes held: "held i t db" and "now \<le> t + minute" and fetch: "FetchPendingOutboxMessages lk now locked rank limit db = (r, db')"
  shows "held i t db'" and "r = Inr ms \<Longrightarrow> i \<notin> msg_ID ` set ms"
proof -
  have free: "i \<notin> claimed_ids now locked limit db"
  proof
    assume "i \<in> claimed_ids now locked limit db"
    then obtain r0 where "r0 \<in> set (outbox_picked now locked (nat limit) (db_outbox db))" "ob_id r0 = i"
      by (auto simp: claimed_ids_def)
    with picked_subset [OF this(1)] held assms(2) show False by (auto simp: held_def outbox_due_def)
  qed
  from fetch show "held i t db'"
  proof (cases rule: Fetch_cases)
    case claimed
    with held free show ?thesis by (auto simp: held_def fetch_stmt_eq Let_def claim_def)
  qed (use held in simp)
  from fetch show "i \<notin> msg_ID ` set ms" if "r = Inr ms"
  proof (cases rule: Fetch_cases)
    case claimed
    with that free show ?thesis by (auto simp: fetched_messages claimed_rows_def message_of_def claim_def)
  qed (use that in simp)
qed

lemma held_call:
  assumes held: "held i t db" and call: "fetches_before (t + minute) call" "\<not> fails_one_of {i} call" "run_call call db = (ms, db')"
  shows "held i t db'" and "i \<notin> msg_ID ` set ms"
proof -
  have "held i t db' \<and> i \<notin> msg_ID ` set ms"
  proof (cases call)
    case (CallFetch lk now locked rank limit)
    obtain r db1 where f: "FetchPendingOutboxMessages lk now locked rank limit db = (r, db1)" by force
    have "now \<le> t + minute" using call(1) CallFetch by (simp add: fetches_before_def)
    from held_fetch [OF held this f] call(3) CallFetch f show ?thesis by (cases r) auto
  next
    case (CallMarkSent lk now mid)
    let ?f = "on_row mid (\<lambda>r. r\<lparr>ob_status := OutboxStatusSent, ob_last_error := [], ob_updated_at := now\<rparr>)"
    have "held i t (?f db)" using held by (auto simp: held_def on_row_def)
    from held_exec [where f = ?f, OF held this] call(3) CallMarkSent show ?thesis by (auto simp: MarkOutboxMessageSent_def)
  next
    case (CallMarkFailed lk now mid err maxTries)
    then have "mid \<noteq> i" using call(2) by (simp add: fails_one_of_def)
    then have "held i t (on_row mid (markFailed_row now err maxTries) db)"
      using held by (auto simp: held_def on_row_def markFailed_row_def split: if_splits)
    from held_exec [where f = "on_row mid (markFailed_row now err maxTries)", OF held this] call(3) CallMarkFailed show ?thesis by (auto simp: MarkOutboxMessageFailed_def)
  next
    case (CallEnqueue event committed)
    with call(3) held show ?thesis by (auto simp: held_def saveOutboxMessage_def rollback_def split: if_splits)
  qed
  then show "held i t db'" "i \<notin> msg_ID ` set ms" by simp_all
qed

lemma held_calls:
  assumes "held i t db" and "list_all (fetches_before (t + minute)) calls" and "\<not> list_ex (fails_one_of {i}) calls"
  shows "i \<notin> msg_ID ` set (outbox_calls calls db)"
  using assms
proof (induction calls arbitrary: db)
  case (Cons call calls)
  obtain ms db' where c: "run_call call db = (ms, db')" by force
  from held_call [OF Cons.prems(1) _ _ c] Cons.prems(2,3) have "held i t db'" "i \<notin> msg_ID ` set ms" by auto
  with Cons.IH [of db'] Cons.prems(2,3) c show ?case by auto
qed simp

lemma fetched_held:
  assumes ok: "outbox_ids_ok db" and fetch: "FetchPendingOutboxMessages lk now locked rank limit db = (Inr ms, db1)"
    and "i \<in> msg_ID ` set ms"
  shows "held i now db1"
  using fetch
proof (cases rule: Fetch_cases)
  case claimed
  let ?ids = "claimed_ids now locked limit db"
  have db1: "db1 = db\<lparr>db_outbox := map (claim now ?ids) (db_outbox db)\<rparr>"
    using claimed(1) by (simp add: fetch_stmt_eq Let_def)
  obtain r0 where "r0 \<in> set (db_outbox db)" "ob_id r0 = i" "i \<in> ?ids"
    using claimed(2) assms(3) by (auto simp: fetched_messages claimed_rows_def message_of_def claim_def)
  with ok show ?thesis by (auto simp: held_def db1 claim_def outbox_ids_ok_def)
qed (use assms(3) in simp)

text \<open>
  C25. A message that one relay has claimed is not handed out again for a minute, unless its delivery is
  marked as failed in the meantime: whatever fetches, markings and insertions follow, by any relay or
  saver and with any failures of the connections, no fetch within a minute returns it.
\<close>

theorem Fetch_claims_exclusive:
  assumes "outbox_ids_ok db" and "FetchPendingOutboxMessages lk now locked rank limit db = (Inr ms, db1)"
    and "list_all (fetches_before (now + minute)) calls" and "\<not> list_ex (fails_one_of (msg_ID ` set ms)) calls"
  shows "msg_ID ` set ms \<inter> msg_ID ` set (outbox_calls calls db1) = {}"
proof -
  have "\<not> list_ex (fails_one_of {i}) calls" if "i \<in> msg_ID ` set ms" for i
    using assms(4) that by (auto simp: list_ex_iff fails_one_of_def split: outbox_call.splits)
  then show ?thesis using held_calls [OF fetched_held [OF assms(1,2)] assms(3)] by blast
qed

text \<open>The message that was claimed is sent while another relay fetches the one that was left and a third comes in.\<close>

definition first_fetch :: "OutboxMessage list result \<times> DB" where
  "first_fetch = FetchPendingOutboxMessages good_link 5 {} (\<lambda>_. 0) 1 sample_outbox"

definition later_calls :: "outbox_call list" where
  "later_calls = [CallEnqueue sample_event True, CallMarkSent good_link 7 2, CallFetch good_link 9 {} (\<lambda>_. 0) 10]"

lemmas fetch_evals = first_fetch_def FetchPendingOutboxMessages_def fetchPendingOutboxMessages_stmt_def
  outbox_picked_def outbox_due_def claim_def message_of_def Let_def sample_outbox_rows minute_def

theorem Fetch_claims_exclusive_witness:
  "\<exists>m db1. first_fetch = (Inr [m], db1) \<and> msg_ID m \<notin> msg_ID ` set (outbox_calls later_calls db1)"
proof -
  obtain m db1 where first: "first_fetch = (Inr [m], db1)" and m: "msg_ID m = 2" by (auto simp: fetch_evals)
  have "msg_ID ` set [m] \<inter> msg_ID ` set (outbox_calls later_calls db1) = {}"
    by (rule Fetch_claims_exclusive [OF sample_outbox_rows(2) first [unfolded first_fetch_def]])
      (simp_all add: later_calls_def fetches_before_def fails_one_of_def minute_def)
  with first show ?thesis by auto
qed

section \<open>The relay\<close>

definition outbox_ok :: "Relay \<Rightarrow> World \<Rightarrow> bool" where
  "outbox_ok rl w \<longleftrightarrow> outbox_ids_ok (w_db w) \<and>
     list_all (\<lambda>r. ob_status r = OutboxStatusSent \<longrightarrow> kafkaMessage (message_of r) \<in> set (w_kafka w)) (db_outbox (w_db w)) \<and>
     list_all (\<lambda>r. row_live r \<longrightarrow> ob_retry_count r < maxRetries rl) (db_outbox (w_db w))"

lemma outbox_ok_iff: "outbox_ok rl w \<longleftrightarrow> pg.relay_ok rl w"
proof
  show "outbox_ok rl w \<Longrightarrow> pg.relay_ok rl w"
    unfolding outbox_ok_def pg.relay_ok_def list_all_iff
    by (auto simp: db_sent_def db_content_def row_content_def db_live_def dest: ids_unique)
  show "pg.relay_ok rl w \<Longrightarrow> outbox_ok rl w"
    unfolding outbox_ok_def pg.relay_ok_def list_all_iff
    by (auto simp: db_sent_def db_content_def row_content_def db_live_def image_iff)
qed

text \<open>
  C2. However the database and the broker behave and for any run of the relay, a row is only
  ever marked sent when its message is in the broker's log, and a row that may still be fetched
  has failed fewer times than \<open>maxRetries\<close>.
\<close>

theorem Run_outbox_ok: "outbox_ok rl w \<Longrightarrow> outbox_ok rl (Run (pg_ops en) rl evs w)"
  unfolding outbox_ok_iff by (rule pg.Run_ok)


definition sample_world :: World where
  "sample_world = \<lparr>w_db = sample_outbox, w_kafka = [], w_calls = 0\<rparr>"

text \<open>Everything answers, but the broker refuses the first message.\<close>

definition sample_env :: "outcome \<Rightarrow> Env" where
  "sample_env out = \<lparr>en_link = (\<lambda>_. good_link), en_now = (\<lambda>_. 5), en_locked = (\<lambda>_. {}), en_rank = (\<lambda>_ _. 0),
     en_write = (\<lambda>n. if n = 1 then out else Done)\<rparr>"

theorem Run_outbox_ok_witness:
  "outbox_ok (NewRelay 0 0 0) sample_world \<and>
   outbox_ok (NewRelay 0 0 0) (Run (pg_ops (sample_env (Refused (ErrNew ''broker'')))) (NewRelay 0 0 0) [Tick, Tick, CtxDone] sample_world)"
  using Run_outbox_ok [of "NewRelay 0 0 0" sample_world "sample_env (Refused (ErrNew ''broker''))" "[Tick, Tick, CtxDone]"]
  by (simp add: outbox_ok_def sample_world_def sample_outbox_rows NewRelay_def)

definition reliable :: "Env \<Rightarrow> bool" where
  "reliable en \<longleftrightarrow> (\<forall>n. en_link en n = good_link \<and> en_locked en n = {} \<and> en_write en n = Done)"

definition row_status :: "OutboxRow \<Rightarrow> int \<times> string" where
  "row_status r = (ob_id r, ob_status r)"

lemma relay_message_reliable:
  assumes "reliable en"
  shows "w_kafka (relay_message (pg_ops en) rl w m) = w_kafka w @ [kafkaMessage m]"
    "map row_status (db_outbox (w_db (relay_message (pg_ops en) rl w m))) =
     map (\<lambda>r. (ob_id r, if ob_id r = msg_ID m then OutboxStatusSent else ob_status r)) (db_outbox (w_db w))"
  using assms
  by (simp_all add: reliable_def relay_message_def pg_ops_def WriteMessages_def Let_def on_db_def
      MarkOutboxMessageSent_def on_row_def row_status_def)

lemma relay_messages_reliable:
  assumes "reliable en"
  shows "w_kafka (foldl (relay_message (pg_ops en) rl) w ms) = w_kafka w @ map kafkaMessage ms"
    and "map row_status (db_outbox (w_db (foldl (relay_message (pg_ops en) rl) w ms))) =
     map (\<lambda>r. (ob_id r, if ob_id r \<in> msg_ID ` set ms then OutboxStatusSent else ob_status r)) (db_outbox (w_db w))"
proof -
  show "w_kafka (foldl (relay_message (pg_ops en) rl) w ms) = w_kafka w @ map kafkaMessage ms"
    by (induction ms arbitrary: w) (simp_all add: relay_message_reliable [OF assms])
  show "map row_status (db_outbox (w_db (foldl (relay_message (pg_ops en) rl) w ms))) =
     map (\<lambda>r. (ob_id r, if ob_id r \<in> msg_ID ` set ms then OutboxStatusSent else ob_status r)) (db_outbox (w_db w))"
  proof (induction ms arbitrary: w)
    case (Cons m ms)
    let ?w = "relay_message (pg_ops en) rl w m"
    let ?f = "\<lambda>(i, st). (i, if i \<in> msg_ID ` set ms then OutboxStatusSent else st)"
    have "map row_status (db_outbox (w_db (foldl (relay_message (pg_ops en) rl) ?w ms)))
        = map ?f (map row_status (db_outbox (w_db ?w)))"
      by (simp add: Cons.IH row_status_def)
    also have "\<dots> = map (\<lambda>r. (ob_id r, if ob_id r \<in> msg_ID ` set (m # ms) then OutboxStatusSent else ob_status r))
        (db_outbox (w_db w))"
      unfolding relay_message_reliable [OF assms] by auto
    finally show ?case by simp
  qed (simp add: row_status_def)
qed

lemma claimed_rows_all:
  assumes "outbox_ids_ok db" and "length (filter (outbox_due now) (db_outbox db)) \<le> nat limit"
  shows "claimed_rows now {} limit db = filter (outbox_due now) (db_outbox db)"
proof -
  have "set (outbox_picked now {} (nat limit) (db_outbox db)) = set (filter (outbox_due now) (db_outbox db))"
    using assms(2) by (simp add: outbox_picked_def)
  then show ?thesis
    unfolding claimed_rows_def fetch_stmt_ids [OF assms(1)] by (auto intro: filter_cong)
qed

lemma ob_id_claim [simp]: "ob_id (claim now ids r) = ob_id r"
  by (simp add: claim_def)

text \<open>
  One flush when the database and the broker answer: the claimed rows are sent and written to the broker,
  no other row changes.
\<close>

lemma flush_reliable:
  assumes rel: "reliable en" and "0 < batchSize rl"
    and ids: "ids = claimed_ids (en_now en (w_calls w)) {} (batchSize rl) (w_db w)"
  shows flush_statuses: "map row_status (db_outbox (w_db (flush (pg_ops en) rl w))) =
      map (\<lambda>r. (ob_id r, if ob_id r \<in> ids then OutboxStatusSent else ob_status r)) (db_outbox (w_db w))"
    and flush_log: "mset (w_kafka (flush (pg_ops en) rl w)) = mset (w_kafka w) +
      mset (map (kafkaMessage \<circ> message_of) (claimed_rows (en_now en (w_calls w)) {} (batchSize rl) (w_db w)))"
proof -
  let ?now = "en_now en (w_calls w)" and ?db = "w_db w"
  let ?stmt = "fetchPendingOutboxMessages_stmt ?now {} (en_rank en (w_calls w)) (batchSize rl) ?db"
  define ms where "ms = map message_of (sort_key (\<lambda>r. en_rank en (w_calls w) (ob_id r))
    (map (claim ?now ids) (claimed_rows ?now {} (batchSize rl) ?db)))"
  have ms: "fst ?stmt = Inr ms" unfolding ms_def ids by (rule fetched_messages)
  have mset_ms: "mset ms = mset (map message_of (claimed_rows ?now {} (batchSize rl) ?db))"
    unfolding ms_def by (rule message_claim_map)
  define w1 where "w1 = w\<lparr>w_db := snd ?stmt, w_calls := Suc (w_calls w)\<rparr>"
  have fl: "flush (pg_ops en) rl w = foldl (relay_message (pg_ops en) rl) w1 ms"
    using rel ms \<open>0 < batchSize rl\<close>
    by (cases ?stmt) (simp add: flush_def pg_ops_def on_db_def FetchPendingOutboxMessages_def reliable_def w1_def)
  have "msg_ID ` set ms = ob_id ` set (claimed_rows ?now {} (batchSize rl) ?db)"
    by (simp add: ms_def image_image message_of_def)
  then have sent: "ob_id r \<in> msg_ID ` set ms \<longleftrightarrow> ob_id r \<in> ids" if "r \<in> set (db_outbox ?db)" for r
    using that by (auto simp: claimed_rows_def ids)
  show "map row_status (db_outbox (w_db (flush (pg_ops en) rl w))) =
      map (\<lambda>r. (ob_id r, if ob_id r \<in> ids then OutboxStatusSent else ob_status r)) (db_outbox (w_db w))"
    unfolding fl relay_messages_reliable [OF rel] using sent
    by (auto simp: w1_def fetch_stmt_eq Let_def claim_def ids)
  show "mset (w_kafka (flush (pg_ops en) rl w)) = mset (w_kafka w) +
      mset (map (kafkaMessage \<circ> message_of) (claimed_rows ?now {} (batchSize rl) ?db))"
    unfolding fl relay_messages_reliable [OF rel] using mset_ms by (simp add: w1_def multiset.map_comp)
qed

text \<open>
  Delivery: when the database and the broker answer and the batch has room, one flush marks
  exactly the due rows as sent and writes each of their messages to the broker once.
\<close>

lemma flush_delivers:
  assumes rel: "reliable en" and ok: "outbox_ids_ok (w_db w)" and "0 < batchSize rl"
    and room: "length (filter (outbox_due (en_now en (w_calls w))) (db_outbox (w_db w))) \<le> nat (batchSize rl)"
  shows "map row_status (db_outbox (w_db (flush (pg_ops en) rl w))) =
      map (\<lambda>r. (ob_id r, if outbox_due (en_now en (w_calls w)) r then OutboxStatusSent else ob_status r))
        (db_outbox (w_db w)) \<and>
    mset (w_kafka (flush (pg_ops en) rl w)) = mset (w_kafka w) +
      mset (map (kafkaMessage \<circ> message_of) (filter (outbox_due (en_now en (w_calls w))) (db_outbox (w_db w))))"
proof -
  let ?now = "en_now en (w_calls w)" and ?db = "w_db w"
  let ?ids = "claimed_ids ?now {} (batchSize rl) ?db"
  note rows = claimed_rows_all [OF ok room]
  have due: "ob_id r \<in> ?ids \<longleftrightarrow> outbox_due ?now r" if "r \<in> set (db_outbox ?db)" for r
  proof -
    have "ob_id r \<in> ?ids \<longleftrightarrow> r \<in> set (claimed_rows ?now {} (batchSize rl) ?db)"
      using that by (simp add: claimed_rows_def)
    then show ?thesis unfolding rows using that by simp
  qed
  show ?thesis
    using flush_statuses [OF rel assms(3) refl] flush_log [OF rel assms(3) refl] due by (simp add: rows)
qed

end
