(* ===== verification/Json.thy ===== *)
theory Json
  imports Prelude
begin

text \<open>
  The part of \<open>encoding/json\<close> the sources use, on text: values, the compact printer behind
  \<open>json.Marshal\<close>, the parser behind \<open>json.Unmarshal\<close>, and the conversion of number literals
  to Go integers. A number is kept as its literal, as Go's decoder keeps it. Object members keep
  their order and duplicates; decoding lets the last one win.

  Text is taken to be valid UTF-8 (Go replaces invalid bytes), and Go's limit of 10000 nested
  values is not modelled. The parser recurses on fuel; \<open>Unmarshal\<close> gives it twice the length
  of the text plus one, and \<open>parse_enough\<close> shows that no more fuel ever changes a result.
\<close>

datatype json =
    JNull
  | JBool bool
  | JNum string
  | JStr string
  | JArr "json list"
  | JObj "(string \<times> json) list"

section \<open>Printing\<close>

definition hexdigit :: "nat \<Rightarrow> char" where
  "hexdigit n = (if n < 10 then char_of (48 + n) else char_of (87 + n))"

definition quote_mark :: char where "quote_mark = CHR 0x22"
definition backslash :: char where "backslash = CHR 0x5C"

definition u_escape :: "nat \<Rightarrow> string" where
  "u_escape n = [backslash, CHR ''u'', hexdigit (n div 4096), hexdigit (n div 256 mod 16),
     hexdigit (n div 16 mod 16), hexdigit (n mod 16)]"

definition escape_char :: "char \<Rightarrow> string" where
  "escape_char c =
     (if c = quote_mark \<or> c = backslash then [backslash, c]
      else if c = CHR 0x08 then [backslash, CHR ''b'']
      else if c = CHR 0x0C then [backslash, CHR ''f'']
      else if c = CHR 0x0A then [backslash, CHR ''n'']
      else if c = CHR 0x0D then [backslash, CHR ''r'']
      else if c = CHR 0x09 then [backslash, CHR ''t'']
      else if (of_char c :: nat) < 32 \<or> c \<in> {CHR ''<'', CHR ''>'', CHR ''&''} then u_escape (of_char c)
      else [c])"

text \<open>U+2028 and U+2029 are escaped too.\<close>

fun escape :: "string \<Rightarrow> string" where
  "escape [] = []"
| "escape (c # cs) =
     (if c = CHR 0xE2 \<and> take 2 cs = [CHR 0x80, CHR 0xA8] then u_escape 0x2028 @ escape (drop 2 cs)
      else if c = CHR 0xE2 \<and> take 2 cs = [CHR 0x80, CHR 0xA9] then u_escape 0x2029 @ escape (drop 2 cs)
      else escape_char c @ escape cs)"

definition quote_string :: "string \<Rightarrow> string" where
  "quote_string s = quote_mark # escape s @ [quote_mark]"

fun join :: "string \<Rightarrow> string list \<Rightarrow> string" where
  "join sep [] = []"
| "join sep [x] = x"
| "join sep (x # y # ys) = x @ sep @ join sep (y # ys)"

fun json_text :: "json \<Rightarrow> string" where
  "json_text JNull = ''null''"
| "json_text (JBool b) = (if b then ''true'' else ''false'')"
| "json_text (JNum n) = n"
| "json_text (JStr s) = quote_string s"
| "json_text (JArr vs) = ''['' @ join '','' (map json_text vs) @ '']''"
| "json_text (JObj ms) = ''{'' @ join '','' (map (\<lambda>(k, v). quote_string k @ '':'' @ json_text v) ms) @ ''}''"

section \<open>Parsing\<close>

definition json_space :: "char \<Rightarrow> bool" where
  "json_space c \<longleftrightarrow> c \<in> {CHR '' '', CHR 0x09, CHR 0x0A, CHR 0x0D}"

definition skip_ws :: "string \<Rightarrow> string" where
  "skip_ws s = dropWhile json_space s"

definition isDigit :: "char \<Rightarrow> bool" where
  "isDigit c \<longleftrightarrow> 48 \<le> (of_char c :: nat) \<and> (of_char c :: nat) \<le> 57"

definition hexval :: "char \<Rightarrow> nat option" where
  "hexval c =
     (let n = of_char c :: nat in
      if 48 \<le> n \<and> n \<le> 57 then Some (n - 48)
      else if 97 \<le> n \<and> n \<le> 102 then Some (n - 87)
      else if 65 \<le> n \<and> n \<le> 70 then Some (n - 55)
      else None)"

fun hex4 :: "string \<Rightarrow> (nat \<times> string) option" where
  "hex4 (a # b # c # d # r) =
     (case (hexval a, hexval b, hexval c, hexval d) of
        (Some w, Some x, Some y, Some z) \<Rightarrow> Some (4096 * w + 256 * x + 16 * y + z, r)
      | _ \<Rightarrow> None)"
| "hex4 _ = None"

definition utf8 :: "nat \<Rightarrow> string" where
  "utf8 n =
     (if n < 0x80 then [char_of n]
      else if n < 0x800 then [char_of (0xC0 + n div 64), char_of (0x80 + n mod 64)]
      else if n < 0x10000
        then [char_of (0xE0 + n div 4096), char_of (0x80 + n div 64 mod 64), char_of (0x80 + n mod 64)]
      else [char_of (0xF0 + n div 262144), char_of (0x80 + n div 4096 mod 64),
            char_of (0x80 + n div 64 mod 64), char_of (0x80 + n mod 64)])"

text \<open>
  The escape after a backslash: the decoded bytes and the rest. A surrogate pair is one code
  point; a lone surrogate becomes U+FFFD.
\<close>

definition surrogate :: "nat \<Rightarrow> bool" where
  "surrogate n \<longleftrightarrow> 0xD800 \<le> n \<and> n < 0xE000"

definition decode_u :: "nat \<Rightarrow> string \<Rightarrow> string \<times> string" where
  "decode_u n r =
     (if \<not> surrogate n then (utf8 n, r)
      else case r of
        b # u # r' \<Rightarrow>
          if b = backslash \<and> u = CHR ''u'' then
            (case hex4 r' of
               Some (m, r'') \<Rightarrow>
                 if n < 0xDC00 \<and> 0xDC00 \<le> m \<and> m < 0xE000
                 then (utf8 (0x10000 + (n - 0xD800) * 1024 + (m - 0xDC00)), r'')
                 else (utf8 0xFFFD, r)
             | None \<Rightarrow> (utf8 0xFFFD, r))
          else (utf8 0xFFFD, r)
      | _ \<Rightarrow> (utf8 0xFFFD, r))"

definition simple_escape :: "char \<Rightarrow> char option" where
  "simple_escape c =
     (if c = quote_mark \<or> c = backslash \<or> c = CHR ''/'' then Some c
      else if c = CHR ''b'' then Some (CHR 0x08)
      else if c = CHR ''f'' then Some (CHR 0x0C)
      else if c = CHR ''n'' then Some (CHR 0x0A)
      else if c = CHR ''r'' then Some (CHR 0x0D)
      else if c = CHR ''t'' then Some (CHR 0x09)
      else None)"

definition decode_escape :: "string \<Rightarrow> (string \<times> string) option" where
  "decode_escape s =
     (case s of
        [] \<Rightarrow> None
      | c # r \<Rightarrow>
          if c = CHR ''u''
          then (case hex4 r of None \<Rightarrow> None | Some (n, r') \<Rightarrow> Some (decode_u n r'))
          else (case simple_escape c of None \<Rightarrow> None | Some d \<Rightarrow> Some ([d], r)))"

lemma hex4_shorter: "hex4 s = Some (n, r) \<Longrightarrow> length r < length s"
  by (induction s rule: hex4.induct) (auto split: option.splits)

lemma decode_u_shorter: "decode_u n r = (d, r') \<Longrightarrow> length r' \<le> length r"
  by (auto simp: decode_u_def split: if_splits list.splits option.splits dest!: hex4_shorter)

lemma decode_escape_shorter: "decode_escape s = Some (d, r) \<Longrightarrow> length r < length s"
  by (auto simp: decode_escape_def split: list.splits if_splits option.splits
      dest!: hex4_shorter decode_u_shorter)

text \<open>The body of a string literal, after its opening quotation mark.\<close>

function parse_str :: "string \<Rightarrow> (string \<times> string) option" where
  "parse_str s =
     (case s of
        [] \<Rightarrow> None
      | c # r \<Rightarrow>
          if c = quote_mark then Some ([], r)
          else if c = backslash then
            (case decode_escape r of
               None \<Rightarrow> None
             | Some (d, r') \<Rightarrow> map_option (\<lambda>(t, r''). (d @ t, r'')) (parse_str r'))
          else if (of_char c :: nat) < 32 then None
          else map_option (\<lambda>(t, r''). (c # t, r'')) (parse_str r))"
  by pat_completeness auto
termination
  by (relation "measure length") (auto dest!: decode_escape_shorter)

declare parse_str.simps [simp del]

text \<open>Number literals: \<open>-? (0 | [1-9][0-9]*) (. [0-9]+)? ([eE] [+-]? [0-9]+)?\<close>.\<close>

definition digits_of :: "string \<Rightarrow> string \<times> string" where
  "digits_of s = (takeWhile isDigit s, dropWhile isDigit s)"

definition num_int :: "string \<Rightarrow> (string \<times> string) option" where
  "num_int s =
     (case digits_of s of (ds, r) \<Rightarrow>
        if ds = [] then None
        else if hd ds = CHR ''0'' then Some ([CHR ''0''], tl ds @ r)
        else Some (ds, r))"

definition num_frac :: "string \<Rightarrow> (string \<times> string) option" where
  "num_frac s =
     (case s of
        c # r \<Rightarrow> if c = CHR ''.''
                  then (case digits_of r of (ds, r') \<Rightarrow> if ds = [] then None else Some (c # ds, r'))
                  else Some ([], s)
      | [] \<Rightarrow> Some ([], s))"

definition num_exp :: "string \<Rightarrow> (string \<times> string) option" where
  "num_exp s =
     (case s of
        c # r \<Rightarrow>
          if c = CHR ''e'' \<or> c = CHR ''E'' then
            (let (sg, r1) = (case r of
                 x # y \<Rightarrow> if x = CHR ''+'' \<or> x = CHR ''-'' then ([x], y) else ([], r) | [] \<Rightarrow> ([], r));
                 (ds, r2) = digits_of r1
             in if ds = [] then None else Some (c # sg @ ds, r2))
          else Some ([], s)
      | [] \<Rightarrow> Some ([], s))"

definition parse_num :: "string \<Rightarrow> (json \<times> string) option" where
  "parse_num s =
     (let (sg, r) = (case s of c # r \<Rightarrow> if c = CHR ''-'' then ([c], r) else ([], s) | [] \<Rightarrow> ([], s))
      in case num_int r of
           None \<Rightarrow> None
         | Some (i, r1) \<Rightarrow>
             (case num_frac r1 of
                None \<Rightarrow> None
              | Some (f, r2) \<Rightarrow>
                  (case num_exp r2 of
                     None \<Rightarrow> None
                   | Some (e, r3) \<Rightarrow> Some (JNum (sg @ i @ f @ e), r3))))"

definition parse_lit :: "string \<Rightarrow> (json \<times> string) option" where
  "parse_lit s =
     (if take 4 s = ''null'' then Some (JNull, drop 4 s)
      else if take 4 s = ''true'' then Some (JBool True, drop 4 s)
      else if take 5 s = ''false'' then Some (JBool False, drop 5 s)
      else None)"

fun parse_value :: "nat \<Rightarrow> string \<Rightarrow> (json \<times> string) option"
and parse_elems :: "nat \<Rightarrow> string \<Rightarrow> (json list \<times> string) option"
and parse_members :: "nat \<Rightarrow> string \<Rightarrow> ((string \<times> json) list \<times> string) option" where
  "parse_value 0 s = None"
| "parse_value (Suc n) s =
     (case skip_ws s of
        [] \<Rightarrow> None
      | c # r \<Rightarrow>
          if c = CHR ''{'' then
            (if take 1 (skip_ws r) = ''}'' then Some (JObj [], drop 1 (skip_ws r))
             else map_option (\<lambda>(ms, r'). (JObj ms, r')) (parse_members n r))
          else if c = CHR ''['' then
            (if take 1 (skip_ws r) = '']'' then Some (JArr [], drop 1 (skip_ws r))
             else map_option (\<lambda>(vs, r'). (JArr vs, r')) (parse_elems n r))
          else if c = quote_mark then map_option (\<lambda>(t, r'). (JStr t, r')) (parse_str r)
          else if c = CHR ''-'' \<or> isDigit c then parse_num (c # r)
          else parse_lit (c # r))"
| "parse_elems 0 s = None"
| "parse_elems (Suc n) s =
     (case parse_value n s of
        None \<Rightarrow> None
      | Some (v, r) \<Rightarrow>
          (case skip_ws r of
             [] \<Rightarrow> None
           | c # r' \<Rightarrow>
               if c = CHR '','' then map_option (\<lambda>(vs, r''). (v # vs, r'')) (parse_elems n r')
               else if c = CHR '']'' then Some ([v], r')
               else None))"
| "parse_members 0 s = None"
| "parse_members (Suc n) s =
     (case skip_ws s of
        [] \<Rightarrow> None
      | q # r0 \<Rightarrow>
          if q \<noteq> quote_mark then None
          else (case parse_str r0 of
             None \<Rightarrow> None
           | Some (k, r1) \<Rightarrow>
               (case skip_ws r1 of
                  [] \<Rightarrow> None
                | c # r2 \<Rightarrow>
                    if c \<noteq> CHR '':'' then None
                    else (case parse_value n r2 of
                       None \<Rightarrow> None
                     | Some (v, r) \<Rightarrow>
                         (case skip_ws r of
                            [] \<Rightarrow> None
                          | c # r' \<Rightarrow>
                              if c = CHR '','' then map_option (\<lambda>(ms, r''). ((k, v) # ms, r'')) (parse_members n r')
                              else if c = CHR ''}'' then Some ([(k, v)], r')
                              else None)))))"

definition json_fuel :: "string \<Rightarrow> nat" where
  "json_fuel s = 2 * length s + 1"

definition parse_json :: "string \<Rightarrow> json option" where
  "parse_json s =
     (case parse_value (json_fuel s) s of
        None \<Rightarrow> None
      | Some (v, r) \<Rightarrow> if skip_ws r = [] then Some v else None)"


section \<open>Printing and parsing round-trip\<close>

lemma of_char_less_256 [simp]: "(of_char c :: nat) < 256"
  using of_char_mod_256 [of c, where 'a = nat] by (metis mod_less_divisor zero_less_numeral)

lemma hexval_hexdigit: "n < 16 \<Longrightarrow> hexval (hexdigit n) = Some n"
  by (auto simp: hexval_def hexdigit_def of_char_of Let_def)

lemma hex4_u_escape:
  assumes "n < 65536"
  shows "hex4 (hexdigit (n div 4096) # hexdigit (n div 256 mod 16) # hexdigit (n div 16 mod 16) #
    hexdigit (n mod 16) # r) = Some (n, r)"
proof -
  have "n div 4096 < 16" using assms by auto
  moreover have "4096 * (n div 4096) + 256 * (n div 256 mod 16) + 16 * (n div 16 mod 16) + n mod 16 = n"
  proof -
    have "n div 16 div 16 = n div 256" "n div 256 div 16 = n div 4096"
      by (simp_all flip: div_mult2_eq)
    then have "n div 16 = 16 * (n div 256) + n div 16 mod 16"
      "n div 256 = 16 * (n div 4096) + n div 256 mod 16"
      by (metis mult_div_mod_eq)+
    then show ?thesis using mult_div_mod_eq [of 16 n] by linarith
  qed
  ultimately show ?thesis by (simp add: hexval_hexdigit)
qed

declare hex4.simps [simp del]

lemma parse_str_u:
  assumes "n < 65536" and "\<not> surrogate n"
  shows "parse_str (u_escape n @ r) = map_option (\<lambda>(t, r'). (utf8 n @ t, r')) (parse_str r)"
proof -
  have "backslash \<noteq> quote_mark" by (simp add: backslash_def quote_mark_def)
  then show ?thesis
    using assms by (subst parse_str.simps)
      (simp add: u_escape_def decode_escape_def hex4_u_escape decode_u_def)
qed

lemma utf8_ascii: "(of_char c :: nat) < 128 \<Longrightarrow> utf8 (of_char c) = [c]"
  by (simp add: utf8_def)

lemma parse_str_simple:
  assumes "simple_escape e = Some d"
  shows "parse_str (backslash # e # r) = map_option (\<lambda>(t, r'). (d # t, r')) (parse_str r)"
proof -
  have "e \<noteq> CHR ''u''"
    using assms by (auto simp: simple_escape_def quote_mark_def backslash_def)
  with assms show ?thesis
    by (subst parse_str.simps) (simp add: decode_escape_def backslash_def quote_mark_def)
qed

lemma parse_str_raw:
  "c \<noteq> quote_mark \<Longrightarrow> c \<noteq> backslash \<Longrightarrow> \<not> (of_char c :: nat) < 32 \<Longrightarrow>
   parse_str (c # r) = map_option (\<lambda>(t, r'). (c # t, r')) (parse_str r)"
  by (subst parse_str.simps) simp

lemma parse_str_escape_char:
  "parse_str (escape_char c @ r) = map_option (\<lambda>(t, r'). (c # t, r')) (parse_str r)"
proof -
  have lit: "simple_escape c = Some c" if "c = quote_mark \<or> c = backslash"
    using that by (auto simp: simple_escape_def)
  have letter: "simple_escape (CHR ''b'') = Some (CHR 0x08)" "simple_escape (CHR ''f'') = Some (CHR 0x0C)"
    "simple_escape (CHR ''n'') = Some (CHR 0x0A)" "simple_escape (CHR ''r'') = Some (CHR 0x0D)"
    "simple_escape (CHR ''t'') = Some (CHR 0x09)"
    by (simp_all add: simple_escape_def quote_mark_def backslash_def)
  have u: "parse_str (u_escape (of_char c) @ r) = map_option (\<lambda>(t, r'). (c # t, r')) (parse_str r)"
    if "(of_char c :: nat) < 32 \<or> c \<in> {CHR ''<'', CHR ''>'', CHR ''&''}"
  proof -
    from that have small: "(of_char c :: nat) < 128" by auto
    then have "(of_char c :: nat) < 65536" "\<not> surrogate (of_char c)"
      by (simp_all add: surrogate_def)
    from parse_str_u [OF this, of r] utf8_ascii [OF small] show ?thesis by simp
  qed
  show ?thesis
    unfolding escape_char_def
    by (simp add: parse_str_simple lit letter u parse_str_raw)
qed

lemma parse_str_escape: "parse_str (escape s @ quote_mark # r) = Some (s, r)"
proof (induction s rule: escape.induct)
  case 1
  show ?case by (subst parse_str.simps) simp
next
  case (2 c cs)
  have u: "parse_str (u_escape n @ x) = map_option (\<lambda>(t, r'). (utf8 n @ t, r')) (parse_str x)"
    if "n \<in> {0x2028, 0x2029}" for n x
    using that by (intro parse_str_u) (auto simp: surrogate_def)
  have sep: "utf8 0x2028 = [CHR 0xE2, CHR 0x80, CHR 0xA8]" "utf8 0x2029 = [CHR 0xE2, CHR 0x80, CHR 0xA9]"
    by (simp_all add: utf8_def char_of_def bit_nat_def)
  consider (a) "c = CHR 0xE2 \<and> take 2 cs = [CHR 0x80, CHR 0xA8]"
    | (b) "c = CHR 0xE2 \<and> take 2 cs = [CHR 0x80, CHR 0xA9]"
    | (d) "\<not> (c = CHR 0xE2 \<and> take 2 cs = [CHR 0x80, CHR 0xA8])"
      "\<not> (c = CHR 0xE2 \<and> take 2 cs = [CHR 0x80, CHR 0xA9])" by blast
  then show ?case
  proof cases
    case a
    then have "cs = [CHR 0x80, CHR 0xA8] @ drop 2 cs" by (metis append_take_drop_id)
    with a "2.IH"(1) show ?thesis by (simp add: u sep)
  next
    case b
    then have "cs = [CHR 0x80, CHR 0xA9] @ drop 2 cs" by (metis append_take_drop_id)
    with b "2.IH"(2) show ?thesis by (simp add: u sep)
  next
    case d
    with "2.IH"(3) show ?thesis by (auto simp: parse_str_escape_char)
  qed
qed

text \<open>Decimal literals.\<close>

lemma isDigit_char_of: "(n :: nat) < 10 \<Longrightarrow> isDigit (char_of (48 + n))"
  by (simp add: isDigit_def of_char_of)

lemma utoa_digits: "\<forall>c \<in> set (utoa n). isDigit c"
proof (induction n rule: utoa.induct)
  case (1 n)
  then show ?case
    by (subst utoa.simps) (auto simp: isDigit_char_of)
qed

lemma utoa_not_Nil [simp]: "utoa n \<noteq> []"
  by (subst utoa.simps) simp

lemma hd_utoa: "hd (utoa n) = CHR ''0'' \<longleftrightarrow> n = 0"
proof (induction n rule: utoa.induct)
  case (1 n)
  show ?case
  proof (cases "n < 10")
    case True
    then have "(of_char (char_of (48 + n) :: char) :: nat) = 48 + n" by (simp add: of_char_of)
    then have "char_of (48 + n) = CHR ''0'' \<longleftrightarrow> n = 0"
      by (auto simp: char_of_def bit_nat_def)
    with True show ?thesis by (subst utoa.simps) simp
  next
    case False
    with 1 have "hd (utoa (n div 10)) = CHR ''0'' \<longleftrightarrow> n div 10 = 0" by simp
    with False show ?thesis by (subst utoa.simps) (simp add: hd_append)
  qed
qed

definition num_stop :: "string \<Rightarrow> bool" where
  "num_stop r \<longleftrightarrow> (case r of [] \<Rightarrow> True
     | c # _ \<Rightarrow> \<not> isDigit c \<and> c \<noteq> CHR ''.'' \<and> c \<noteq> CHR ''e'' \<and> c \<noteq> CHR ''E'')"

lemma digits_of_utoa:
  assumes "num_stop r"
  shows "digits_of (utoa n @ r) = (utoa n, r)"
proof -
  have "takeWhile isDigit r = []" "dropWhile isDigit r = r"
    using assms by (auto simp: num_stop_def split: list.splits)
  then show ?thesis
    using utoa_digits [of n] by (simp add: digits_of_def takeWhile_append2 dropWhile_append2)
qed

lemma num_int_utoa:
  assumes "num_stop r"
  shows "num_int (utoa n @ r) = Some (utoa n, r)"
proof -
  have "utoa 0 = [CHR ''0'']" by (subst utoa.simps) (simp add: char_of_def bit_nat_def)
  with digits_of_utoa [OF assms, of n] show ?thesis
    by (cases "n = 0") (simp_all add: num_int_def hd_utoa)
qed

lemma hd_utoa_not_minus: "hd (utoa n) \<noteq> CHR ''-''"
proof -
  have "isDigit (hd (utoa n))"
    using utoa_digits [of n] hd_in_set [OF utoa_not_Nil [of n]] by blast
  then show ?thesis by (auto simp: isDigit_def)
qed

lemma parse_num_itoa:
  assumes stop: "num_stop r"
  shows "parse_num (itoa i @ r) = Some (JNum (itoa i), r)"
proof -
  have tail: "num_frac r = Some ([], r)" "num_exp r = Some ([], r)"
    using stop by (auto simp: num_stop_def num_frac_def num_exp_def split: list.splits)
  obtain c cs where u: "utoa (nat i) = c # cs" by (cases "utoa (nat i)") auto
  with hd_utoa_not_minus [of "nat i"] have "c \<noteq> CHR ''-''" by simp
  then show ?thesis
    using num_int_utoa [OF stop, of "nat i"] num_int_utoa [OF stop, of "nat (- i)"] u
    by (simp add: parse_num_def itoa_def tail)
qed

text \<open>
  The values the sources marshal: objects, arrays, strings, booleans, null and integers.
\<close>

fun json_ok :: "json \<Rightarrow> bool" where
  "json_ok (JNum n) \<longleftrightarrow> (\<exists>i. n = itoa i)"
| "json_ok (JArr vs) \<longleftrightarrow> (\<forall>v \<in> set vs. json_ok v)"
| "json_ok (JObj ms) \<longleftrightarrow> (\<forall>m \<in> set ms. json_ok (snd m))"
| "json_ok _ \<longleftrightarrow> True"

lemma itoa_not_Nil [simp]: "itoa i \<noteq> []"
  by (simp add: itoa_def)

lemma length_json_text: "json_ok j \<Longrightarrow> 0 < length (json_text j)"
  by (cases j) (auto simp: quote_string_def)

lemma skip_ws_Cons: "\<not> json_space c \<Longrightarrow> skip_ws (c # r) = c # r"
  by (simp add: skip_ws_def)

lemma json_space_char:
  "\<not> json_space (CHR '','')" "\<not> json_space (CHR '':'')" "\<not> json_space (CHR ''['')" "\<not> json_space (CHR '']'')"
  "\<not> json_space (CHR ''{'')" "\<not> json_space (CHR ''}'')" "\<not> json_space quote_mark" "\<not> json_space (CHR ''-'')"
  by (simp_all add: json_space_def quote_mark_def)

lemma json_space_digit: "isDigit c \<Longrightarrow> \<not> json_space c"
  by (auto simp: json_space_def isDigit_def)

lemmas skip_ws_simps = skip_ws_Cons [OF json_space_char(1)] skip_ws_Cons [OF json_space_char(2)]
  skip_ws_Cons [OF json_space_char(3)] skip_ws_Cons [OF json_space_char(4)]
  skip_ws_Cons [OF json_space_char(5)] skip_ws_Cons [OF json_space_char(6)]
  skip_ws_Cons [OF json_space_char(7)] skip_ws_Cons [OF json_space_char(8)]

lemma num_stop_char [simp]: "num_stop (CHR '','' # r)" "num_stop (CHR '']'' # r)" "num_stop (CHR ''}'' # r)" "num_stop []"
  by (simp_all add: num_stop_def isDigit_def)

definition json_parses :: "json \<Rightarrow> bool" where
  "json_parses j \<longleftrightarrow> (\<forall>n r. 2 * length (json_text j) \<le> n \<longrightarrow> num_stop r \<longrightarrow>
     parse_value n (json_text j @ r) = Some (j, r))"

lemma json_parsesD:
  "json_parses j \<Longrightarrow> 2 * length (json_text j) \<le> n \<Longrightarrow> num_stop r \<Longrightarrow>
   parse_value n (json_text j @ r) = Some (j, r)"
  by (simp add: json_parses_def)

lemma parse_elems_join:
  assumes "vs \<noteq> []" and "\<And>v. v \<in> set vs \<Longrightarrow> json_parses v \<and> 0 < length (json_text v)"
    and "2 * length (join '','' (map json_text vs)) < n"
  shows "parse_elems n (join '','' (map json_text vs) @ CHR '']'' # r) = Some (vs, r)"
  using assms
proof (induction vs arbitrary: n rule: list_nonempty_induct)
  case (single v)
  then obtain m where "n = Suc m" by (cases n) auto
  with single show ?case by (simp add: json_parsesD skip_ws_simps)
next
  case (cons v vs)
  then obtain m where n: "n = Suc m" by (cases n) auto
  obtain w ws where vs: "vs = w # ws" using cons by (cases vs) auto
  have "parse_elems m (join '','' (map json_text vs) @ CHR '']'' # r) = Some (vs, r)"
    using cons n vs by (intro cons.IH) auto
  with cons n vs show ?case by (simp add: json_parsesD skip_ws_simps)
qed

lemma parse_members_join:
  assumes "ms \<noteq> []" and "\<And>m. m \<in> set ms \<Longrightarrow> json_parses (snd m) \<and> 0 < length (json_text (snd m))"
    and "2 * length (join '','' (map (\<lambda>(k, v). quote_string k @ '':'' @ json_text v) ms)) < n"
  shows "parse_members n (join '','' (map (\<lambda>(k, v). quote_string k @ '':'' @ json_text v) ms) @ CHR ''}'' # r)
         = Some (ms, r)"
  using assms
proof (induction ms arbitrary: n rule: list_nonempty_induct)
  case (single m)
  obtain k v where m: "m = (k, v)" by force
  from single obtain n' where "n = Suc n'" by (cases n) auto
  with single m show ?case
    by (simp add: json_parsesD skip_ws_simps quote_string_def parse_str_escape)
next
  case (cons m ms)
  obtain k v where m: "m = (k, v)" by force
  from cons obtain n' where n: "n = Suc n'" by (cases n) auto
  obtain w ws where ms: "ms = w # ws" using cons by (cases ms) auto
  have "parse_members n' (join '','' (map (\<lambda>(k, v). quote_string k @ '':'' @ json_text v) ms) @ CHR ''}'' # r)
    = Some (ms, r)"
    using cons n m ms by (intro cons.IH) auto
  moreover have "json_parses v" using cons.prems(1) [of m] m by simp
  then have "parse_value n' (json_text v @ CHR '','' # x) = Some (v, CHR '','' # x)" for x
    using cons.prems(2) n m ms by (intro json_parsesD) (auto simp: quote_string_def)
  ultimately show ?case
    using n m ms by (simp add: skip_ws_simps quote_string_def parse_str_escape)
qed

lemma join_not_close:
  assumes "\<And>x. x \<in> set xs \<Longrightarrow> x \<noteq> [] \<and> hd x \<noteq> c \<and> \<not> json_space (hd x)" and "xs \<noteq> []"
  shows "take 1 (skip_ws (join sep xs @ r)) \<noteq> [c]"
proof -
  obtain x ys where xs: "xs = x # ys" using assms by (cases xs) auto
  then obtain a x' where "x = a # x'" using assms by (cases x) auto
  moreover from this assms xs have "\<not> json_space a" "a \<noteq> c" by force+
  ultimately show ?thesis
    using xs by (cases ys) (auto simp: skip_ws_Cons)
qed

lemma hd_json_text:
  assumes "json_ok j"
  shows "hd (json_text j) \<noteq> CHR '']'' \<and> \<not> json_space (hd (json_text j))"
proof (cases j)
  case (JNum n)
  with assms obtain i where i: "n = itoa i" by auto
  have "isDigit (hd (utoa (nat i)))"
    using utoa_digits [of "nat i"] hd_in_set [OF utoa_not_Nil [of "nat i"]] by blast
  with json_space_digit have "hd (utoa (nat i)) \<noteq> CHR '']''" "\<not> json_space (hd (utoa (nat i)))"
    by (auto simp: isDigit_def)
  with JNum i show ?thesis by (simp add: itoa_def json_space_char)
qed (auto simp: json_space_def quote_string_def quote_mark_def)

lemma json_text_parses: "json_ok j \<Longrightarrow> json_parses j"
proof (induction j)
  case JNull
  show ?case
    unfolding json_parses_def
  proof (intro allI impI)
    fix n r assume "2 * length (json_text JNull) \<le> n"
    then obtain m where "n = Suc m" by (cases n) auto
    then show "parse_value n (json_text JNull @ r) = Some (JNull, r)"
      by (simp add: skip_ws_def json_space_def parse_lit_def quote_mark_def isDigit_def)
  qed
next
  case (JBool b)
  show ?case
    unfolding json_parses_def
  proof (intro allI impI)
    fix n r assume "2 * length (json_text (JBool b)) \<le> n"
    then obtain m where "n = Suc m" by (cases n) (auto split: if_splits)
    then show "parse_value n (json_text (JBool b) @ r) = Some (JBool b, r)"
      by (simp add: skip_ws_def json_space_def parse_lit_def quote_mark_def isDigit_def)
  qed
next
  case (JNum s)
  then obtain i where i: "s = itoa i" by auto
  show ?case
    unfolding json_parses_def
  proof (intro allI impI)
    fix n r assume n: "2 * length (json_text (JNum s)) \<le> n" and r: "num_stop r"
    obtain c cs where s: "itoa i = c # cs" by (cases "itoa i") auto
    with n i obtain m where m: "n = Suc m" by (cases n) auto
    have "c = CHR ''-'' \<or> isDigit c"
      using s utoa_digits [of "nat i"] by (auto simp: itoa_def split: if_splits)
    then have "\<not> json_space c" "c \<noteq> CHR ''{''" "c \<noteq> CHR ''[''" "c \<noteq> quote_mark" "c = CHR ''-'' \<or> isDigit c"
      by (auto simp: json_space_char json_space_digit isDigit_def quote_mark_def)
    with parse_num_itoa [OF r, of i] s i m
    show "parse_value n (json_text (JNum s) @ r) = Some (JNum s, r)"
      by (simp add: skip_ws_Cons)
  qed
next
  case (JStr s)
  show ?case
    unfolding json_parses_def
  proof (intro allI impI)
    fix n r assume "2 * length (json_text (JStr s)) \<le> n"
    then obtain m where "n = Suc m" by (cases n) (auto simp: quote_string_def)
    then show "parse_value n (json_text (JStr s) @ r) = Some (JStr s, r)"
      by (simp add: skip_ws_simps quote_string_def parse_str_escape) (simp add: quote_mark_def)
  qed
next
  case (JArr vs)
  show ?case
    unfolding json_parses_def
  proof (intro allI impI)
    fix n r assume n: "2 * length (json_text (JArr vs)) \<le> n"
    then obtain m where m: "n = Suc m" by (cases n) auto
    show "parse_value n (json_text (JArr vs) @ r) = Some (JArr vs, r)"
    proof (cases "vs = []")
      case True
      with m show ?thesis by (simp add: skip_ws_simps)
    next
      case False
      have "take 1 (skip_ws (join '','' (map json_text vs) @ CHR '']'' # r)) \<noteq> '']''"
        using False JArr.prems hd_json_text length_json_text by (intro join_not_close) auto
      moreover have "parse_elems m (join '','' (map json_text vs) @ CHR '']'' # r) = Some (vs, r)"
        using False JArr m n length_json_text by (intro parse_elems_join) auto
      ultimately show ?thesis using m by (simp add: skip_ws_simps)
    qed
  qed
next
  case (JObj ms)
  show ?case
    unfolding json_parses_def
  proof (intro allI impI)
    fix n r assume n: "2 * length (json_text (JObj ms)) \<le> n"
    then obtain m where m: "n = Suc m" by (cases n) auto
    let ?t = "\<lambda>(k, v). quote_string k @ '':'' @ json_text v"
    show "parse_value n (json_text (JObj ms) @ r) = Some (JObj ms, r)"
    proof (cases "ms = []")
      case True
      with m show ?thesis by (simp add: skip_ws_simps)
    next
      case False
      have "take 1 (skip_ws (join '','' (map ?t ms) @ CHR ''}'' # r)) \<noteq> ''}''"
        using False by (intro join_not_close) (auto simp: quote_string_def json_space_char, simp add: quote_mark_def)
      moreover have "parse_members m (join '','' (map ?t ms) @ CHR ''}'' # r) = Some (ms, r)"
        using False JObj m n length_json_text by (intro parse_members_join) force+
      ultimately show ?thesis using m by (simp add: skip_ws_simps)
    qed
  qed
qed

theorem parse_json_text: "json_ok j \<Longrightarrow> parse_json (json_text j) = Some j"
  using json_parsesD [OF json_text_parses, of j "json_fuel (json_text j)" "[]"]
  by (simp add: parse_json_def json_fuel_def skip_ws_def)

section \<open>The fuel is enough\<close>

lemma parse_str_shorter: "parse_str s = Some (t, r) \<Longrightarrow> length r < length s"
proof (induction s arbitrary: t r rule: parse_str.induct)
  case (1 s)
  from "1.prems" "1.IH" show ?case
    by (subst (asm) parse_str.simps)
      (fastforce split: list.splits if_splits option.splits dest: decode_escape_shorter)
qed

lemma digits_of_length: "digits_of s = (ds, r) \<Longrightarrow> length ds + length r = length s"
  by (auto simp: digits_of_def simp flip: length_append)

lemma num_int_shorter: "num_int s = Some (i, r) \<Longrightarrow> length r < length s"
proof -
  assume *: "num_int s = Some (i, r)"
  obtain ds r0 where d: "digits_of s = (ds, r0)" by force
  with * digits_of_length [OF d] show ?thesis
    by (cases ds) (auto simp: num_int_def split: if_splits)
qed

lemma num_frac_le: "num_frac s = Some (f, r) \<Longrightarrow> length r \<le> length s"
  by (auto simp: num_frac_def split: list.splits if_splits prod.splits dest!: digits_of_length)

lemma num_exp_le: "num_exp s = Some (e, r) \<Longrightarrow> length r \<le> length s"
  by (auto simp: num_exp_def Let_def split: list.splits if_splits prod.splits dest!: digits_of_length)

lemma parse_num_shorter: "parse_num s = Some (v, r) \<Longrightarrow> length r < length s"
  by (auto simp: parse_num_def Let_def split: list.splits if_splits prod.splits option.splits
      dest!: num_int_shorter num_frac_le num_exp_le)

lemma parse_lit_shorter: "parse_lit s = Some (v, r) \<Longrightarrow> length r < length s"
  by (cases s) (auto simp: parse_lit_def split: if_splits)

lemma skip_ws_le: "length (skip_ws s) \<le> length s"
  by (simp add: skip_ws_def length_dropWhile_le)

lemma skip_ws_Cons_length: "skip_ws s = c # r \<Longrightarrow> length r < length s"
  using skip_ws_le [of s] by simp

lemma parse_shrinks:
  "parse_value n s = Some (v, r) \<Longrightarrow> length r < length s"
  "parse_elems n s = Some (vs, r) \<Longrightarrow> length r < length s"
  "parse_members n s = Some (ms, r) \<Longrightarrow> length r < length s"
proof (induction n s and n s and n s arbitrary: v r and vs r and ms r
    rule: parse_value_parse_elems_parse_members.induct)
  case (2 n s)
  show ?case
  proof (cases "skip_ws s")
    case (Cons c t)
    note len = skip_ws_Cons_length [OF Cons] skip_ws_le [of t] skip_ws_le [of s]
    from "2.prems" Cons len show ?thesis
      by (auto split: if_splits dest!: "2.IH" [OF Cons, rotated -1] parse_str_shorter parse_num_shorter
          parse_lit_shorter)
  qed (use "2.prems" in simp)
next
  case (4 n s)
  from "4.prems" "4.IH" show ?case
    by (fastforce split: option.splits list.splits if_splits dest: skip_ws_Cons_length)
next
  case (6 n s)
  from "6.prems" "6.IH" show ?case
    by (fastforce split: option.splits list.splits if_splits dest: skip_ws_Cons_length parse_str_shorter)
qed simp_all

lemma parse_more:
  "2 * length s + 1 \<le> n \<Longrightarrow> n \<le> m \<Longrightarrow> parse_value m s = parse_value n s"
  "2 * length s + 2 \<le> n \<Longrightarrow> n \<le> m \<Longrightarrow> parse_elems m s = parse_elems n s"
  "2 * length s + 2 \<le> n \<Longrightarrow> n \<le> m \<Longrightarrow> parse_members m s = parse_members n s"
proof (induction n s and n s and n s arbitrary: m and m and m
    rule: parse_value_parse_elems_parse_members.induct)
  case (2 n s)
  from "2.prems" obtain k where k: "m = Suc k" by (cases m) auto
  show ?case
  proof (cases "skip_ws s")
    case (Cons c t)
    note len = skip_ws_Cons_length [OF Cons]
    from "2.prems" len k have n: "2 * length t + 2 \<le> n" "n \<le> k" by auto
    have "c = CHR ''{'' \<Longrightarrow> take 1 (skip_ws t) \<noteq> ''}'' \<Longrightarrow> parse_members k t = parse_members n t"
      by (rule "2.IH"(1) [OF Cons _ _ n])
    moreover have "c = CHR ''['' \<Longrightarrow> take 1 (skip_ws t) \<noteq> '']'' \<Longrightarrow> parse_elems k t = parse_elems n t"
      by (rule "2.IH"(2) [OF Cons _ _ _ n]) simp_all
    ultimately show ?thesis by (auto simp: k Cons)
  qed (simp add: k)
next
  case (4 n s)
  from "4.prems" obtain k where k: "m = Suc k" by (cases m) auto
  from "4.prems" k have "2 * length s + 1 \<le> n" "n \<le> k" by auto
  then have v: "parse_value k s = parse_value n s" by (rule "4.IH"(1))
  show ?case
  proof (cases "parse_value n s")
    case (Some p)
    obtain u r where p: "p = (u, r)" by force
    have "parse_elems k r' = parse_elems n r'" if "skip_ws r = CHR '','' # r'" for r'
    proof (rule "4.IH"(2) [OF Some p [symmetric] that])
      show "2 * length r' + 2 \<le> n" "n \<le> k"
        using Some p "4.prems" k parse_shrinks(1) [of n s u r] skip_ws_Cons_length [OF that] by auto
    qed simp
    with Some p k v show ?thesis by (auto split: list.splits)
  qed (simp add: k v)
next
  case (6 n s)
  from "6.prems" obtain k where k: "m = Suc k" by (cases m) auto
  show ?case
  proof (cases "\<exists>r0 key r1 r2. skip_ws s = quote_mark # r0 \<and> parse_str r0 = Some (key, r1) \<and>
      skip_ws r1 = CHR '':'' # r2")
    case False
    then show ?thesis
      unfolding k by (auto split: list.splits option.splits)
  next
    case True
    then obtain r0 key r1 r2 where at: "skip_ws s = quote_mark # r0" "parse_str r0 = Some (key, r1)"
      "skip_ws r1 = CHR '':'' # r2" by blast
    note len = skip_ws_Cons_length [OF at(1)] parse_str_shorter [OF at(2)] skip_ws_Cons_length [OF at(3)]
    have v: "parse_value k r2 = parse_value n r2"
    proof (rule "6.IH"(1) [OF at(1) _ at(2) refl at(3)])
      show "2 * length r2 + 1 \<le> n" "n \<le> k" using "6.prems" k len by auto
    qed simp_all
    show ?thesis
    proof (cases "parse_value n r2")
      case (Some p)
      obtain u r where p: "p = (u, r)" by force
      have "parse_members k r' = parse_members n r'" if "skip_ws r = CHR '','' # r'" for r'
      proof (rule "6.IH"(2) [OF at(1) _ at(2) refl at(3) _ Some p [symmetric] that])
        show "2 * length r' + 2 \<le> n" "n \<le> k"
          using "6.prems" k len parse_shrinks(1) [of n r2 u r] skip_ws_Cons_length [OF that] Some p by auto
      qed simp_all
      with Some p k v at show ?thesis by (auto split: list.splits)
    qed (simp add: k v at)
  qed
qed auto

theorem parse_enough: "json_fuel s \<le> n \<Longrightarrow> parse_value n s = parse_value (json_fuel s) s"
  by (rule parse_more) (simp_all add: json_fuel_def)

end
