(* ===== verification/Json_Codec.thy ===== *)
theory Json_Codec
  imports Json
begin

text \<open>
  How \<open>encoding/json\<close> fills Go values from JSON values and back: object members against
  struct fields (matched without regard to case, the last match wins, \<open>null\<close> leaves a field
  as it is, unknown members are ignored), 64-bit integers, slices, pointers and maps, and the
  members a struct with \<open>omitempty\<close> tags gives. A decoder takes the value the destination
  has before; \<open>None\<close> is the error \<open>Unmarshal\<close> returns.

  Every codec of a struct is a \<open>codec\<close> locale instance: encoding a value in the codec's domain
  and decoding it again gives the value back.
\<close>

type_synonym members = "(string \<times> json) list"

definition int64_range :: "int \<Rightarrow> bool" where
  "int64_range i \<longleftrightarrow> - (2 ^ 63) \<le> i \<and> i < 2 ^ 63"

section \<open>Integers\<close>

text \<open>\<open>strconv.ParseInt(lit, 10, 64)\<close> on a JSON number literal.\<close>

fun atou :: "nat \<Rightarrow> string \<Rightarrow> nat option" where
  "atou acc [] = Some acc"
| "atou acc (c # cs) = (if isDigit c then atou (10 * acc + (of_char c - 48)) cs else None)"

definition atoi :: "string \<Rightarrow> int option" where
  "atoi s =
     (case s of
        [] \<Rightarrow> None
      | c # cs \<Rightarrow>
          if c = CHR ''-'' then (if cs = [] then None else map_option (\<lambda>n. - int n) (atou 0 cs))
          else map_option int (atou 0 s))"

definition ParseInt64 :: "string \<Rightarrow> int option" where
  "ParseInt64 s = (case atoi s of None \<Rightarrow> None | Some i \<Rightarrow> if int64_range i then Some i else None)"

lemma atou_append: "atou acc (s @ t) = (case atou acc s of None \<Rightarrow> None | Some a \<Rightarrow> atou a t)"
  by (induction s arbitrary: acc) auto

lemma atou_utoa: "atou 0 (utoa n) = Some n"
proof (induction n rule: utoa.induct)
  case (1 n)
  show ?case
  proof (cases "n < 10")
    case True
    then show ?thesis by (subst utoa.simps) (simp add: isDigit_char_of of_char_of)
  next
    case False
    with 1 show ?thesis
      by (subst utoa.simps) (simp add: atou_append isDigit_char_of of_char_of)
  qed
qed

lemma atoi_itoa [simp]: "atoi (itoa i) = Some i"
proof (cases "i < 0")
  case True
  then show ?thesis by (simp add: itoa_def atoi_def atou_utoa)
next
  case False
  obtain c cs where u: "utoa (nat i) = c # cs" by (cases "utoa (nat i)") auto
  with hd_utoa_not_minus [of "nat i"] have "c \<noteq> CHR ''-''" by simp
  with False u atou_utoa [of "nat i"] show ?thesis by (simp add: itoa_def atoi_def)
qed

lemma ParseInt64_itoa [simp]: "ParseInt64 (itoa i) = (if int64_range i then Some i else None)"
  by (simp add: ParseInt64_def)

section \<open>Decoders\<close>

type_synonym 'a decoder = "json \<Rightarrow> 'a \<Rightarrow> 'a option"

fun dec_int :: "int decoder" where
  "dec_int JNull cur = Some cur"
| "dec_int (JNum lit) cur = ParseInt64 lit"
| "dec_int _ cur = None"

fun dec_str :: "string decoder" where
  "dec_str JNull cur = Some cur"
| "dec_str (JStr s) cur = Some s"
| "dec_str _ cur = None"

fun dec_bool :: "bool decoder" where
  "dec_bool JNull cur = Some cur"
| "dec_bool (JBool b) cur = Some b"
| "dec_bool _ cur = None"

text \<open>Decode every element from the zero value; one failure is a failure of the whole.\<close>

fun dec_all :: "'a \<Rightarrow> 'a decoder \<Rightarrow> json list \<Rightarrow> 'a list option" where
  "dec_all z dec [] = Some []"
| "dec_all z dec (v # vs) =
     (case (dec v z, dec_all z dec vs) of (Some x, Some xs) \<Rightarrow> Some (x # xs) | _ \<Rightarrow> None)"

fun dec_list :: "'a \<Rightarrow> 'a decoder \<Rightarrow> 'a list decoder" where
  "dec_list z dec JNull cur = Some []"
| "dec_list z dec (JArr vs) cur = dec_all z dec vs"
| "dec_list z dec _ cur = None"

definition dec_ptr :: "'a \<Rightarrow> 'a decoder \<Rightarrow> 'a option decoder" where
  "dec_ptr z dec v cur =
     (if v = JNull then Some None
      else map_option Some (dec v (case cur of None \<Rightarrow> z | Some x \<Rightarrow> x)))"

text \<open>The members of an object that go to one field.\<close>

fun dec_field :: "string \<Rightarrow> 'a decoder \<Rightarrow> members \<Rightarrow> 'a \<Rightarrow> 'a option" where
  "dec_field name dec [] cur = Some cur"
| "dec_field name dec ((k, v) # ms) cur =
     (if EqualFold k name
      then (case dec v cur of None \<Rightarrow> None | Some x \<Rightarrow> dec_field name dec ms x)
      else dec_field name dec ms cur)"

definition dec_struct :: "(members \<Rightarrow> 'a \<Rightarrow> 'a option) \<Rightarrow> 'a decoder" where
  "dec_struct fields v cur =
     (case v of JNull \<Rightarrow> Some cur | JObj ms \<Rightarrow> fields ms cur | _ \<Rightarrow> None)"

text \<open>A map: \<open>null\<close> gives the nil map, a repeated key takes its last value.\<close>

fun dec_entries :: "'a \<Rightarrow> 'a decoder \<Rightarrow> members \<Rightarrow> (string \<rightharpoonup> 'a) \<Rightarrow> (string \<rightharpoonup> 'a) option" where
  "dec_entries z dec [] m = Some m"
| "dec_entries z dec ((k, v) # ms) m =
     (case dec v z of None \<Rightarrow> None | Some x \<Rightarrow> dec_entries z dec ms (m(k \<mapsto> x)))"

fun dec_map :: "'a \<Rightarrow> 'a decoder \<Rightarrow> (string \<rightharpoonup> 'a) decoder" where
  "dec_map z dec JNull cur = Some Map.empty"
| "dec_map z dec (JObj ms) cur = dec_entries z dec ms cur"
| "dec_map z dec _ cur = None"

section \<open>Encoders\<close>

definition enc_int :: "int \<Rightarrow> json" where "enc_int i = JNum (itoa i)"

definition om_int :: "string \<Rightarrow> int \<Rightarrow> members" where
  "om_int name i = (if i = 0 then [] else [(name, enc_int i)])"

definition om_str :: "string \<Rightarrow> string \<Rightarrow> members" where
  "om_str name s = (if s = [] then [] else [(name, JStr s)])"

definition om_bool :: "string \<Rightarrow> bool \<Rightarrow> members" where
  "om_bool name b = (if b then [(name, JBool b)] else [])"

definition om_list :: "string \<Rightarrow> ('a \<Rightarrow> json) \<Rightarrow> 'a list \<Rightarrow> members" where
  "om_list name enc xs = (if xs = [] then [] else [(name, JArr (map enc xs))])"

definition om_ptr :: "string \<Rightarrow> ('a \<Rightarrow> json) \<Rightarrow> 'a option \<Rightarrow> members" where
  "om_ptr name enc p = (case p of None \<Rightarrow> [] | Some x \<Rightarrow> [(name, enc x)])"

section \<open>Codecs\<close>

text \<open>
  A codec: what encoding gives is JSON that the printer and the parser carry, it is never
  \<open>null\<close>, and decoding it into the zero value gives the value back.
\<close>

locale codec =
  fixes dom :: "'a \<Rightarrow> bool" and enc :: "'a \<Rightarrow> json" and z :: "'a" and dec :: "'a decoder"
  assumes enc_ok: "dom x \<Longrightarrow> json_ok (enc x)"
    and enc_not_null: "enc x \<noteq> JNull"
    and dec_enc: "dom x \<Longrightarrow> dec (enc x) z = Some x"
begin

lemma dec_all_enc: "\<forall>x \<in> set xs. dom x \<Longrightarrow> dec_all z dec (map enc xs) = Some xs"
  by (induction xs) (simp_all add: dec_enc)

lemma dec_list_enc: "\<forall>x \<in> set xs. dom x \<Longrightarrow> dec_list z dec (JArr (map enc xs)) cur = Some xs"
  by (simp add: dec_all_enc)

lemma dec_ptr_enc: "dom x \<Longrightarrow> dec_ptr z dec (enc x) None = Some (Some x)"
  by (simp add: dec_ptr_def enc_not_null dec_enc)

lemma text_roundtrip: "dom x \<Longrightarrow> (case parse_json (json_text (enc x)) of None \<Rightarrow> None | Some v \<Rightarrow> dec v z) = Some x"
  by (simp add: parse_json_text enc_ok dec_enc)

end

interpretation int_codec: codec int64_range enc_int 0 dec_int
  by unfold_locales (auto simp: enc_int_def)

interpretation str_codec: codec "\<lambda>_. True" JStr "[]" dec_str
  by unfold_locales auto

text \<open>How a field's decoder runs over the members an encoder of the sources makes.\<close>

lemma dec_field_append:
  "dec_field n dec (xs @ ys) cur =
   (case dec_field n dec xs cur of None \<Rightarrow> None | Some x \<Rightarrow> dec_field n dec ys x)"
  by (induction n dec xs cur rule: dec_field.induct) (auto split: option.splits)

named_theorems codec_simps \<open>decoding the members of an encoded struct, field by field\<close>

lemma dec_field_om_other [codec_simps]:
  assumes "\<not> EqualFold k n"
  shows "dec_field n dec (om_int k i) cur = Some cur" "dec_field n dec (om_str k s) cur = Some cur"
    "dec_field n dec (om_bool k b) cur = Some cur" "dec_field n dec (om_list k enc xs) cur = Some cur"
    "dec_field n dec (om_ptr k enc' p) cur = Some cur"
  using assms
  by (simp_all add: om_int_def om_str_def om_bool_def om_list_def om_ptr_def split: option.splits)

lemma EqualFold_refl [simp]: "EqualFold s s"
  by (simp add: EqualFold_def)

lemma dec_field_om_same [codec_simps]:
  "int64_range i \<Longrightarrow> dec_field n dec_int (om_int n i) 0 = Some i"
  "dec_field n dec_str (om_str n s) [] = Some s"
  "dec_field n dec_bool (om_bool n b) False = Some b"
  by (simp_all add: om_int_def om_str_def om_bool_def enc_int_def)

lemma dec_field_om_list:
  assumes "codec ok enc z dec" and "list_all ok xs"
  shows "dec_field n (dec_list z dec) (om_list n enc xs) [] = Some xs"
proof -
  have "dec_list z dec (JArr (map enc xs)) [] = Some xs"
    using assms by (intro codec.dec_list_enc) (auto simp: list_all_iff)
  then show ?thesis by (simp add: om_list_def)
qed

lemma dec_field_om_ptr:
  assumes "codec ok enc z dec" and "pred_option ok p"
  shows "dec_field n (dec_ptr z dec) (om_ptr n enc p) None = Some p"
proof (cases p)
  case (Some x)
  with assms(2) have "dec_ptr z dec (enc x) None = Some (Some x)"
    by (intro codec.dec_ptr_enc [OF assms(1)]) simp
  with Some show ?thesis by (simp add: om_ptr_def)
qed (simp add: om_ptr_def)

text \<open>Field names are compared without regard to case; the sources' names are in lower case.\<close>

lemma to_lower_letters [simp]:
  "to_lower (CHR ''_'') = CHR ''_''" "to_lower (CHR ''a'') = CHR ''a''" "to_lower (CHR ''b'') = CHR ''b''"
  "to_lower (CHR ''c'') = CHR ''c''" "to_lower (CHR ''d'') = CHR ''d''" "to_lower (CHR ''e'') = CHR ''e''"
  "to_lower (CHR ''f'') = CHR ''f''" "to_lower (CHR ''g'') = CHR ''g''" "to_lower (CHR ''h'') = CHR ''h''"
  "to_lower (CHR ''i'') = CHR ''i''" "to_lower (CHR ''j'') = CHR ''j''" "to_lower (CHR ''k'') = CHR ''k''"
  "to_lower (CHR ''l'') = CHR ''l''" "to_lower (CHR ''m'') = CHR ''m''" "to_lower (CHR ''n'') = CHR ''n''"
  "to_lower (CHR ''o'') = CHR ''o''" "to_lower (CHR ''p'') = CHR ''p''" "to_lower (CHR ''q'') = CHR ''q''"
  "to_lower (CHR ''r'') = CHR ''r''" "to_lower (CHR ''s'') = CHR ''s''" "to_lower (CHR ''t'') = CHR ''t''"
  "to_lower (CHR ''u'') = CHR ''u''" "to_lower (CHR ''v'') = CHR ''v''" "to_lower (CHR ''w'') = CHR ''w''"
  "to_lower (CHR ''x'') = CHR ''x''" "to_lower (CHR ''y'') = CHR ''y''" "to_lower (CHR ''z'') = CHR ''z''"
  by (simp_all add: to_lower_def)

lemma EqualFold_Cons [simp]: "EqualFold (c # s) (d # t) \<longleftrightarrow> to_lower c = to_lower d \<and> EqualFold s t"
  "EqualFold [] (d # t) \<longleftrightarrow> False" "EqualFold (c # s) [] \<longleftrightarrow> False"
  by (simp_all add: EqualFold_def)

named_theorems members_ok \<open>encoded members are printable\<close>

lemma json_ok_om [members_ok]:
  "(\<forall>m \<in> set (om_int n i). json_ok (snd m))" "(\<forall>m \<in> set (om_str n s). json_ok (snd m))"
  "(\<forall>m \<in> set (om_bool n b). json_ok (snd m))"
  by (auto simp: om_int_def om_str_def om_bool_def enc_int_def)

lemma json_ok_om_list:
  assumes "codec ok enc z dec" and "list_all ok xs"
  shows "\<forall>m \<in> set (om_list n enc xs). json_ok (snd m)"
  using assms codec.enc_ok [OF assms(1)] by (auto simp: om_list_def list_all_iff)

lemma json_ok_om_ptr:
  assumes "codec ok enc z dec" and "pred_option ok p"
  shows "\<forall>m \<in> set (om_ptr n enc p). json_ok (snd m)"
  using assms codec.enc_ok [OF assms(1)] by (cases p) (auto simp: om_ptr_def)

end
