(* ===== verification/Report_Json.thy ===== *)
theory Report_Json
  imports Json_Codec Violations "HOL-Library.Monad_Syntax"
begin

text \<open>
  The JSON form of \<open>Details\<close> and of everything in it (the \<open>json\<close> tags of
  \<open>internal/scraper/report.go\<close>), as \<open>SaveReports\<close> writes it to the column
  \<open>reports.details\<close> and \<open>scanTargetGroupWithReport\<close> reads it, and of \<open>LimitsConfig\<close> and the
  whitelist checks. For each struct: its zero value, the range its integers must be in, the
  encoder, the decoder, and the interpretation of \<open>codec\<close> that shows the two round-trip.
\<close>

definition zeroMetricNameViolation :: MetricNameViolation where
  "zeroMetricNameViolation = \<lparr>mn_MetricName = [], mn_Length = 0, mn_Whitelisted = False\<rparr>"

definition MetricNameViolation_ok :: "MetricNameViolation \<Rightarrow> bool" where
  "MetricNameViolation_ok v \<longleftrightarrow> int64_range (mn_Length v)"

definition encMetricNameViolation :: "MetricNameViolation \<Rightarrow> json" where
  "encMetricNameViolation v = JObj (
     om_str ''metric_name'' (mn_MetricName v) @
     om_int ''length'' (mn_Length v) @
     om_bool ''whitelisted'' (mn_Whitelisted v))"

definition fieldsMetricNameViolation :: "members \<Rightarrow> MetricNameViolation \<Rightarrow> MetricNameViolation option" where
  "fieldsMetricNameViolation ms v = do {
  x1 \<leftarrow> dec_field ''metric_name'' dec_str ms (mn_MetricName v);
  x2 \<leftarrow> dec_field ''length'' dec_int ms (mn_Length v);
  x3 \<leftarrow> dec_field ''whitelisted'' dec_bool ms (mn_Whitelisted v);
  Some \<lparr>mn_MetricName = x1, mn_Length = x2, mn_Whitelisted = x3\<rparr> }"

definition decMetricNameViolation :: "MetricNameViolation decoder" where
  "decMetricNameViolation = dec_struct fieldsMetricNameViolation"

interpretation MetricNameViolation_codec: codec MetricNameViolation_ok encMetricNameViolation zeroMetricNameViolation decMetricNameViolation
proof unfold_locales
  show "json_ok (encMetricNameViolation x)" if "MetricNameViolation_ok x" for x
    using that unfolding encMetricNameViolation_def MetricNameViolation_ok_def json_ok.simps set_append ball_Un
    by (intro conjI members_ok; simp)
  show "encMetricNameViolation x \<noteq> JNull" for x by (simp add: encMetricNameViolation_def)
  show "decMetricNameViolation (encMetricNameViolation x) zeroMetricNameViolation = Some x" if "MetricNameViolation_ok x" for x
    using that by (simp add: decMetricNameViolation_def dec_struct_def fieldsMetricNameViolation_def encMetricNameViolation_def MetricNameViolation_ok_def zeroMetricNameViolation_def codec_simps
        dec_field_append)
qed

lemmas MetricNameViolation_field [codec_simps] = dec_field_om_ptr [OF MetricNameViolation_codec.codec_axioms] dec_field_om_list [OF MetricNameViolation_codec.codec_axioms]

lemmas MetricNameViolation_members [members_ok] = json_ok_om_ptr [OF MetricNameViolation_codec.codec_axioms] json_ok_om_list [OF MetricNameViolation_codec.codec_axioms]

definition zeroLabelNameViolation :: LabelNameViolation where
  "zeroLabelNameViolation = \<lparr>ln_MetricName = [], ln_LabelName = [], ln_Length = 0, ln_Whitelisted = False\<rparr>"

definition LabelNameViolation_ok :: "LabelNameViolation \<Rightarrow> bool" where
  "LabelNameViolation_ok v \<longleftrightarrow> int64_range (ln_Length v)"

definition encLabelNameViolation :: "LabelNameViolation \<Rightarrow> json" where
  "encLabelNameViolation v = JObj (
     om_str ''metric_name'' (ln_MetricName v) @
     om_str ''label_name'' (ln_LabelName v) @
     om_int ''length'' (ln_Length v) @
     om_bool ''whitelisted'' (ln_Whitelisted v))"

definition fieldsLabelNameViolation :: "members \<Rightarrow> LabelNameViolation \<Rightarrow> LabelNameViolation option" where
  "fieldsLabelNameViolation ms v = do {
  x1 \<leftarrow> dec_field ''metric_name'' dec_str ms (ln_MetricName v);
  x2 \<leftarrow> dec_field ''label_name'' dec_str ms (ln_LabelName v);
  x3 \<leftarrow> dec_field ''length'' dec_int ms (ln_Length v);
  x4 \<leftarrow> dec_field ''whitelisted'' dec_bool ms (ln_Whitelisted v);
  Some \<lparr>ln_MetricName = x1, ln_LabelName = x2, ln_Length = x3, ln_Whitelisted = x4\<rparr> }"

definition decLabelNameViolation :: "LabelNameViolation decoder" where
  "decLabelNameViolation = dec_struct fieldsLabelNameViolation"

interpretation LabelNameViolation_codec: codec LabelNameViolation_ok encLabelNameViolation zeroLabelNameViolation decLabelNameViolation
proof unfold_locales
  show "json_ok (encLabelNameViolation x)" if "LabelNameViolation_ok x" for x
    using that unfolding encLabelNameViolation_def LabelNameViolation_ok_def json_ok.simps set_append ball_Un
    by (intro conjI members_ok; simp)
  show "encLabelNameViolation x \<noteq> JNull" for x by (simp add: encLabelNameViolation_def)
  show "decLabelNameViolation (encLabelNameViolation x) zeroLabelNameViolation = Some x" if "LabelNameViolation_ok x" for x
    using that by (simp add: decLabelNameViolation_def dec_struct_def fieldsLabelNameViolation_def encLabelNameViolation_def LabelNameViolation_ok_def zeroLabelNameViolation_def codec_simps
        dec_field_append)
qed

lemmas LabelNameViolation_field [codec_simps] = dec_field_om_ptr [OF LabelNameViolation_codec.codec_axioms] dec_field_om_list [OF LabelNameViolation_codec.codec_axioms]

lemmas LabelNameViolation_members [members_ok] = json_ok_om_ptr [OF LabelNameViolation_codec.codec_axioms] json_ok_om_list [OF LabelNameViolation_codec.codec_axioms]

definition zeroLabelValueViolation :: LabelValueViolation where
  "zeroLabelValueViolation = \<lparr>lv_MetricName = [], lv_LabelName = [], lv_Value = [], lv_Length = 0, lv_Whitelisted = False\<rparr>"

definition LabelValueViolation_ok :: "LabelValueViolation \<Rightarrow> bool" where
  "LabelValueViolation_ok v \<longleftrightarrow> int64_range (lv_Length v)"

definition encLabelValueViolation :: "LabelValueViolation \<Rightarrow> json" where
  "encLabelValueViolation v = JObj (
     om_str ''metric_name'' (lv_MetricName v) @
     om_str ''label_name'' (lv_LabelName v) @
     om_str ''value'' (lv_Value v) @
     om_int ''length'' (lv_Length v) @
     om_bool ''whitelisted'' (lv_Whitelisted v))"

definition fieldsLabelValueViolation :: "members \<Rightarrow> LabelValueViolation \<Rightarrow> LabelValueViolation option" where
  "fieldsLabelValueViolation ms v = do {
  x1 \<leftarrow> dec_field ''metric_name'' dec_str ms (lv_MetricName v);
  x2 \<leftarrow> dec_field ''label_name'' dec_str ms (lv_LabelName v);
  x3 \<leftarrow> dec_field ''value'' dec_str ms (lv_Value v);
  x4 \<leftarrow> dec_field ''length'' dec_int ms (lv_Length v);
  x5 \<leftarrow> dec_field ''whitelisted'' dec_bool ms (lv_Whitelisted v);
  Some \<lparr>lv_MetricName = x1, lv_LabelName = x2, lv_Value = x3, lv_Length = x4, lv_Whitelisted = x5\<rparr> }"

definition decLabelValueViolation :: "LabelValueViolation decoder" where
  "decLabelValueViolation = dec_struct fieldsLabelValueViolation"

interpretation LabelValueViolation_codec: codec LabelValueViolation_ok encLabelValueViolation zeroLabelValueViolation decLabelValueViolation
proof unfold_locales
  show "json_ok (encLabelValueViolation x)" if "LabelValueViolation_ok x" for x
    using that unfolding encLabelValueViolation_def LabelValueViolation_ok_def json_ok.simps set_append ball_Un
    by (intro conjI members_ok; simp)
  show "encLabelValueViolation x \<noteq> JNull" for x by (simp add: encLabelValueViolation_def)
  show "decLabelValueViolation (encLabelValueViolation x) zeroLabelValueViolation = Some x" if "LabelValueViolation_ok x" for x
    using that by (simp add: decLabelValueViolation_def dec_struct_def fieldsLabelValueViolation_def encLabelValueViolation_def LabelValueViolation_ok_def zeroLabelValueViolation_def codec_simps
        dec_field_append)
qed

lemmas LabelValueViolation_field [codec_simps] = dec_field_om_ptr [OF LabelValueViolation_codec.codec_axioms] dec_field_om_list [OF LabelValueViolation_codec.codec_axioms]

lemmas LabelValueViolation_members [members_ok] = json_ok_om_ptr [OF LabelValueViolation_codec.codec_axioms] json_ok_om_list [OF LabelValueViolation_codec.codec_axioms]

definition zeroCardinalityViolation :: CardinalityViolation where
  "zeroCardinalityViolation = \<lparr>cv_MetricName = [], cv_Value = 0, cv_Whitelisted = False\<rparr>"

definition CardinalityViolation_ok :: "CardinalityViolation \<Rightarrow> bool" where
  "CardinalityViolation_ok v \<longleftrightarrow> int64_range (cv_Value v)"

definition encCardinalityViolation :: "CardinalityViolation \<Rightarrow> json" where
  "encCardinalityViolation v = JObj (
     om_str ''metric_name'' (cv_MetricName v) @
     om_int ''value'' (cv_Value v) @
     om_bool ''whitelisted'' (cv_Whitelisted v))"

definition fieldsCardinalityViolation :: "members \<Rightarrow> CardinalityViolation \<Rightarrow> CardinalityViolation option" where
  "fieldsCardinalityViolation ms v = do {
  x1 \<leftarrow> dec_field ''metric_name'' dec_str ms (cv_MetricName v);
  x2 \<leftarrow> dec_field ''value'' dec_int ms (cv_Value v);
  x3 \<leftarrow> dec_field ''whitelisted'' dec_bool ms (cv_Whitelisted v);
  Some \<lparr>cv_MetricName = x1, cv_Value = x2, cv_Whitelisted = x3\<rparr> }"

definition decCardinalityViolation :: "CardinalityViolation decoder" where
  "decCardinalityViolation = dec_struct fieldsCardinalityViolation"

interpretation CardinalityViolation_codec: codec CardinalityViolation_ok encCardinalityViolation zeroCardinalityViolation decCardinalityViolation
proof unfold_locales
  show "json_ok (encCardinalityViolation x)" if "CardinalityViolation_ok x" for x
    using that unfolding encCardinalityViolation_def CardinalityViolation_ok_def json_ok.simps set_append ball_Un
    by (intro conjI members_ok; simp)
  show "encCardinalityViolation x \<noteq> JNull" for x by (simp add: encCardinalityViolation_def)
  show "decCardinalityViolation (encCardinalityViolation x) zeroCardinalityViolation = Some x" if "CardinalityViolation_ok x" for x
    using that by (simp add: decCardinalityViolation_def dec_struct_def fieldsCardinalityViolation_def encCardinalityViolation_def CardinalityViolation_ok_def zeroCardinalityViolation_def codec_simps
        dec_field_append)
qed

lemmas CardinalityViolation_field [codec_simps] = dec_field_om_ptr [OF CardinalityViolation_codec.codec_axioms] dec_field_om_list [OF CardinalityViolation_codec.codec_axioms]

lemmas CardinalityViolation_members [members_ok] = json_ok_om_ptr [OF CardinalityViolation_codec.codec_axioms] json_ok_om_list [OF CardinalityViolation_codec.codec_axioms]

definition zeroHistogramBucketsViolation :: HistogramBucketsViolation where
  "zeroHistogramBucketsViolation = \<lparr>hb_MetricName = [], hb_Buckets = 0, hb_Whitelisted = False\<rparr>"

definition HistogramBucketsViolation_ok :: "HistogramBucketsViolation \<Rightarrow> bool" where
  "HistogramBucketsViolation_ok v \<longleftrightarrow> int64_range (hb_Buckets v)"

definition encHistogramBucketsViolation :: "HistogramBucketsViolation \<Rightarrow> json" where
  "encHistogramBucketsViolation v = JObj (
     om_str ''metric_name'' (hb_MetricName v) @
     om_int ''buckets'' (hb_Buckets v) @
     om_bool ''whitelisted'' (hb_Whitelisted v))"

definition fieldsHistogramBucketsViolation :: "members \<Rightarrow> HistogramBucketsViolation \<Rightarrow> HistogramBucketsViolation option" where
  "fieldsHistogramBucketsViolation ms v = do {
  x1 \<leftarrow> dec_field ''metric_name'' dec_str ms (hb_MetricName v);
  x2 \<leftarrow> dec_field ''buckets'' dec_int ms (hb_Buckets v);
  x3 \<leftarrow> dec_field ''whitelisted'' dec_bool ms (hb_Whitelisted v);
  Some \<lparr>hb_MetricName = x1, hb_Buckets = x2, hb_Whitelisted = x3\<rparr> }"

definition decHistogramBucketsViolation :: "HistogramBucketsViolation decoder" where
  "decHistogramBucketsViolation = dec_struct fieldsHistogramBucketsViolation"

interpretation HistogramBucketsViolation_codec: codec HistogramBucketsViolation_ok encHistogramBucketsViolation zeroHistogramBucketsViolation decHistogramBucketsViolation
proof unfold_locales
  show "json_ok (encHistogramBucketsViolation x)" if "HistogramBucketsViolation_ok x" for x
    using that unfolding encHistogramBucketsViolation_def HistogramBucketsViolation_ok_def json_ok.simps set_append ball_Un
    by (intro conjI members_ok; simp)
  show "encHistogramBucketsViolation x \<noteq> JNull" for x by (simp add: encHistogramBucketsViolation_def)
  show "decHistogramBucketsViolation (encHistogramBucketsViolation x) zeroHistogramBucketsViolation = Some x" if "HistogramBucketsViolation_ok x" for x
    using that by (simp add: decHistogramBucketsViolation_def dec_struct_def fieldsHistogramBucketsViolation_def encHistogramBucketsViolation_def HistogramBucketsViolation_ok_def zeroHistogramBucketsViolation_def codec_simps
        dec_field_append)
qed

lemmas HistogramBucketsViolation_field [codec_simps] = dec_field_om_ptr [OF HistogramBucketsViolation_codec.codec_axioms] dec_field_om_list [OF HistogramBucketsViolation_codec.codec_axioms]

lemmas HistogramBucketsViolation_members [members_ok] = json_ok_om_ptr [OF HistogramBucketsViolation_codec.codec_axioms] json_ok_om_list [OF HistogramBucketsViolation_codec.codec_axioms]

definition zeroCheckResult :: CheckResult where
  "zeroCheckResult = \<lparr>chk_Type = [], chk_Limit = 0, chk_Current = 0, chk_Violated = False, chk_Whitelisted = False\<rparr>"

definition CheckResult_ok :: "CheckResult \<Rightarrow> bool" where
  "CheckResult_ok v \<longleftrightarrow> int64_range (chk_Limit v) \<and>
     int64_range (chk_Current v)"

definition encCheckResult :: "CheckResult \<Rightarrow> json" where
  "encCheckResult v = JObj (
     om_str ''type'' (chk_Type v) @
     om_int ''limit'' (chk_Limit v) @
     om_int ''current'' (chk_Current v) @
     om_bool ''violated'' (chk_Violated v) @
     om_bool ''whitelisted'' (chk_Whitelisted v))"

definition fieldsCheckResult :: "members \<Rightarrow> CheckResult \<Rightarrow> CheckResult option" where
  "fieldsCheckResult ms v = do {
  x1 \<leftarrow> dec_field ''type'' dec_str ms (chk_Type v);
  x2 \<leftarrow> dec_field ''limit'' dec_int ms (chk_Limit v);
  x3 \<leftarrow> dec_field ''current'' dec_int ms (chk_Current v);
  x4 \<leftarrow> dec_field ''violated'' dec_bool ms (chk_Violated v);
  x5 \<leftarrow> dec_field ''whitelisted'' dec_bool ms (chk_Whitelisted v);
  Some \<lparr>chk_Type = x1, chk_Limit = x2, chk_Current = x3, chk_Violated = x4, chk_Whitelisted = x5\<rparr> }"

definition decCheckResult :: "CheckResult decoder" where
  "decCheckResult = dec_struct fieldsCheckResult"

interpretation CheckResult_codec: codec CheckResult_ok encCheckResult zeroCheckResult decCheckResult
proof unfold_locales
  show "json_ok (encCheckResult x)" if "CheckResult_ok x" for x
    using that unfolding encCheckResult_def CheckResult_ok_def json_ok.simps set_append ball_Un
    by (intro conjI members_ok; simp)
  show "encCheckResult x \<noteq> JNull" for x by (simp add: encCheckResult_def)
  show "decCheckResult (encCheckResult x) zeroCheckResult = Some x" if "CheckResult_ok x" for x
    using that by (simp add: decCheckResult_def dec_struct_def fieldsCheckResult_def encCheckResult_def CheckResult_ok_def zeroCheckResult_def codec_simps
        dec_field_append)
qed

lemmas CheckResult_field [codec_simps] = dec_field_om_ptr [OF CheckResult_codec.codec_axioms] dec_field_om_list [OF CheckResult_codec.codec_axioms]

lemmas CheckResult_members [members_ok] = json_ok_om_ptr [OF CheckResult_codec.codec_axioms] json_ok_om_list [OF CheckResult_codec.codec_axioms]

definition zeroCheckLimits :: CheckLimits where
  "zeroCheckLimits = \<lparr>cl_MetricNameLength = 0, cl_LabelNameLength = 0, cl_LabelValueLength = 0, cl_Cardinality = 0, cl_HistogramBuckets = 0, cl_ResponseWeight = 0\<rparr>"

definition CheckLimits_ok :: "CheckLimits \<Rightarrow> bool" where
  "CheckLimits_ok v \<longleftrightarrow> int64_range (cl_MetricNameLength v) \<and>
     int64_range (cl_LabelNameLength v) \<and>
     int64_range (cl_LabelValueLength v) \<and>
     int64_range (cl_Cardinality v) \<and>
     int64_range (cl_HistogramBuckets v) \<and>
     int64_range (cl_ResponseWeight v)"

definition encCheckLimits :: "CheckLimits \<Rightarrow> json" where
  "encCheckLimits v = JObj (
     om_int ''metric_name_length'' (cl_MetricNameLength v) @
     om_int ''label_name_length'' (cl_LabelNameLength v) @
     om_int ''label_value_length'' (cl_LabelValueLength v) @
     om_int ''cardinality'' (cl_Cardinality v) @
     om_int ''histogram_buckets'' (cl_HistogramBuckets v) @
     om_int ''response_weight'' (cl_ResponseWeight v))"

definition fieldsCheckLimits :: "members \<Rightarrow> CheckLimits \<Rightarrow> CheckLimits option" where
  "fieldsCheckLimits ms v = do {
  x1 \<leftarrow> dec_field ''metric_name_length'' dec_int ms (cl_MetricNameLength v);
  x2 \<leftarrow> dec_field ''label_name_length'' dec_int ms (cl_LabelNameLength v);
  x3 \<leftarrow> dec_field ''label_value_length'' dec_int ms (cl_LabelValueLength v);
  x4 \<leftarrow> dec_field ''cardinality'' dec_int ms (cl_Cardinality v);
  x5 \<leftarrow> dec_field ''histogram_buckets'' dec_int ms (cl_HistogramBuckets v);
  x6 \<leftarrow> dec_field ''response_weight'' dec_int ms (cl_ResponseWeight v);
  Some \<lparr>cl_MetricNameLength = x1, cl_LabelNameLength = x2, cl_LabelValueLength = x3, cl_Cardinality = x4, cl_HistogramBuckets = x5, cl_ResponseWeight = x6\<rparr> }"

definition decCheckLimits :: "CheckLimits decoder" where
  "decCheckLimits = dec_struct fieldsCheckLimits"

interpretation CheckLimits_codec: codec CheckLimits_ok encCheckLimits zeroCheckLimits decCheckLimits
proof unfold_locales
  show "json_ok (encCheckLimits x)" if "CheckLimits_ok x" for x
    using that unfolding encCheckLimits_def CheckLimits_ok_def json_ok.simps set_append ball_Un
    by (intro conjI members_ok; simp)
  show "encCheckLimits x \<noteq> JNull" for x by (simp add: encCheckLimits_def)
  show "decCheckLimits (encCheckLimits x) zeroCheckLimits = Some x" if "CheckLimits_ok x" for x
    using that by (simp add: decCheckLimits_def dec_struct_def fieldsCheckLimits_def encCheckLimits_def CheckLimits_ok_def zeroCheckLimits_def codec_simps
        dec_field_append)
qed

lemmas CheckLimits_field [codec_simps] = dec_field_om_ptr [OF CheckLimits_codec.codec_axioms] dec_field_om_list [OF CheckLimits_codec.codec_axioms]

lemmas CheckLimits_members [members_ok] = json_ok_om_ptr [OF CheckLimits_codec.codec_axioms] json_ok_om_list [OF CheckLimits_codec.codec_axioms]

definition zeroCheckCurrent :: CheckCurrent where
  "zeroCheckCurrent = \<lparr>cc_MetricNameLength = 0, cc_LabelNameLength = 0, cc_LabelValueLength = 0, cc_Cardinality = 0, cc_HistogramBuckets = 0, cc_ResponseWeight = 0\<rparr>"

definition CheckCurrent_ok :: "CheckCurrent \<Rightarrow> bool" where
  "CheckCurrent_ok v \<longleftrightarrow> int64_range (cc_MetricNameLength v) \<and>
     int64_range (cc_LabelNameLength v) \<and>
     int64_range (cc_LabelValueLength v) \<and>
     int64_range (cc_Cardinality v) \<and>
     int64_range (cc_HistogramBuckets v) \<and>
     int64_range (cc_ResponseWeight v)"

definition encCheckCurrent :: "CheckCurrent \<Rightarrow> json" where
  "encCheckCurrent v = JObj (
     om_int ''metric_name_length'' (cc_MetricNameLength v) @
     om_int ''label_name_length'' (cc_LabelNameLength v) @
     om_int ''label_value_length'' (cc_LabelValueLength v) @
     om_int ''cardinality'' (cc_Cardinality v) @
     om_int ''histogram_buckets'' (cc_HistogramBuckets v) @
     om_int ''response_weight'' (cc_ResponseWeight v))"

definition fieldsCheckCurrent :: "members \<Rightarrow> CheckCurrent \<Rightarrow> CheckCurrent option" where
  "fieldsCheckCurrent ms v = do {
  x1 \<leftarrow> dec_field ''metric_name_length'' dec_int ms (cc_MetricNameLength v);
  x2 \<leftarrow> dec_field ''label_name_length'' dec_int ms (cc_LabelNameLength v);
  x3 \<leftarrow> dec_field ''label_value_length'' dec_int ms (cc_LabelValueLength v);
  x4 \<leftarrow> dec_field ''cardinality'' dec_int ms (cc_Cardinality v);
  x5 \<leftarrow> dec_field ''histogram_buckets'' dec_int ms (cc_HistogramBuckets v);
  x6 \<leftarrow> dec_field ''response_weight'' dec_int ms (cc_ResponseWeight v);
  Some \<lparr>cc_MetricNameLength = x1, cc_LabelNameLength = x2, cc_LabelValueLength = x3, cc_Cardinality = x4, cc_HistogramBuckets = x5, cc_ResponseWeight = x6\<rparr> }"

definition decCheckCurrent :: "CheckCurrent decoder" where
  "decCheckCurrent = dec_struct fieldsCheckCurrent"

interpretation CheckCurrent_codec: codec CheckCurrent_ok encCheckCurrent zeroCheckCurrent decCheckCurrent
proof unfold_locales
  show "json_ok (encCheckCurrent x)" if "CheckCurrent_ok x" for x
    using that unfolding encCheckCurrent_def CheckCurrent_ok_def json_ok.simps set_append ball_Un
    by (intro conjI members_ok; simp)
  show "encCheckCurrent x \<noteq> JNull" for x by (simp add: encCheckCurrent_def)
  show "decCheckCurrent (encCheckCurrent x) zeroCheckCurrent = Some x" if "CheckCurrent_ok x" for x
    using that by (simp add: decCheckCurrent_def dec_struct_def fieldsCheckCurrent_def encCheckCurrent_def CheckCurrent_ok_def zeroCheckCurrent_def codec_simps
        dec_field_append)
qed

lemmas CheckCurrent_field [codec_simps] = dec_field_om_ptr [OF CheckCurrent_codec.codec_axioms] dec_field_om_list [OF CheckCurrent_codec.codec_axioms]

lemmas CheckCurrent_members [members_ok] = json_ok_om_ptr [OF CheckCurrent_codec.codec_axioms] json_ok_om_list [OF CheckCurrent_codec.codec_axioms]

definition MaxStats_ok :: "MaxStats \<Rightarrow> bool" where
  "MaxStats_ok v \<longleftrightarrow> pred_option MetricNameViolation_ok (mx_MetricNameTooLong v) \<and>
     pred_option LabelNameViolation_ok (mx_LabelNameTooLong v) \<and>
     pred_option LabelValueViolation_ok (mx_LabelValueTooLong v) \<and>
     pred_option CardinalityViolation_ok (mx_Cardinality v) \<and>
     pred_option HistogramBucketsViolation_ok (mx_HistogramBuckets v)"

definition encMaxStats :: "MaxStats \<Rightarrow> json" where
  "encMaxStats v = JObj (
     om_ptr ''metric_name_too_long'' encMetricNameViolation (mx_MetricNameTooLong v) @
     om_ptr ''label_name_too_long'' encLabelNameViolation (mx_LabelNameTooLong v) @
     om_ptr ''label_value_too_long'' encLabelValueViolation (mx_LabelValueTooLong v) @
     om_ptr ''cardinality'' encCardinalityViolation (mx_Cardinality v) @
     om_ptr ''histogram_buckets'' encHistogramBucketsViolation (mx_HistogramBuckets v))"

definition fieldsMaxStats :: "members \<Rightarrow> MaxStats \<Rightarrow> MaxStats option" where
  "fieldsMaxStats ms v = do {
  x1 \<leftarrow> dec_field ''metric_name_too_long'' (dec_ptr zeroMetricNameViolation decMetricNameViolation) ms (mx_MetricNameTooLong v);
  x2 \<leftarrow> dec_field ''label_name_too_long'' (dec_ptr zeroLabelNameViolation decLabelNameViolation) ms (mx_LabelNameTooLong v);
  x3 \<leftarrow> dec_field ''label_value_too_long'' (dec_ptr zeroLabelValueViolation decLabelValueViolation) ms (mx_LabelValueTooLong v);
  x4 \<leftarrow> dec_field ''cardinality'' (dec_ptr zeroCardinalityViolation decCardinalityViolation) ms (mx_Cardinality v);
  x5 \<leftarrow> dec_field ''histogram_buckets'' (dec_ptr zeroHistogramBucketsViolation decHistogramBucketsViolation) ms (mx_HistogramBuckets v);
  Some \<lparr>mx_MetricNameTooLong = x1, mx_LabelNameTooLong = x2, mx_LabelValueTooLong = x3, mx_Cardinality = x4, mx_HistogramBuckets = x5\<rparr> }"

definition decMaxStats :: "MaxStats decoder" where
  "decMaxStats = dec_struct fieldsMaxStats"

interpretation MaxStats_codec: codec MaxStats_ok encMaxStats zeroMaxStats decMaxStats
proof unfold_locales
  show "json_ok (encMaxStats x)" if "MaxStats_ok x" for x
    using that unfolding encMaxStats_def MaxStats_ok_def json_ok.simps set_append ball_Un
    by (intro conjI members_ok; simp)
  show "encMaxStats x \<noteq> JNull" for x by (simp add: encMaxStats_def)
  show "decMaxStats (encMaxStats x) zeroMaxStats = Some x" if "MaxStats_ok x" for x
    using that by (simp add: decMaxStats_def dec_struct_def fieldsMaxStats_def encMaxStats_def MaxStats_ok_def zeroMaxStats_def codec_simps
        dec_field_append)
qed

lemmas MaxStats_field [codec_simps] = dec_field_om_ptr [OF MaxStats_codec.codec_axioms] dec_field_om_list [OF MaxStats_codec.codec_axioms]

lemmas MaxStats_members [members_ok] = json_ok_om_ptr [OF MaxStats_codec.codec_axioms] json_ok_om_list [OF MaxStats_codec.codec_axioms]

definition Details_fits :: "Details \<Rightarrow> bool" where
  "Details_fits v \<longleftrightarrow> list_all MetricNameViolation_ok (d_MetricNameTooLong v) \<and>
     list_all LabelNameViolation_ok (d_LabelNameTooLong v) \<and>
     list_all LabelValueViolation_ok (d_LabelValueTooLong v) \<and>
     list_all CardinalityViolation_ok (d_Cardinality v) \<and>
     list_all HistogramBucketsViolation_ok (d_HistogramBuckets v) \<and>
     list_all CheckResult_ok (d_Checks v) \<and>
     pred_option MaxStats_ok (d_Max v) \<and>
     pred_option CheckLimits_ok (d_Limits v) \<and>
     pred_option CheckCurrent_ok (d_Current v) \<and>
     int64_range (d_ResponseWeight v)"

definition encDetails :: "Details \<Rightarrow> json" where
  "encDetails v = JObj (
     om_list ''metric_name_too_long'' encMetricNameViolation (d_MetricNameTooLong v) @
     om_list ''label_name_too_long'' encLabelNameViolation (d_LabelNameTooLong v) @
     om_list ''label_value_too_long'' encLabelValueViolation (d_LabelValueTooLong v) @
     om_list ''cardinality'' encCardinalityViolation (d_Cardinality v) @
     om_list ''histogram_buckets'' encHistogramBucketsViolation (d_HistogramBuckets v) @
     om_list ''checks'' encCheckResult (d_Checks v) @
     om_ptr ''max'' encMaxStats (d_Max v) @
     om_ptr ''limits'' encCheckLimits (d_Limits v) @
     om_ptr ''current'' encCheckCurrent (d_Current v) @
     om_int ''response_weight'' (d_ResponseWeight v))"

definition fieldsDetails :: "members \<Rightarrow> Details \<Rightarrow> Details option" where
  "fieldsDetails ms v = do {
  x1 \<leftarrow> dec_field ''metric_name_too_long'' (dec_list zeroMetricNameViolation decMetricNameViolation) ms (d_MetricNameTooLong v);
  x2 \<leftarrow> dec_field ''label_name_too_long'' (dec_list zeroLabelNameViolation decLabelNameViolation) ms (d_LabelNameTooLong v);
  x3 \<leftarrow> dec_field ''label_value_too_long'' (dec_list zeroLabelValueViolation decLabelValueViolation) ms (d_LabelValueTooLong v);
  x4 \<leftarrow> dec_field ''cardinality'' (dec_list zeroCardinalityViolation decCardinalityViolation) ms (d_Cardinality v);
  x5 \<leftarrow> dec_field ''histogram_buckets'' (dec_list zeroHistogramBucketsViolation decHistogramBucketsViolation) ms (d_HistogramBuckets v);
  x6 \<leftarrow> dec_field ''checks'' (dec_list zeroCheckResult decCheckResult) ms (d_Checks v);
  x7 \<leftarrow> dec_field ''max'' (dec_ptr zeroMaxStats decMaxStats) ms (d_Max v);
  x8 \<leftarrow> dec_field ''limits'' (dec_ptr zeroCheckLimits decCheckLimits) ms (d_Limits v);
  x9 \<leftarrow> dec_field ''current'' (dec_ptr zeroCheckCurrent decCheckCurrent) ms (d_Current v);
  x10 \<leftarrow> dec_field ''response_weight'' dec_int ms (d_ResponseWeight v);
  Some \<lparr>d_MetricNameTooLong = x1, d_LabelNameTooLong = x2, d_LabelValueTooLong = x3, d_Cardinality = x4, d_HistogramBuckets = x5, d_Checks = x6, d_Max = x7, d_Limits = x8, d_Current = x9, d_ResponseWeight = x10\<rparr> }"

definition decDetails :: "Details decoder" where
  "decDetails = dec_struct fieldsDetails"

interpretation Details_codec: codec Details_fits encDetails zeroDetails decDetails
proof unfold_locales
  show "json_ok (encDetails x)" if "Details_fits x" for x
    using that unfolding encDetails_def Details_fits_def json_ok.simps set_append ball_Un
    by (intro conjI members_ok; simp)
  show "encDetails x \<noteq> JNull" for x by (simp add: encDetails_def)
  show "decDetails (encDetails x) zeroDetails = Some x" if "Details_fits x" for x
    using that by (simp add: decDetails_def dec_struct_def fieldsDetails_def encDetails_def Details_fits_def zeroDetails_def codec_simps
        dec_field_append)
qed

text \<open>\<open>json.Marshal(report.Details)\<close> and \<open>json.Unmarshal(detailsRawJSON, &item.Details)\<close>.\<close>

definition marshalDetails :: "Details \<Rightarrow> string" where
  "marshalDetails d = json_text (encDetails d)"

definition errUnmarshal :: goerr where "errUnmarshal = ErrNew ''json''"

definition unmarshal :: "'a decoder \<Rightarrow> string \<Rightarrow> 'a \<Rightarrow> 'a result" where
  "unmarshal dec text cur =
     (case parse_json text of
        None \<Rightarrow> Inl errUnmarshal
      | Some v \<Rightarrow> (case dec v cur of None \<Rightarrow> Inl errUnmarshal | Some x \<Rightarrow> Inr x))"

lemma unmarshal_enc:
  assumes "codec ok enc z dec" and "ok x"
  shows "unmarshal dec (json_text (enc x)) z = Inr x"
  using assms codec.enc_ok [OF assms] codec.dec_enc [OF assms]
  by (simp add: unmarshal_def parse_json_text)

lemma unmarshal_marshalDetails: "Details_fits d \<Longrightarrow> unmarshal decDetails (marshalDetails d) zeroDetails = Inr d"
  unfolding marshalDetails_def by (rule unmarshal_enc [OF Details_codec.codec_axioms])

section \<open>Limits\<close>

text \<open>\<open>LimitsConfig\<close> has no \<open>omitempty\<close>: every member is written.\<close>

definition zeroLimitsConfig :: LimitsConfig where
  "zeroLimitsConfig = \<lparr>MaxMetricNameLen = 0, MaxLabelNameLen = 0, MaxLabelValueLen = 0,
     MaxMetricCardinality = 0, MaxHistogramBuckets = 0, MaxBytesWeight = 0\<rparr>"

definition LimitsConfig_fits :: "LimitsConfig \<Rightarrow> bool" where
  "LimitsConfig_fits v \<longleftrightarrow> int64_range (MaxMetricNameLen v) \<and> int64_range (MaxLabelNameLen v) \<and>
     int64_range (MaxLabelValueLen v) \<and> int64_range (MaxMetricCardinality v) \<and>
     int64_range (MaxHistogramBuckets v) \<and> int64_range (MaxBytesWeight v)"

definition encLimitsConfig :: "LimitsConfig \<Rightarrow> json" where
  "encLimitsConfig v = JObj
     [(''max_metric_name_len'', enc_int (MaxMetricNameLen v)),
      (''max_label_name_len'', enc_int (MaxLabelNameLen v)),
      (''max_label_value_len'', enc_int (MaxLabelValueLen v)),
      (''max_metric_cardinality'', enc_int (MaxMetricCardinality v)),
      (''max_histogram_buckets'', enc_int (MaxHistogramBuckets v)),
      (''max_bytes_weight'', enc_int (MaxBytesWeight v))]"

definition fieldsLimitsConfig :: "members \<Rightarrow> LimitsConfig \<Rightarrow> LimitsConfig option" where
  "fieldsLimitsConfig ms v = do {
  x1 \<leftarrow> dec_field ''max_metric_name_len'' dec_int ms (MaxMetricNameLen v);
  x2 \<leftarrow> dec_field ''max_label_name_len'' dec_int ms (MaxLabelNameLen v);
  x3 \<leftarrow> dec_field ''max_label_value_len'' dec_int ms (MaxLabelValueLen v);
  x4 \<leftarrow> dec_field ''max_metric_cardinality'' dec_int ms (MaxMetricCardinality v);
  x5 \<leftarrow> dec_field ''max_histogram_buckets'' dec_int ms (MaxHistogramBuckets v);
  x6 \<leftarrow> dec_field ''max_bytes_weight'' dec_int ms (MaxBytesWeight v);
  Some \<lparr>MaxMetricNameLen = x1, MaxLabelNameLen = x2, MaxLabelValueLen = x3,
     MaxMetricCardinality = x4, MaxHistogramBuckets = x5, MaxBytesWeight = x6\<rparr> }"

definition decLimitsConfig :: "LimitsConfig decoder" where
  "decLimitsConfig = dec_struct fieldsLimitsConfig"

interpretation LimitsConfig_codec: codec LimitsConfig_fits encLimitsConfig zeroLimitsConfig decLimitsConfig
proof unfold_locales
  show "json_ok (encLimitsConfig x)" for x
    by (auto simp: encLimitsConfig_def enc_int_def)
  show "encLimitsConfig x \<noteq> JNull" for x by (simp add: encLimitsConfig_def)
  show "decLimitsConfig (encLimitsConfig x) zeroLimitsConfig = Some x" if "LimitsConfig_fits x" for x
    using that by (simp add: decLimitsConfig_def dec_struct_def fieldsLimitsConfig_def encLimitsConfig_def
        LimitsConfig_fits_def enc_int_def)
qed

definition marshalLimits :: "LimitsConfig \<Rightarrow> string" where
  "marshalLimits l = json_text (encLimitsConfig l)"

lemma unmarshal_marshalLimits:
  "LimitsConfig_fits l \<Longrightarrow> unmarshal decLimitsConfig (marshalLimits l) zeroLimitsConfig = Inr l"
  unfolding marshalLimits_def by (rule unmarshal_enc [OF LimitsConfig_codec.codec_axioms])

section \<open>Maps and slices of checks\<close>

text \<open>\<open>json.Marshal\<close> of a map writes its keys in order.\<close>

definition encIntMap :: "(string \<rightharpoonup> int) \<Rightarrow> json" where
  "encIntMap m = JObj (map (\<lambda>k. (k, enc_int (the (m k)))) (sorted_list_of_set (dom m)))"

lemma dec_entries_map:
  assumes "\<forall>k \<in> set ks. int64_range (f k)"
  shows "dec_entries 0 dec_int (map (\<lambda>k. (k, enc_int (f k))) ks) m =
         Some (m ++ (\<lambda>k. if k \<in> set ks then Some (f k) else None))"
  using assms
proof (induction ks arbitrary: m)
  case (Cons k ks)
  then show ?case
    by (auto simp: enc_int_def map_add_def fun_eq_iff split: option.splits)
qed (simp add: map_add_def)

lemma unmarshal_IntMap:
  assumes "finite (dom m)" and "\<forall>v \<in> ran m. int64_range v"
  shows "unmarshal (dec_map 0 dec_int) (json_text (encIntMap m)) Map.empty = Inr m"
proof -
  have ok: "json_ok (encIntMap m)" by (auto simp: encIntMap_def enc_int_def)
  have "\<forall>k \<in> set (sorted_list_of_set (dom m)). int64_range (the (m k))"
    using assms by (auto simp: ran_def)
  from dec_entries_map [OF this, of Map.empty]
  have "dec_map 0 dec_int (encIntMap m) Map.empty = Some m"
    using assms(1) by (auto simp: encIntMap_def fun_eq_iff map_add_def dom_def split: option.splits)
  then show ?thesis using ok by (simp add: unmarshal_def parse_json_text)
qed

definition encStrList :: "string list \<Rightarrow> json" where
  "encStrList xs = JArr (map JStr xs)"

lemma unmarshal_StrList: "unmarshal (dec_list [] dec_str) (json_text (encStrList xs)) [] = Inr xs"
proof -
  have "json_ok (encStrList xs)" by (auto simp: encStrList_def)
  moreover have "dec_list [] dec_str (encStrList xs) [] = Some xs"
    using str_codec.dec_list_enc [of xs "[]"] by (simp add: encStrList_def)
  ultimately show ?thesis by (simp add: unmarshal_def parse_json_text)
qed

end
