(* ===== verification/Reports.thy ===== *)
theory Reports
  imports Outbox Report_Json
begin

text \<open>
  Saving the reports of a batch with the violation events they cause, in one transaction
  (\<open>internal/storage/postgres/reports.go\<close>). \<open>proto.Marshal\<close> and \<open>uuid.NewString\<close> are
  parameters; the latter is indexed by the report and the check it is called for.
\<close>

section \<open>Operations\<close>

datatype ViolationType =
    VIOLATION_TYPE_UNSPECIFIED
  | VIOLATION_TYPE_METRIC_NAME_LENGTH
  | VIOLATION_TYPE_LABEL_NAME_LENGTH
  | VIOLATION_TYPE_LABEL_VALUE_LENGTH
  | VIOLATION_TYPE_CARDINALITY
  | VIOLATION_TYPE_HISTOGRAM_BUCKETS
  | VIOLATION_TYPE_RESPONSE_WEIGHT

definition mapCheckType :: "CheckType \<Rightarrow> ViolationType" where
  "mapCheckType checkType =
     (if checkType = CheckTypeMetricNameLength then VIOLATION_TYPE_METRIC_NAME_LENGTH
      else if checkType = CheckTypeLabelNameLength then VIOLATION_TYPE_LABEL_NAME_LENGTH
      else if checkType = CheckTypeLabelValueLength then VIOLATION_TYPE_LABEL_VALUE_LENGTH
      else if checkType = CheckTypeCardinality then VIOLATION_TYPE_CARDINALITY
      else if checkType = CheckTypeHistogramBuckets then VIOLATION_TYPE_HISTOGRAM_BUCKETS
      else if checkType = CheckTypeResponseWeight then VIOLATION_TYPE_RESPONSE_WEIGHT
      else VIOLATION_TYPE_UNSPECIFIED)"

record ServiceViolationFact =
  vf_TargetGroup :: string
  vf_Env :: string
  vf_Cluster :: string
  vf_TeamName :: string
  vf_ViolationType :: ViolationType
  vf_Limit :: int
  vf_CurrentValue :: int
  vf_Violated :: bool
  vf_CheckedAt :: int

definition violationFact :: "Report \<Rightarrow> int \<Rightarrow> CheckResult \<Rightarrow> ServiceViolationFact" where
  "violationFact report createdAt check =
     \<lparr>vf_TargetGroup = rep_TargetGroup report, vf_Env = rep_Env report, vf_Cluster = rep_Cluster report,
      vf_TeamName = rep_TeamName report, vf_ViolationType = mapCheckType (chk_Type check),
      vf_Limit = chk_Limit check, vf_CurrentValue = chk_Current check, vf_Violated = chk_Violated check,
      vf_CheckedAt = createdAt\<rparr>"

type_synonym proto_marshal = "ServiceViolationFact \<Rightarrow> string result"

fun violationEvents ::
  "Storage \<Rightarrow> proto_marshal \<Rightarrow> (nat \<Rightarrow> string) \<Rightarrow> Report \<Rightarrow> int \<Rightarrow> nat \<Rightarrow> CheckResult list \<Rightarrow>
   outboxEvent list \<Rightarrow> outboxEvent list result" where
  "violationEvents s protoMarshal newUUID report createdAt i [] events = Inr events"
| "violationEvents s protoMarshal newUUID report createdAt i (check # checks) events =
     (if \<not> chk_Violated check \<or> chk_Whitelisted check
      then violationEvents s protoMarshal newUUID report createdAt (Suc i) checks events
      else case protoMarshal (violationFact report createdAt check) of
             Inl e \<Rightarrow> Inl e
           | Inr payload \<Rightarrow>
               violationEvents s protoMarshal newUUID report createdAt (Suc i) checks
                 (events @ [\<lparr>ev_Topic = outboxTopic s, ev_Key = newUUID i, ev_Body = payload,
                             ev_CreatedAt = createdAt\<rparr>]))"

definition buildViolationOutboxEvents ::
  "Storage \<Rightarrow> proto_marshal \<Rightarrow> (nat \<Rightarrow> string) \<Rightarrow> Report \<Rightarrow> int \<Rightarrow> outboxEvent list result" where
  "buildViolationOutboxEvents s protoMarshal newUUID report createdAt =
     violationEvents s protoMarshal newUUID report createdAt 0 (rep_Checks report) []"

text \<open>\<open>INSERT ... ON CONFLICT (target_group, env, cluster) DO UPDATE\<close>.\<close>

definition report_key :: "ReportRow \<Rightarrow> string \<times> string \<times> string" where
  "report_key r = (rr_target_group r, rr_env r, rr_cluster r)"

definition reportRow :: "Report \<Rightarrow> int \<Rightarrow> ReportRow" where
  "reportRow report createdAt =
     \<lparr>rr_target_group = rep_TargetGroup report, rr_env = rep_Env report, rr_cluster = rep_Cluster report,
      rr_team_name = rep_TeamName report, rr_details = marshalDetails (rep_Details report),
      rr_created_at = createdAt\<rparr>"

definition mergeReport :: "ReportRow \<Rightarrow> ReportRow \<Rightarrow> ReportRow" where
  "mergeReport old excluded = old\<lparr>rr_team_name := rr_team_name excluded, rr_details := rr_details excluded,
     rr_created_at := rr_created_at excluded\<rparr>"

definition saveReport :: "ReportRow \<Rightarrow> DB \<Rightarrow> DB" where
  "saveReport row db = db\<lparr>db_reports := upsert report_key mergeReport row (db_reports db)\<rparr>"

fun saveReportsLoop ::
  "Link \<Rightarrow> Storage \<Rightarrow> proto_marshal \<Rightarrow> (nat \<Rightarrow> nat \<Rightarrow> string) \<Rightarrow> int \<Rightarrow> nat \<Rightarrow> nat \<Rightarrow> Report list \<Rightarrow> DB \<Rightarrow>
   unit result \<times> DB" where
  "saveReportsLoop lk s protoMarshal newUUID createdAt i n [] db = (Inr (), db)"
| "saveReportsLoop lk s protoMarshal newUUID createdAt i n (report # reports) db =
     (case lk_exec lk n of
        Some e \<Rightarrow> (Inl e, db)
      | None \<Rightarrow>
          (let db = saveReport (reportRow report createdAt) db in
           case buildViolationOutboxEvents s protoMarshal (newUUID i) report createdAt of
             Inl e \<Rightarrow> (Inl e, db)
           | Inr events \<Rightarrow>
               (case enqueueOutboxEvents lk events (Suc n) db of
                  (Inl e, n, db) \<Rightarrow> (Inl e, db)
                | (Inr _, n, db) \<Rightarrow> saveReportsLoop lk s protoMarshal newUUID createdAt (Suc i) n reports db)))"

definition SaveReports ::
  "Link \<Rightarrow> Storage \<Rightarrow> proto_marshal \<Rightarrow> (nat \<Rightarrow> nat \<Rightarrow> string) \<Rightarrow> int \<Rightarrow> Report list \<Rightarrow> DB \<Rightarrow> unit result \<times> DB" where
  "SaveReports lk s protoMarshal newUUID createdAt reports db =
     (if reports = [] then (Inr (), db)
      else case lk_acquire lk of
        Some e \<Rightarrow> (Inl e, db)
      | None \<Rightarrow>
          (case lk_begin lk of
             Some e \<Rightarrow> (Inl e, db)
           | None \<Rightarrow>
               (case saveReportsLoop lk s protoMarshal newUUID createdAt 0 0 reports db of
                  (Inl e, working) \<Rightarrow> (Inl e, rollback db working)
                | (Inr _, working) \<Rightarrow> finish (lk_end lk) db working)))"

section \<open>What is saved\<close>

text \<open>The checks that raise an event, with the position the key is drawn for.\<close>

definition reported_checks :: "Report \<Rightarrow> (nat \<times> CheckResult) list" where
  "reported_checks report =
     filter (\<lambda>(i, c). chk_Violated c \<and> \<not> chk_Whitelisted c) (enumerate 0 (rep_Checks report))"

definition event_of :: "Storage \<Rightarrow> proto_marshal \<Rightarrow> (nat \<Rightarrow> string) \<Rightarrow> Report \<Rightarrow> int \<Rightarrow> nat \<times> CheckResult \<Rightarrow> outboxEvent result" where
  "event_of s pm uid report createdAt ic =
     (case pm (violationFact report createdAt (snd ic)) of
        Inl e \<Rightarrow> Inl e
      | Inr payload \<Rightarrow> Inr \<lparr>ev_Topic = outboxTopic s, ev_Key = uid (fst ic), ev_Body = payload, ev_CreatedAt = createdAt\<rparr>)"

lemma violationEvents_mapM:
  "violationEvents s pm uid report t i checks events =
   (case mapM (event_of s pm uid report t)
      (filter (\<lambda>(i, c). chk_Violated c \<and> \<not> chk_Whitelisted c) (enumerate i checks)) of
      Inl e \<Rightarrow> Inl e | Inr evs \<Rightarrow> Inr (events @ evs))"
  by (induction s pm uid report t i checks events rule: violationEvents.induct)
    (auto simp: event_of_def split: sum.splits)

text \<open>
  The events built for a report are one for each check that is violated and not whitelisted,
  in the order of the checks, each carrying the report's identity and the check's values; the
  only failure is that of the serializer, on the first such check it refuses.
\<close>

lemma buildViolationOutboxEvents_mapM:
  "buildViolationOutboxEvents s pm uid report t = mapM (event_of s pm uid report t) (reported_checks report)"
  unfolding buildViolationOutboxEvents_def violationEvents_mapM reported_checks_def
  by (simp split: sum.splits)

section \<open>All or nothing\<close>

definition batch_events ::
  "Storage \<Rightarrow> proto_marshal \<Rightarrow> (nat \<Rightarrow> nat \<Rightarrow> string) \<Rightarrow> int \<Rightarrow> nat \<Rightarrow> Report list \<Rightarrow> outboxEvent list list result" where
  "batch_events s pm uid t i reports =
     mapM (\<lambda>(i, report). mapM (event_of s pm (uid i) report t) (reported_checks report)) (enumerate i reports)"

definition outboxRow :: "int \<Rightarrow> outboxEvent \<Rightarrow> OutboxRow" where
  "outboxRow i ev = \<lparr>ob_id = i, ob_topic = ev_Topic ev, ob_event_key = ev_Key ev, ob_event_body = ev_Body ev,
     ob_status = OutboxStatusPending, ob_retry_count = 0, ob_last_error = [], ob_created_at = ev_CreatedAt ev,
     ob_updated_at = ev_CreatedAt ev\<rparr>"

definition outboxRows :: "int \<Rightarrow> outboxEvent list \<Rightarrow> OutboxRow list" where
  "outboxRows seq evs = map (\<lambda>(k, ev). outboxRow (seq + int k) ev) (enumerate 0 evs)"

definition saved_rows :: "int \<Rightarrow> Report list \<Rightarrow> ReportRow list \<Rightarrow> ReportRow list" where
  "saved_rows t reports rows =
     foldl (\<lambda>rows report. upsert report_key mergeReport (reportRow report t) rows) rows reports"

definition saved ::
  "Storage \<Rightarrow> proto_marshal \<Rightarrow> (nat \<Rightarrow> nat \<Rightarrow> string) \<Rightarrow> int \<Rightarrow> nat \<Rightarrow> Report list \<Rightarrow> DB \<Rightarrow> DB \<Rightarrow> bool" where
  "saved s pm uid t i reports db db' \<longleftrightarrow>
     (case batch_events s pm uid t i reports of
        Inl _ \<Rightarrow> False
      | Inr evss \<Rightarrow>
          db_outbox db' = db_outbox db @ outboxRows (db_outbox_seq db) (concat evss) \<and>
          db_outbox_seq db' = db_outbox_seq db + int (length (concat evss)) \<and>
          db_reports db' = saved_rows t reports (db_reports db) \<and>
          other_tables db' = other_tables db)"

lemma outboxRows_append: "outboxRows n (xs @ ys) = outboxRows n xs @ outboxRows (n + int (length xs)) ys"
proof -
  have "map (\<lambda>(k, ev). outboxRow (n + int k) ev) (enumerate (length xs) ys) =
      map (\<lambda>(k, ev). outboxRow (n + int (length xs) + int k) ev) (enumerate 0 ys)"
    by (rule nth_equalityI) (auto simp: nth_enumerate_eq add.assoc)
  then show ?thesis by (simp add: outboxRows_def enumerate_append_eq)
qed

lemma enqueue_saves:
  "enqueueOutboxEvents lk events n db = (Inr u, n', db') \<Longrightarrow>
   db' = db\<lparr>db_outbox := db_outbox db @ outboxRows (db_outbox_seq db) events,
            db_outbox_seq := db_outbox_seq db + int (length events)\<rparr>"
proof (induction events arbitrary: n db)
  case (Cons ev events)
  let ?db = "saveOutboxMessage ev db"
  from Cons.prems have "enqueueOutboxEvents lk events (Suc n) ?db = (Inr u, n', db')"
    by (auto split: option.splits)
  from Cons.IH [OF this] show ?case
    using outboxRows_append [of "db_outbox_seq db" "[ev]" events]
    by (simp add: saveOutboxMessage_def outboxRows_def outboxRow_def)
qed (simp add: outboxRows_def)

lemma saveReportsLoop_saves:
  "saveReportsLoop lk s pm uid t i n reports db = (Inr u, db') \<Longrightarrow> saved s pm uid t i reports db db'"
proof (induction reports arbitrary: i n db)
  case (Cons report reports)
  let ?db = "saveReport (reportRow report t) db"
  from Cons.prems obtain events n1 db1 where
    ev: "mapM (event_of s pm (uid i) report t) (reported_checks report) = Inr events"
    and en: "enqueueOutboxEvents lk events (Suc n) ?db = (Inr (), n1, db1)"
    and rest: "saveReportsLoop lk s pm uid t (Suc i) n1 reports db1 = (Inr u, db')"
    by (auto simp: buildViolationOutboxEvents_mapM Let_def split: option.splits sum.splits prod.splits)
  from Cons.IH [OF rest] enqueue_saves [OF en] ev show ?case
    by (auto simp: saved_def batch_events_def saved_rows_def saveReport_def outboxRows_append other_tables_def
        split: sum.splits)
qed (simp add: saved_def batch_events_def saved_rows_def outboxRows_def)

lemma SaveReports_all_or_nothing:
  "case SaveReports lk s protoMarshal newUUID createdAt reports db of
     (Inr _, db') \<Rightarrow> saved s protoMarshal newUUID createdAt 0 reports db db'
   | (Inl e, db') \<Rightarrow> tables db' = tables db \<or>
       (lk_end lk = Lost e \<and> saved s protoMarshal newUUID createdAt 0 reports db db')"
proof (cases "reports = []")
  case True
  then show ?thesis
    by (simp add: SaveReports_def saved_def batch_events_def saved_rows_def outboxRows_def)
next
  case False
  obtain r db1 where loop: "saveReportsLoop lk s protoMarshal newUUID createdAt 0 0 reports db = (r, db1)"
    by force
  show ?thesis
  proof (cases r)
    case (Inl e)
    with False loop show ?thesis by (simp add: SaveReports_def split: option.splits)
  next
    case (Inr u)
    with saveReportsLoop_saves loop have "saved s protoMarshal newUUID createdAt 0 reports db db1" by blast
    with False loop Inr show ?thesis
      by (cases "lk_end lk") (auto simp: SaveReports_def split: option.splits)
  qed
qed

lemma SaveReports_saved:
  "SaveReports lk s pm uid t reports db = (Inr u, db') \<Longrightarrow> saved s pm uid t 0 reports db db'"
  using SaveReports_all_or_nothing [where lk = lk and s = s and protoMarshal = pm and newUUID = uid
      and createdAt = t and reports = reports and db = db] by simp

text \<open>
  C5. \<open>SaveReports\<close> is all or nothing: it reports success only when every report has been
  upserted and every event of every report is in the outbox, pending; and when it fails the tables are
  as they were, except when the error is the loss of the connection during the commit: then either
  nothing or everything is saved.
\<close>

theorem SaveReports_atomic:
  "case SaveReports lk s protoMarshal newUUID createdAt reports db of
     (Inr _, db') \<Rightarrow> saved s protoMarshal newUUID createdAt 0 reports db db'
   | (Inl e, db') \<Rightarrow> tables db' = tables db \<or>
       (lk_end lk = Lost e \<and> saved s protoMarshal newUUID createdAt 0 reports db db')"
  by (rule SaveReports_all_or_nothing)

section \<open>One row per target group, environment and cluster\<close>

interpretation reports: keyed_table report_key mergeReport
  by unfold_locales (simp add: report_key_def mergeReport_def)

lemma mergeReport_new: "report_key old = report_key new \<Longrightarrow> mergeReport old new = new"
  by (simp add: report_key_def mergeReport_def)

lemma saved_rows_upserts:
  "saved_rows t reports rows = foldl (\<lambda>rows row. upsert report_key mergeReport row rows) rows (map (\<lambda>r. reportRow r t) reports)"
  unfolding saved_rows_def by (induction reports arbitrary: rows) auto

lemma saved_rows_unique: "reports.unique_rows rows \<Longrightarrow> reports.unique_rows (saved_rows t reports rows)"
  unfolding saved_rows_upserts
  by (rule foldl_invariant [where I = reports.unique_rows]) (auto intro: reports.upsert_unique)

lemma saved_report_found:
  assumes "reports.unique_rows rows" and "report \<in> set reports"
    and "\<And>report'. report' \<in> set reports \<Longrightarrow> report_key (reportRow report' t) = report_key (reportRow report t)
           \<Longrightarrow> report' = report"
  shows "reports.rows_at (report_key (reportRow report t)) (saved_rows t reports rows) = [reportRow report t]"
  unfolding saved_rows_upserts
  using assms by (intro reports.upsert_all_last mergeReport_new) auto

end
