(* ===== verification/Task_Storage.thy ===== *)
theory Task_Storage
  imports Outbox
begin

text \<open>
  Sending batches with retries (\<open>sendBatch\<close> of \<open>postgres.go\<close>) and the table of scrape tasks
  (\<open>internal/storage/postgres/scrape_task.go\<close>).

  \<open>sendBatch\<close> repeats as long as the server reports a deadlock, so it may never return: it is a
  \<open>partial_function (option)\<close> over the attempts the environment makes of it, and
  \<open>sendBatch_returns\<close> says exactly when it does return.
\<close>

section \<open>Batches\<close>

text \<open>
  An error of the driver, with the SQLSTATE code when it is a \<open>PgError\<close>. One attempt: the
  result of each \<open>cmd.Exec\<close>, and whether an error that is not the server's came after the batch
  had taken effect. A batch runs as one transaction, so an error of the server undoes all of it.
\<close>

record DbErr =
  pg_code :: "string option"
  db_err :: goerr

record Attempt =
  at_exec :: "nat \<Rightarrow> DbErr option"
  at_lost :: bool

datatype batch_result = BatchOk | BatchRetry goerr | BatchPermanent goerr

text \<open>The loop \<open>for countOpts > 0\<close>; \<open>i\<close> is the number of results read.\<close>

fun readResults :: "(nat \<Rightarrow> DbErr option) \<Rightarrow> nat \<Rightarrow> nat \<Rightarrow> batch_result" where
  "readResults ex i 0 = BatchOk"
| "readResults ex i (Suc countOpts) =
     (case ex i of
        None \<Rightarrow> readResults ex (Suc i) countOpts
      | Some err \<Rightarrow> if pg_code err = Some errCodeDeadlock then BatchRetry (db_err err)
                    else BatchPermanent (db_err err))"

text \<open>The result: the error, if any, and whether the batch has taken effect.\<close>

partial_function (option) sendBatch ::
  "(nat \<Rightarrow> Attempt) \<Rightarrow> nat \<Rightarrow> nat \<Rightarrow> (goerr option \<times> bool) option" where
  "sendBatch attempts len k =
     (case readResults (at_exec (attempts k)) 0 len of
        BatchOk \<Rightarrow> Some (None, True)
      | BatchPermanent e \<Rightarrow> Some (Some e, at_lost (attempts k))
      | BatchRetry e \<Rightarrow> sendBatch attempts len (Suc k))"

declare sendBatch.simps [code]

definition retries :: "(nat \<Rightarrow> Attempt) \<Rightarrow> nat \<Rightarrow> nat \<Rightarrow> bool" where
  "retries attempts len k \<longleftrightarrow>
     (case readResults (at_exec (attempts k)) 0 len of BatchRetry _ \<Rightarrow> True | _ \<Rightarrow> False)"

text \<open>
  The loop both savers share: fill a batch up to \<open>rowsPerBatch\<close> rows or the end of the input,
  send it, start the next. \<open>save\<close> is the statement queued for one item; \<open>b\<close> numbers the
  batches. A batch that fails leaves its sequence numbers used.
\<close>

definition apply_batch :: "('a \<Rightarrow> DB \<Rightarrow> DB) \<Rightarrow> 'a list \<Rightarrow> DB \<Rightarrow> DB" where
  "apply_batch save batch db = foldl (\<lambda>db x. save x db) db batch"

fun saveInBatches ::
  "('a \<Rightarrow> DB \<Rightarrow> DB) \<Rightarrow> (nat \<Rightarrow> nat \<Rightarrow> Attempt) \<Rightarrow> nat \<Rightarrow> nat \<Rightarrow> nat \<Rightarrow> 'a list \<Rightarrow> 'a list \<Rightarrow> DB \<Rightarrow>
   (unit result \<times> DB) option" where
  "saveInBatches save attempts len b queued batch [] db = Some (Inr (), db)"
| "saveInBatches save attempts len b queued batch (x # xs) db =
     (let batch = batch @ [x]; queued = Suc queued in
      if length batch \<ge> rowsPerBatch \<or> queued = len then
        (case sendBatch (attempts b) (length batch) 0 of
           None \<Rightarrow> None
         | Some (err, applied) \<Rightarrow>
             (let db' = (if applied then apply_batch save batch db else rollback db (apply_batch save batch db)) in
              case err of
                Some e \<Rightarrow> Some (Inl e, db')
              | None \<Rightarrow> saveInBatches save attempts len (Suc b) queued [] xs db'))
      else saveInBatches save attempts len b queued batch xs db)"

section \<open>Scrape tasks\<close>

definition scrapeTaskCleanupRetention :: int where "scrapeTaskCleanupRetention = 24 * 60 * minute"

definition cleanupScrapeTasks :: "int \<Rightarrow> DB \<Rightarrow> DB" where
  "cleanupScrapeTasks before db =
     db\<lparr>db_scrape_tasks := filter (\<lambda>t. \<not> (st_Status t \<noteq> TaskStatusPending \<and> st_CreatedAt t < before)) (db_scrape_tasks db)\<rparr>"

definition saveScrapeTask :: "ScrapeTask \<Rightarrow> DB \<Rightarrow> DB" where
  "saveScrapeTask task db =
     db\<lparr>db_scrape_tasks := db_scrape_tasks db @ [task\<lparr>st_ID := db_scrape_tasks_seq db\<rparr>],
        db_scrape_tasks_seq := db_scrape_tasks_seq db + 1\<rparr>"

definition SaveScrapeTasks ::
  "Link \<Rightarrow> (nat \<Rightarrow> nat \<Rightarrow> Attempt) \<Rightarrow> int \<Rightarrow> ScrapeTask list \<Rightarrow> DB \<Rightarrow> (unit result \<times> DB) option" where
  "SaveScrapeTasks lk attempts now tasks db =
     (case exec lk (cleanupScrapeTasks (now - scrapeTaskCleanupRetention)) db of
        (Inl e, db) \<Rightarrow> Some (Inl e, db)
      | (Inr _, db) \<Rightarrow>
          if tasks = [] then Some (Inr (), db)
          else saveInBatches saveScrapeTask attempts (length tasks) 0 0 [] tasks db)"

definition picked_tasks :: "int set \<Rightarrow> nat \<Rightarrow> ScrapeTask list \<Rightarrow> ScrapeTask list" where
  "picked_tasks locked limit rows =
     take limit (sort_key st_CreatedAt
       (filter (\<lambda>t. st_Status t = TaskStatusPending \<and> st_ID t \<notin> locked) rows))"

definition start_task :: "int set \<Rightarrow> ScrapeTask \<Rightarrow> ScrapeTask" where
  "start_task ids t = (if st_ID t \<in> ids then t\<lparr>st_Status := TaskStatusRunning\<rparr> else t)"

definition getScrapeTasks_stmt ::
  "int set \<Rightarrow> (int \<Rightarrow> nat) \<Rightarrow> int \<Rightarrow> DB \<Rightarrow> ScrapeTask list result \<times> DB" where
  "getScrapeTasks_stmt locked rank limit db =
     (let picked = st_ID ` set (picked_tasks locked (nat limit) (db_scrape_tasks db));
          rows = map (start_task picked) (db_scrape_tasks db)
      in (Inr (sort_key (\<lambda>t. rank (st_ID t)) (filter (\<lambda>t. st_ID t \<in> picked) rows)),
          db\<lparr>db_scrape_tasks := rows\<rparr>))"

definition GetScrapeTasks ::
  "Link \<Rightarrow> int set \<Rightarrow> (int \<Rightarrow> nat) \<Rightarrow> int \<Rightarrow> DB \<Rightarrow> ScrapeTask list result \<times> DB" where
  "GetScrapeTasks lk locked rank limit db = query lk (getScrapeTasks_stmt locked rank limit) db"

record TaskStatusUpdate =
  tu_ID :: int
  tu_Status :: TaskStatus

text \<open>
  \<open>UPDATE ... FROM (SELECT UNNEST ...)\<close>: when several updates name a row the server uses one
  of them; \<open>pref\<close> says which.
\<close>

definition updated_status :: "(int \<Rightarrow> nat) \<Rightarrow> TaskStatusUpdate list \<Rightarrow> ScrapeTask \<Rightarrow> TaskStatus" where
  "updated_status pref updates t =
     (case filter (\<lambda>u. tu_ID u = st_ID t) updates of
        [] \<Rightarrow> st_Status t
      | us \<Rightarrow> tu_Status (us ! (pref (st_ID t) mod length us)))"

definition UpdateTaskStatuses ::
  "Link \<Rightarrow> (int \<Rightarrow> nat) \<Rightarrow> TaskStatusUpdate list \<Rightarrow> DB \<Rightarrow> unit result \<times> DB" where
  "UpdateTaskStatuses lk pref updates db =
     (if updates = [] then (Inr (), db)
      else exec lk (\<lambda>db. db\<lparr>db_scrape_tasks := map (\<lambda>t. t\<lparr>st_Status := updated_status pref updates t\<rparr>) (db_scrape_tasks db)\<rparr>) db)"

section \<open>When a batch is sent\<close>

lemma sendBatch_skip:
  assumes "\<forall>j. k \<le> j \<longrightarrow> j < m \<longrightarrow> retries attempts len j" and "k \<le> m"
  shows "sendBatch attempts len k = sendBatch attempts len m"
  using assms(2,1)
proof (induction rule: inc_induct)
  case (step n)
  then have "retries attempts len n" by simp
  then have "sendBatch attempts len n = sendBatch attempts len (Suc n)"
    by (subst sendBatch.simps) (auto simp: retries_def split: batch_result.splits)
  with step show ?case by simp
qed simp

lemma sendBatch_stop:
  assumes "\<not> retries attempts len m"
  shows "sendBatch attempts len m =
    (case readResults (at_exec (attempts m)) 0 len of
       BatchPermanent e \<Rightarrow> Some (Some e, at_lost (attempts m)) | _ \<Rightarrow> Some (None, True))"
  using assms by (subst sendBatch.simps) (auto simp: retries_def split: batch_result.splits)

lemma sendBatch_first:
  assumes "\<not> retries attempts len m" and "k \<le> m"
    and "\<forall>j. k \<le> j \<longrightarrow> j < m \<longrightarrow> retries attempts len j"
  shows "sendBatch attempts len k =
    (case readResults (at_exec (attempts m)) 0 len of
       BatchPermanent e \<Rightarrow> Some (Some e, at_lost (attempts m)) | _ \<Rightarrow> Some (None, True))"
  using sendBatch_skip [OF assms(3,2)] sendBatch_stop [OF assms(1)] by simp

text \<open>A batch that always deadlocks: by fixpoint induction, no result is ever produced.\<close>

lemma sendBatch_result:
  assumes "sendBatch attempts len k = Some r"
  shows "\<exists>m \<ge> k. \<not> retries attempts len m"
proof (rule sendBatch.raw_induct [OF _ assms])
  fix sb :: "(nat \<Rightarrow> Attempt) \<Rightarrow> nat \<Rightarrow> nat \<Rightarrow> (goerr option \<times> bool) option"
    and attempts :: "nat \<Rightarrow> Attempt" and len k r
  assume IH: "\<And>attempts len k r. sb attempts len k = Some r \<Longrightarrow> \<exists>m \<ge> k. \<not> retries attempts len m"
    and r: "(case readResults (at_exec (attempts k)) 0 len of BatchOk \<Rightarrow> Some (None, True)
      | BatchRetry e \<Rightarrow> sb attempts len (Suc k) | BatchPermanent e \<Rightarrow> Some (Some e, at_lost (attempts k))) = Some r"
  show "\<exists>m \<ge> k. \<not> retries attempts len m"
  proof (cases "readResults (at_exec (attempts k)) 0 len")
    case (BatchRetry e)
    with r IH [of attempts len "Suc k" r] have "\<exists>m \<ge> Suc k. \<not> retries attempts len m" by auto
    then show ?thesis using Suc_leD by blast
  qed (auto simp: retries_def)
qed

lemma sendBatch_value:
  "sendBatch attempts len 0 =
    (if \<exists>m. \<not> retries attempts len m
     then (let m = LEAST m. \<not> retries attempts len m in
           case readResults (at_exec (attempts m)) 0 len of
             BatchPermanent e \<Rightarrow> Some (Some e, at_lost (attempts m)) | _ \<Rightarrow> Some (None, True))
     else None)"
proof (cases "\<exists>m. \<not> retries attempts len m")
  case True
  let ?m = "LEAST m. \<not> retries attempts len m"
  have "\<not> retries attempts len ?m" using True by (rule LeastI_ex)
  moreover have "\<forall>j. 0 \<le> j \<longrightarrow> j < ?m \<longrightarrow> retries attempts len j" using not_less_Least by blast
  ultimately show ?thesis
    unfolding if_P [OF True] Let_def by (rule sendBatch_first [OF _ le0])
next
  case False
  then have "sendBatch attempts len 0 \<noteq> Some r" for r using sendBatch_result by blast
  then show ?thesis unfolding if_not_P [OF False] by (meson not_None_eq)
qed

text \<open>
  C30. \<open>sendBatch\<close> returns exactly when some attempt does not end in a deadlock, and then with
  the result of the first such attempt: no error and the batch applied, or that attempt's error.
\<close>

theorem sendBatch_returns:
  "sendBatch attempts len 0 =
    (if \<exists>m. \<not> retries attempts len m
     then (let m = LEAST m. \<not> retries attempts len m in
           case readResults (at_exec (attempts m)) 0 len of
             BatchPermanent e \<Rightarrow> Some (Some e, at_lost (attempts m)) | _ \<Rightarrow> Some (None, True))
     else None)"
  by (rule sendBatch_value)

section \<open>What the savers save\<close>

text \<open>Statements whose effect does not depend on the sequences left over by a failed batch, up to \<open>obs\<close>.\<close>

lemma apply_batch_append: "apply_batch save (xs @ ys) db = apply_batch save ys (apply_batch save xs db)"
  by (simp add: apply_batch_def)

lemma saveInBatches_prefix:
  assumes "saveInBatches save attempts (k + length xs) b k batch xs db = Some (r, db')"
    and "batch = [] \<or> xs \<noteq> []" and "length batch < rowsPerBatch"
  shows "\<exists>n \<le> length (batch @ xs). tables db' = tables (apply_batch save (take n (batch @ xs)) db) \<and>
     (isOk r \<longrightarrow> db' = apply_batch save (batch @ xs) db) \<and> (n = length (batch @ xs) \<or> rowsPerBatch dvd n)"
  using assms
proof (induction xs arbitrary: k b batch db)
  case Nil
  then show ?case by (intro exI [of _ 0]) (auto simp: apply_batch_def)
next
  case (Cons x xs)
  let ?batch = "batch @ [x]"
  show ?case
  proof (cases "length ?batch \<ge> rowsPerBatch \<or> xs = []")
    case False
    then have "saveInBatches save attempts (Suc k + length xs) b (Suc k) ?batch xs db = Some (r, db')"
      using Cons.prems(1) by (auto simp: Let_def)
    from Cons.IH [OF this] False show ?thesis by auto
  next
    case True
    from True Cons.prems obtain err applied where send: "sendBatch (attempts b) (length ?batch) 0 = Some (err, applied)"
      by (cases "sendBatch (attempts b) (length ?batch) 0") (auto simp: Let_def split: if_splits)
    define db1 where "db1 = (if applied then apply_batch save ?batch db else rollback db (apply_batch save ?batch db))"
    have flush: "length ?batch \<ge> rowsPerBatch \<or> Suc k = k + length (x # xs)" using True by auto
    show ?thesis
    proof (cases err)
      case (Some e)
      with Cons.prems(1) send flush have "r = Inl e" "db' = db1"
        by (auto simp: Let_def db1_def)
      moreover have "length ?batch = length (batch @ x # xs) \<or> rowsPerBatch dvd length ?batch"
        using True Cons.prems(3) by (auto simp: not_less_eq_eq intro: dvd_refl) (metis Suc_leI dvd_refl le_antisym)
      moreover have "take (length ?batch) (batch @ x # xs) = ?batch" by simp
      ultimately show ?thesis
        by (cases applied) (auto simp: db1_def apply_batch_def intro: exI [of _ "length ?batch"] exI [of _ 0])
    next
      case None
      with send sendBatch_value [of "attempts b" "length ?batch"] have applied
        by (auto simp: Let_def split: if_splits batch_result.splits)
      then have db1: "db1 = apply_batch save ?batch db" by (simp add: db1_def)
      have rest: "saveInBatches save attempts (Suc k + length xs) (Suc b) (Suc k) [] xs db1 = Some (r, db')"
        using Cons.prems(1) send flush None by (auto simp: Let_def db1_def)
      from Cons.IH [OF this] obtain n where n: "n \<le> length xs"
        "tables db' = tables (apply_batch save (take n xs) db1)" "isOk r \<longrightarrow> db' = apply_batch save xs db1"
        "n = length xs \<or> rowsPerBatch dvd n" by (auto simp: rowsPerBatch_def)
      have "length ?batch + n = length (batch @ x # xs) \<or> rowsPerBatch dvd (length ?batch + n)"
        using n True Cons.prems(3) by (cases "length ?batch = rowsPerBatch") auto
      moreover have "take (length ?batch + n) (batch @ x # xs) = ?batch @ take n xs" by simp
      ultimately show ?thesis
        using n by (intro exI [of _ "length ?batch + n"]) (auto simp: db1 apply_batch_def)
    qed
  qed
qed

lemma saveInBatches_returns:
  assumes "\<And>b len. \<exists>m. \<not> retries (attempts b) len m"
  shows "\<exists>r db'. saveInBatches save attempts len b k batch xs db = Some (r, db')"
proof (induction xs arbitrary: b k batch db)
  case (Cons x xs)
  have "sendBatch (attempts b) n 0 \<noteq> None" for n
    unfolding sendBatch_value using assms by (auto simp: Let_def split: batch_result.splits)
  then obtain err applied where "sendBatch (attempts b) (length (batch @ [x])) 0 = Some (err, applied)" by force
  with Cons.IH show ?case by (cases err) (simp_all add: Let_def)
qed simp

definition numbered :: "int \<Rightarrow> ScrapeTask list \<Rightarrow> ScrapeTask list" where
  "numbered seq tasks = map (\<lambda>(i, t). t\<lparr>st_ID := seq + int i\<rparr>) (enumerate 0 tasks)"

lemma apply_saveScrapeTask:
  "apply_batch saveScrapeTask tasks db =
   db\<lparr>db_scrape_tasks := db_scrape_tasks db @ numbered (db_scrape_tasks_seq db) tasks,
      db_scrape_tasks_seq := db_scrape_tasks_seq db + int (length tasks)\<rparr>"
proof (induction tasks rule: rev_induct)
  case (snoc t tasks)
  then show ?case
    by (simp add: apply_batch_def saveScrapeTask_def numbered_def enumerate_append_eq)
qed (simp add: apply_batch_def numbered_def)

definition kept_tasks :: "int \<Rightarrow> ScrapeTask list \<Rightarrow> ScrapeTask list" where
  "kept_tasks now rows =
     filter (\<lambda>t. st_Status t = TaskStatusPending \<or> now - scrapeTaskCleanupRetention \<le> st_CreatedAt t) rows"

lemma cleanup_keeps: "db_scrape_tasks (cleanupScrapeTasks (now - scrapeTaskCleanupRetention) db) = kept_tasks now (db_scrape_tasks db)"
  by (auto simp: cleanupScrapeTasks_def kept_tasks_def intro: filter_cong)

text \<open>
  C32. When no batch deadlocks forever, \<open>SaveScrapeTasks\<close> returns. On success the table holds
  the rows that were pending or at most a day old, followed by all new tasks in order under fresh
  ids. On failure the new tasks are there up to a whole number of batches: no task is saved while
  one before it is missing.
\<close>

theorem SaveScrapeTasks_saves:
  assumes "\<And>b len. \<exists>m. \<not> retries (attempts b) len m"
  shows "case SaveScrapeTasks lk attempts now tasks db of
      None \<Rightarrow> False
    | Some (Inr _, db') \<Rightarrow> db_scrape_tasks db' =
        kept_tasks now (db_scrape_tasks db) @ numbered (db_scrape_tasks_seq db) tasks
    | Some (Inl _, db') \<Rightarrow>
        db_scrape_tasks db' = db_scrape_tasks db \<or>
        (\<exists>n. (n = length tasks \<or> rowsPerBatch dvd n) \<and> db_scrape_tasks db' =
          kept_tasks now (db_scrape_tasks db) @ numbered (db_scrape_tasks_seq db) (take n tasks))"
proof -
  let ?clean = "cleanupScrapeTasks (now - scrapeTaskCleanupRetention)"
  have seq: "db_scrape_tasks_seq (?clean db) = db_scrape_tasks_seq db" by (simp add: cleanupScrapeTasks_def)
  show ?thesis
  proof (cases "fst (exec lk ?clean db)")
    case (Inl e)
    have "db_scrape_tasks (snd (exec lk ?clean db)) \<in> {db_scrape_tasks db, db_scrape_tasks (?clean db)}"
      by (rule exec_invariant) auto
    with Inl show ?thesis
      by (auto simp: SaveScrapeTasks_def cleanup_keeps numbered_def split: prod.splits intro!: exI [of _ 0])
  next
    case (Inr u)
    then have ex: "exec lk ?clean db = (Inr u, ?clean db)" by (metis exec_Inr prod.collapse)
    obtain r db' where res: "SaveScrapeTasks lk attempts now tasks db = Some (r, db')"
      using saveInBatches_returns [where attempts = attempts and save = saveScrapeTask and len = "length tasks"
          and b = 0 and k = 0 and batch = "[]" and xs = tasks and db = "?clean db", OF assms] ex by (cases "tasks = []") (auto simp: SaveScrapeTasks_def)
    have "\<exists>n \<le> length tasks. tables db' = tables (apply_batch saveScrapeTask (take n tasks) (?clean db)) \<and>
        (isOk r \<longrightarrow> db' = apply_batch saveScrapeTask tasks (?clean db)) \<and> (n = length tasks \<or> rowsPerBatch dvd n)"
    proof (cases "tasks = []")
      case True
      with res ex show ?thesis by (auto simp: SaveScrapeTasks_def apply_batch_def)
    next
      case False
      with res ex have "saveInBatches saveScrapeTask attempts (0 + length tasks) 0 0 [] tasks (?clean db) = Some (r, db')"
        by (simp add: SaveScrapeTasks_def)
      from saveInBatches_prefix [OF this] show ?thesis by (simp add: rowsPerBatch_def)
    qed
    then obtain n where n: "tables db' = tables (apply_batch saveScrapeTask (take n tasks) (?clean db))"
      "isOk r \<Longrightarrow> db' = apply_batch saveScrapeTask tasks (?clean db)" "n = length tasks \<or> rowsPerBatch dvd n"
      by blast
    from n(1) have "db_scrape_tasks db' = kept_tasks now (db_scrape_tasks db) @ numbered (db_scrape_tasks_seq db) (take n tasks)"
      by (simp add: tables_def other_tables_def apply_saveScrapeTask cleanup_keeps seq)
    with res n(2,3) show ?thesis
      by (cases r) (auto simp: apply_saveScrapeTask cleanup_keeps seq)
  qed
qed

definition sample_task :: "int \<Rightarrow> ScrapeTask" where
  "sample_task i = \<lparr>st_ID = i, st_Status = TaskStatusPending, st_CreatedAt = i, st_Job = ''job'',
     st_Addresses = [''http://a/metrics''], st_TargetGroup = ''group'', st_Env = ''prod'', st_Cluster = ''c'',
     st_TeamName = ''team''\<rparr>"

text \<open>The first attempt of every batch deadlocks on its first statement, the second succeeds.\<close>

definition deadlock_once :: "nat \<Rightarrow> nat \<Rightarrow> Attempt" where
  "deadlock_once b k = \<lparr>at_exec = (\<lambda>i. if k = 0 \<and> i = 0 then Some \<lparr>pg_code = Some errCodeDeadlock, db_err = ErrNew ''deadlock''\<rparr> else None),
     at_lost = False\<rparr>"

lemma deadlock_once_ends: "\<not> retries (deadlock_once b) len 1"
proof -
  have "readResults (\<lambda>i. None) j len = BatchOk" for j by (induction len arbitrary: j) simp_all
  then show ?thesis by (simp add: retries_def deadlock_once_def)
qed

theorem SaveScrapeTasks_saves_witness:
  "(\<exists>m. \<not> retries (deadlock_once 0) 2 m) \<and>
   (case SaveScrapeTasks good_link deadlock_once 5 [sample_task 0, sample_task 0] empty_db of
      None \<Rightarrow> False
    | Some (Inr _, db') \<Rightarrow> db_scrape_tasks db' = [sample_task 0\<lparr>st_ID := 1\<rparr>, sample_task 0\<lparr>st_ID := 2\<rparr>]
    | Some (Inl _, db') \<Rightarrow> db_scrape_tasks db' = [] \<or> (\<exists>n. (n = 2 \<or> rowsPerBatch dvd n) \<and>
        db_scrape_tasks db' = numbered 1 (take n [sample_task 0, sample_task 0])))"
proof -
  have ends: "\<exists>m. \<not> retries (deadlock_once b) len m" for b len using deadlock_once_ends by blast
  have "kept_tasks 5 (db_scrape_tasks empty_db) = []" "db_scrape_tasks empty_db = []" "db_scrape_tasks_seq empty_db = 1"
    by (simp_all add: kept_tasks_def empty_db_def)
  moreover have "numbered 1 [sample_task 0, sample_task 0] = [sample_task 0\<lparr>st_ID := 1\<rparr>, sample_task 0\<lparr>st_ID := 2\<rparr>]"
    by (simp add: numbered_def)
  ultimately show ?thesis
    using SaveScrapeTasks_saves [where attempts = deadlock_once and lk = good_link and now = 5
        and tasks = "[sample_task 0, sample_task 0]" and db = empty_db, OF ends] ends
    by (auto simp: numeral_2_eq_2 split: option.splits sum.splits)
qed

section \<open>Handing out tasks\<close>

definition task_ids_ok :: "DB \<Rightarrow> bool" where
  "task_ids_ok db \<longleftrightarrow> distinct (map st_ID (db_scrape_tasks db))"

lemma task_ids_unique:
  "task_ids_ok db \<Longrightarrow> t \<in> set (db_scrape_tasks db) \<Longrightarrow> t' \<in> set (db_scrape_tasks db) \<Longrightarrow> st_ID t = st_ID t' \<Longrightarrow> t = t'"
  unfolding task_ids_ok_def by (metis distinct_map inj_onD)

definition started_ids :: "int set \<Rightarrow> int \<Rightarrow> DB \<Rightarrow> int set" where
  "started_ids locked limit db = st_ID ` set (picked_tasks locked (nat limit) (db_scrape_tasks db))"

lemma picked_tasks_pending:
  "t \<in> set (picked_tasks locked n rows) \<Longrightarrow> t \<in> set rows \<and> st_Status t = TaskStatusPending \<and> st_ID t \<notin> locked"
  unfolding picked_tasks_def by (drule in_set_takeD) auto

lemma started_pending:
  assumes "task_ids_ok db" and "t \<in> set (db_scrape_tasks db)" and "st_ID t \<in> started_ids locked limit db"
  shows "st_Status t = TaskStatusPending" "t \<in> set (picked_tasks locked (nat limit) (db_scrape_tasks db))"
proof -
  from assms(3) obtain t' where t': "t' \<in> set (picked_tasks locked (nat limit) (db_scrape_tasks db))" "st_ID t = st_ID t'"
    by (auto simp: started_ids_def)
  with picked_tasks_pending [OF t'(1)] task_ids_unique [OF assms(1,2)] have "t' = t" by metis
  with t' picked_tasks_pending [OF t'(1)]
  show "st_Status t = TaskStatusPending" "t \<in> set (picked_tasks locked (nat limit) (db_scrape_tasks db))" by simp_all
qed

lemma GetScrapeTasks_Inr:
  assumes "GetScrapeTasks lk locked rank limit db = (Inr tasks, db')"
  shows "db' = db\<lparr>db_scrape_tasks := map (start_task (started_ids locked limit db)) (db_scrape_tasks db)\<rparr>"
    and "set tasks = {t \<in> set (db_scrape_tasks db'). st_ID t \<in> started_ids locked limit db}"
  using assms
  by (cases "lk_acquire lk"; cases "lk_end lk";
      auto simp: GetScrapeTasks_def query_def getScrapeTasks_stmt_def started_ids_def Let_def)+

text \<open>
  \<open>GetScrapeTasks\<close> hands a task out once: the tasks it returns were pending and are running
  in the table it leaves, and whatever another call takes from that table is disjoint from them.
\<close>

lemma GetScrapeTasks_exclusive:
  assumes ok: "task_ids_ok db" and get: "GetScrapeTasks lk locked rank limit db = (Inr tasks, db1)"
    and again: "GetScrapeTasks lk' locked' rank' limit' db1 = (Inr tasks', db2)"
  shows "st_ID ` set tasks \<inter> st_ID ` set tasks' = {} \<and>
         set tasks = (\<lambda>t. t\<lparr>st_Status := TaskStatusRunning\<rparr>) `
           {t \<in> set (db_scrape_tasks db). st_Status t = TaskStatusPending \<and> st_ID t \<in> st_ID ` set tasks}"
    (is "?disjoint \<and> ?running")
proof
  let ?ids = "started_ids locked limit db"
  note g = GetScrapeTasks_Inr [OF get] and a = GetScrapeTasks_Inr [OF again]
  have ok1: "task_ids_ok db1"
  proof -
    have "st_ID \<circ> start_task ids = st_ID" for ids by (auto simp: start_task_def)
    with ok show ?thesis by (simp add: g(1) task_ids_ok_def)
  qed
  have running: "st_Status t = TaskStatusRunning" if "t \<in> set (db_scrape_tasks db1)" "st_ID t \<in> ?ids" for t
    using that by (auto simp: g(1) start_task_def split: if_splits)
  have "st_ID t \<notin> ?ids" if "t \<in> set (db_scrape_tasks db1)" "st_ID t \<in> started_ids locked' limit' db1" for t
    using running [OF that(1)] started_pending(1) [OF ok1 that] by (auto simp: TaskStatus_defs)
  moreover have "\<exists>t \<in> set (db_scrape_tasks db1). st_ID t = st_ID t' \<and> st_ID t \<in> started_ids locked' limit' db1"
    if "t' \<in> set tasks'" for t'
    using that unfolding a(2) by (auto simp: a(1) start_task_def split: if_splits)
  moreover have sub: "st_ID ` set tasks \<subseteq> ?ids" using g(2) by auto
  ultimately show ?disjoint by fastforce
  have "i \<in> st_ID ` set tasks" if i: "i \<in> ?ids" for i
  proof -
    from i obtain t where t: "t \<in> set (db_scrape_tasks db)" "i = st_ID t"
      by (auto simp: started_ids_def dest: picked_tasks_pending)
    then have "start_task ?ids t \<in> set tasks" "st_ID (start_task ?ids t) = i"
      using i unfolding g(2) by (simp_all add: g(1) start_task_def)
    then show ?thesis by blast
  qed
  with sub have ids: "st_ID ` set tasks = ?ids" by blast
  show ?running
    unfolding ids unfolding g(2)
    using started_pending(1) [OF ok] by (auto simp: g(1) start_task_def image_iff split: if_splits)
qed

end
