(* ===== verification/Target_Groups.thy ===== *)
theory Target_Groups
  imports Reports Task_Storage "HOL-Library.Product_Lexorder"
begin

text \<open>
  The table of target groups: registering the groups a scrape has seen
  (\<open>internal/storage/postgres/target_groups.go\<close>) and reading groups with their latest report
  (\<open>target_groups_read.go\<close>). \<open>collate\<close> is the database's collation, as the key it sorts text
  by.
\<close>

section \<open>Operations\<close>

definition group_key :: "TargetGroupRow \<Rightarrow> string \<times> string \<times> string" where
  "group_key r = (gr_target_group r, gr_env r, gr_cluster r)"

definition mergeGroup :: "TargetGroupRow \<Rightarrow> TargetGroupRow \<Rightarrow> TargetGroupRow" where
  "mergeGroup old excluded = old\<lparr>gr_last_check := gr_last_check excluded\<rparr>"

text \<open>The insert draws an id from the sequence whether or not it conflicts.\<close>

definition saveOrUpdateTargetGroup :: "int \<Rightarrow> TargetGroup \<Rightarrow> DB \<Rightarrow> DB" where
  "saveOrUpdateTargetGroup now g db =
     db\<lparr>db_target_groups := upsert group_key mergeGroup
          \<lparr>gr_id = db_target_groups_seq db, gr_target_group = tg_Name g, gr_env = tg_Env g, gr_cluster = tg_Cluster g,
           gr_job = tg_Job g, gr_team_name = tg_TeamName g, gr_first_check = Some now, gr_last_check = Some now\<rparr>
          (db_target_groups db),
        db_target_groups_seq := db_target_groups_seq db + 1\<rparr>"

definition SaveOrUpdateTargetGroups ::
  "Link \<Rightarrow> (nat \<Rightarrow> nat \<Rightarrow> Attempt) \<Rightarrow> int \<Rightarrow> TargetGroup list \<Rightarrow> DB \<Rightarrow> (unit result \<times> DB) option" where
  "SaveOrUpdateTargetGroups lk attempts now targetGroups db =
     (case lk_acquire lk of
        Some e \<Rightarrow> Some (Inl e, db)
      | None \<Rightarrow> saveInBatches (saveOrUpdateTargetGroup now) attempts (length targetGroups) 0 0 [] targetGroups db)"

record TargetGroupWithReport =
  twp_ID :: int
  twp_Name :: string
  twp_Env :: string
  twp_Cluster :: string
  twp_Job :: string
  twp_TeamName :: string
  twp_FirstCheck :: int
  twp_LastCheck :: int
  twp_Details :: Details
  twp_ReportCreatedAt :: "int option"
  twp_HasReport :: bool

text \<open>Go's zero \<open>time.Time\<close>, 1 January of year 1, in microseconds of the Unix epoch.\<close>

definition zero_time :: int where "zero_time = -62135596800000000"

text \<open>A joined row: the group and the columns \<open>details\<close>, \<open>created_at\<close> of its report.\<close>

type_synonym joined = "TargetGroupRow \<times> string option \<times> int option"

definition join_reports :: "ReportRow list \<Rightarrow> TargetGroupRow \<Rightarrow> joined list" where
  "join_reports reports tg =
     (case filter (\<lambda>r. report_key r = group_key tg) reports of
        [] \<Rightarrow> [(tg, None, None)]
      | rs \<Rightarrow> map (\<lambda>r. (tg, Some (rr_details r), Some (rr_created_at r))) rs)"

definition scanTargetGroupWithReport :: "joined \<Rightarrow> TargetGroupWithReport result" where
  "scanTargetGroupWithReport row =
     (case row of (tg, detailsRawJSON, reportAtRaw) \<Rightarrow>
        let item = \<lparr>twp_ID = gr_id tg, twp_Name = gr_target_group tg, twp_Env = gr_env tg,
              twp_Cluster = gr_cluster tg, twp_Job = gr_job tg, twp_TeamName = gr_team_name tg,
              twp_FirstCheck = (case gr_first_check tg of Some t \<Rightarrow> t | None \<Rightarrow> zero_time),
              twp_LastCheck = (case gr_last_check tg of Some t \<Rightarrow> t | None \<Rightarrow> zero_time),
              twp_Details = zeroDetails, twp_ReportCreatedAt = reportAtRaw, twp_HasReport = False\<rparr>;
            raw = (case detailsRawJSON of None \<Rightarrow> [] | Some t \<Rightarrow> t)
        in if length raw > 0 then
             (case unmarshal decDetails raw (twp_Details item) of
                Inl e \<Rightarrow> Inl e
              | Inr details \<Rightarrow> Inr (item\<lparr>twp_Details := details, twp_HasReport := True\<rparr>))
           else Inr item)"

definition group_order :: "(string \<Rightarrow> string) \<Rightarrow> joined \<Rightarrow> string \<times> string \<times> string \<times> string" where
  "group_order collate row = (case row of (tg, _) \<Rightarrow>
     (collate (gr_team_name tg), collate (gr_target_group tg), collate (gr_env tg), collate (gr_cluster tg)))"

definition listTargetGroups_rows :: "(string \<Rightarrow> string) \<Rightarrow> string \<Rightarrow> DB \<Rightarrow> joined list" where
  "listTargetGroups_rows collate teamName db =
     sort_key (group_order collate)
       (concat (map (join_reports (db_reports db))
         (filter (\<lambda>tg. teamName = [] \<or> gr_team_name tg = teamName) (db_target_groups db))))"

definition ListTargetGroups :: "Link \<Rightarrow> (string \<Rightarrow> string) \<Rightarrow> string \<Rightarrow> DB \<Rightarrow> TargetGroupWithReport list result" where
  "ListTargetGroups lk collate teamName db =
     fst (query lk (\<lambda>db. (mapM scanTargetGroupWithReport (listTargetGroups_rows collate teamName db), db)) db)"

definition errNoRows :: goerr where "errNoRows = ErrNew ''no rows in result set''"

definition GetTargetGroupByID :: "Link \<Rightarrow> int \<Rightarrow> DB \<Rightarrow> TargetGroupWithReport result" where
  "GetTargetGroupByID lk gid db =
     fst (query lk (\<lambda>db.
       (case concat (map (join_reports (db_reports db)) (filter (\<lambda>tg. gr_id tg = gid) (db_target_groups db))) of
          [] \<Rightarrow> Inl errNoRows
        | row # _ \<Rightarrow> scanTargetGroupWithReport row, db)) db)"

section \<open>Registering groups\<close>

interpretation groups: keyed_table group_key mergeGroup
  by unfold_locales (simp add: group_key_def mergeGroup_def)

lemma save_group_unique:
  "groups.unique_rows (db_target_groups db) \<Longrightarrow> groups.unique_rows (db_target_groups (saveOrUpdateTargetGroup now g db))"
  by (simp add: saveOrUpdateTargetGroup_def groups.upsert_unique)

lemma save_groups_unique:
  "groups.unique_rows (db_target_groups db) \<Longrightarrow>
   groups.unique_rows (db_target_groups (apply_batch (saveOrUpdateTargetGroup now) gs db))"
  unfolding apply_batch_def
  by (rule foldl_invariant [where I = "\<lambda>db. groups.unique_rows (db_target_groups db)"]) (auto intro: save_group_unique)

definition tg_key :: "TargetGroup \<Rightarrow> string \<times> string \<times> string" where
  "tg_key g = (tg_Name g, tg_Env g, tg_Cluster g)"

lemma save_group_at:
  "groups.rows_at k (db_target_groups (saveOrUpdateTargetGroup now g db)) =
   (if k \<noteq> tg_key g then groups.rows_at k (db_target_groups db)
    else case groups.rows_at k (db_target_groups db) of
      [] \<Rightarrow> [\<lparr>gr_id = db_target_groups_seq db, gr_target_group = tg_Name g, gr_env = tg_Env g, gr_cluster = tg_Cluster g,
           gr_job = tg_Job g, gr_team_name = tg_TeamName g, gr_first_check = Some now, gr_last_check = Some now\<rparr>]
    | olds \<Rightarrow> map (\<lambda>r. r\<lparr>gr_last_check := Some now\<rparr>) olds)"
proof -
  let ?row = "\<lparr>gr_id = db_target_groups_seq db, gr_target_group = tg_Name g, gr_env = tg_Env g, gr_cluster = tg_Cluster g,
           gr_job = tg_Job g, gr_team_name = tg_TeamName g, gr_first_check = Some now, gr_last_check = Some now\<rparr>"
  have key: "group_key ?row = tg_key g" by (simp add: group_key_def tg_key_def)
  show ?thesis
    using groups.upsert_other [of k ?row "db_target_groups db"] groups.upsert_self [of ?row "db_target_groups db"]
    by (auto simp: saveOrUpdateTargetGroup_def key mergeGroup_def split: list.splits)
qed

text \<open>What registering a list of groups does to one key.\<close>

lemma save_groups_at_old:
  assumes "groups.rows_at k (db_target_groups db) = [r]"
  shows "groups.rows_at k (db_target_groups (apply_batch (saveOrUpdateTargetGroup now) gs db)) =
    [if k \<in> tg_key ` set gs then r\<lparr>gr_last_check := Some now\<rparr> else r]"
  using assms
proof (induction gs arbitrary: db r)
  case (Cons g gs)
  have "groups.rows_at k (db_target_groups (saveOrUpdateTargetGroup now g db)) =
      [if k = tg_key g then r\<lparr>gr_last_check := Some now\<rparr> else r]"
    using Cons.prems by (auto simp: save_group_at)
  from Cons.IH [OF this] show ?case by (auto simp: apply_batch_def)
qed (simp add: apply_batch_def)

lemma save_groups_at_new:
  assumes "groups.rows_at k (db_target_groups db) = []"
  shows "case groups.rows_at k (db_target_groups (apply_batch (saveOrUpdateTargetGroup now) gs db)) of
      [] \<Rightarrow> k \<notin> tg_key ` set gs
    | [r] \<Rightarrow> k \<in> tg_key ` set gs \<and> gr_first_check r = Some now \<and> gr_last_check r = Some now
    | _ \<Rightarrow> False"
  using assms
proof (induction gs arbitrary: db)
  case (Cons g gs)
  show ?case
  proof (cases "k = tg_key g")
    case True
    with Cons.prems obtain r where r: "groups.rows_at k (db_target_groups (saveOrUpdateTargetGroup now g db)) = [r]"
      "gr_first_check r = Some now" "gr_last_check r = Some now"
      by (simp add: save_group_at)
    from save_groups_at_old [OF r(1), of now gs] r True show ?thesis by (simp add: apply_batch_def)
  next
    case False
    with Cons.prems have "groups.rows_at k (db_target_groups (saveOrUpdateTargetGroup now g db)) = []"
      by (simp add: save_group_at)
    from Cons.IH [OF this] False show ?thesis by (auto simp: apply_batch_def split: list.splits)
  qed
qed (simp add: apply_batch_def)

lemma SaveOrUpdate_applies:
  assumes "SaveOrUpdateTargetGroups lk attempts now gs db = Some (Inr u, db')"
  shows "db' = apply_batch (saveOrUpdateTargetGroup now) gs db"
proof -
  have "saveInBatches (saveOrUpdateTargetGroup now) attempts (0 + length gs) 0 0 [] gs db = Some (Inr u, db')"
    using assms by (simp add: SaveOrUpdateTargetGroups_def split: option.splits)
  from saveInBatches_prefix [OF this] show ?thesis by (auto simp: rowsPerBatch_def)
qed

text \<open>
  C29. Registering groups keeps one row per (group, env, cluster). A row that was there keeps its
  id, its first check and everything else, and only takes the new time as its last check when its
  group is among those registered; a registered group that was not there gets one row, first and
  last checked now; no other row appears.
\<close>

theorem SaveOrUpdateTargetGroups_registers:
  assumes "distinct (map group_key (db_target_groups db))"
    and "SaveOrUpdateTargetGroups lk attempts now gs db = Some (Inr u, db')"
  shows "distinct (map group_key (db_target_groups db')) \<and>
    (case filter (\<lambda>r. group_key r = k) (db_target_groups db) of
      [] \<Rightarrow> (case filter (\<lambda>r. group_key r = k) (db_target_groups db') of
              [] \<Rightarrow> k \<notin> tg_key ` set gs
            | [r] \<Rightarrow> k \<in> tg_key ` set gs \<and> gr_first_check r = Some now \<and> gr_last_check r = Some now
            | _ \<Rightarrow> False)
    | [r] \<Rightarrow> filter (\<lambda>r. group_key r = k) (db_target_groups db') =
              [if k \<in> tg_key ` set gs then r\<lparr>gr_last_check := Some now\<rparr> else r]
    | _ \<Rightarrow> False)" (is "?distinct \<and> ?at")
proof
  note db' = SaveOrUpdate_applies [OF assms(2)]
  have uniq: "groups.unique_rows (db_target_groups db)" using assms(1) by (simp add: groups.unique_rows_def)
  from save_groups_unique [OF uniq, of now gs] show ?distinct
    by (simp add: db' groups.unique_rows_def)
  show ?at
    using groups.rows_at_unique [OF uniq, of k] save_groups_at_old [of k db] save_groups_at_new [where k = k and db = db and now = now and gs = gs]
    by (auto simp: db' groups.rows_at_def)
qed

definition sample_group :: "string \<Rightarrow> TargetGroup" where
  "sample_group name = \<lparr>tg_Name = name, tg_Env = ''prod'', tg_Cluster = ''c'', tg_Job = ''job'', tg_TeamName = ''team''\<rparr>"

definition sample_group_row :: TargetGroupRow where
  "sample_group_row = \<lparr>gr_id = 1, gr_target_group = ''a'', gr_env = ''prod'', gr_cluster = ''c'', gr_job = ''job'',
     gr_team_name = ''team'', gr_first_check = Some 3, gr_last_check = Some 3\<rparr>"

definition sample_groups_db :: DB where
  "sample_groups_db = empty_db\<lparr>db_target_groups := [sample_group_row], db_target_groups_seq := 2\<rparr>"

definition quiet :: "nat \<Rightarrow> nat \<Rightarrow> Attempt" where
  "quiet b k = \<lparr>at_exec = (\<lambda>_. None), at_lost = False\<rparr>"

definition registered_db :: DB where
  "registered_db = apply_batch (saveOrUpdateTargetGroup 9) [sample_group ''a'', sample_group ''b''] sample_groups_db"

lemma sample_registration:
  "SaveOrUpdateTargetGroups good_link quiet 9 [sample_group ''a'', sample_group ''b''] sample_groups_db =
   Some (Inr (), registered_db)"
proof -
  have "sendBatch (quiet 0) 2 0 = Some (None, True)"
    by (subst sendBatch.simps) (simp add: quiet_def numeral_2_eq_2)
  then show ?thesis
    by (simp add: SaveOrUpdateTargetGroups_def good_link_def rowsPerBatch_def registered_db_def numeral_2_eq_2 Let_def)
qed

theorem SaveOrUpdateTargetGroups_registers_witness:
  "distinct (map group_key (db_target_groups registered_db)) \<and>
   filter (\<lambda>r. group_key r = (''a'', ''prod'', ''c'')) (db_target_groups registered_db) =
     [sample_group_row\<lparr>gr_last_check := Some 9\<rparr>]"
  using SaveOrUpdateTargetGroups_registers [OF _ sample_registration, of "(''a'', ''prod'', ''c'')"]
  by (simp add: sample_groups_db_def sample_group_row_def group_key_def tg_key_def sample_group_def)

section \<open>Reading a report back\<close>

lemma marshalDetails_nonempty: "marshalDetails d \<noteq> []"
  by (simp add: marshalDetails_def encDetails_def)

lemma scan_report:
  assumes "Details_fits d"
  shows "scanTargetGroupWithReport (tg, Some (marshalDetails d), at) =
    Inr \<lparr>twp_ID = gr_id tg, twp_Name = gr_target_group tg, twp_Env = gr_env tg, twp_Cluster = gr_cluster tg,
      twp_Job = gr_job tg, twp_TeamName = gr_team_name tg,
      twp_FirstCheck = (case gr_first_check tg of Some t \<Rightarrow> t | None \<Rightarrow> zero_time),
      twp_LastCheck = (case gr_last_check tg of Some t \<Rightarrow> t | None \<Rightarrow> zero_time),
      twp_Details = d, twp_ReportCreatedAt = at, twp_HasReport = True\<rparr>"
  using assms by (simp add: scanTargetGroupWithReport_def Let_def marshalDetails_nonempty unmarshal_marshalDetails)

text \<open>
  A saved report is read back unchanged: after a successful \<open>SaveReports\<close> of a batch with
  one report for the group, \<open>GetTargetGroupByID\<close> returns the group with exactly the details of
  that report and the time it was saved.
\<close>

lemma SaveReports_read_back:
  assumes save: "SaveReports lk s protoMarshal newUUID createdAt reports db = (Inr u, db')"
    and rows: "distinct (map report_key (db_reports db))"
    and tg: "filter (\<lambda>g. gr_id g = gid) (db_target_groups db) = [tg]"
    and rep: "report \<in> set reports" "report_key (reportRow report createdAt) = group_key tg"
    and one: "\<And>r. r \<in> set reports \<Longrightarrow> report_key (reportRow r createdAt) = group_key tg \<Longrightarrow> r = report"
    and fits: "Details_fits (rep_Details report)"
  shows "case GetTargetGroupByID good_link gid db' of
      Inl _ \<Rightarrow> False
    | Inr g \<Rightarrow> twp_ID g = gid \<and> twp_HasReport g \<and> twp_Details g = rep_Details report \<and>
              twp_ReportCreatedAt g = Some createdAt"
proof -
  from SaveReports_saved [OF save] have saved: "db_reports db' = saved_rows createdAt reports (db_reports db)"
    "db_target_groups db' = db_target_groups db"
    by (auto simp: saved_def other_tables_def split: sum.splits)
  have "reports.rows_at (group_key tg) (db_reports db') = [reportRow report createdAt]"
    unfolding saved rep(2) [symmetric]
  proof (rule saved_report_found [OF _ rep(1)])
    show "reports.unique_rows (db_reports db)" using rows by (simp add: reports.unique_rows_def)
    show "r = report" if "r \<in> set reports" "report_key (reportRow r createdAt) = report_key (reportRow report createdAt)" for r
      using one [OF that(1)] that(2) rep(2) by simp
  qed
  then have "join_reports (db_reports db') tg = [(tg, Some (marshalDetails (rep_Details report)), Some createdAt)]"
    by (simp add: join_reports_def reports.rows_at_def reportRow_def)
  moreover have "gr_id tg = gid" using tg by (auto simp: filter_eq_Cons_iff)
  ultimately show ?thesis
    by (simp add: GetTargetGroupByID_def saved tg scan_report fits)
qed

end
