(* ===== verification/Whitelist_Storage.thy ===== *)
theory Whitelist_Storage
  imports Database Report_Json "HOL-Library.Product_Lexorder"
begin

text \<open>
  The whitelist tables (\<open>internal/storage/postgres/whitelist.go\<close>): listing, upserting and
  deleting the rules for metrics and for whole targets, and the whitelists in effect for a
  target group. Where the source ranges over a Go map, whose order is random, the model takes
  the keys in order; only the key that an error message names depends on it.
\<close>

section \<open>Checks as JSON\<close>

definition errEmptyTargetGroup :: goerr where "errEmptyTargetGroup = ErrNew ''target_group is required''"
definition errEmptyEnv :: goerr where "errEmptyEnv = ErrNew ''env is required''"
definition errEmptyMetricName :: goerr where "errEmptyMetricName = ErrNew ''metric_name is required''"
definition errEmptyChecks :: goerr where "errEmptyChecks = ErrNew ''checks are required''"

definition isMetricWhitelistCheckType :: "CheckType \<Rightarrow> bool" where
  "isMetricWhitelistCheckType checkType \<longleftrightarrow>
     checkType \<in> {CheckTypeMetricNameLength, CheckTypeLabelNameLength, CheckTypeLabelValueLength,
       CheckTypeCardinality, CheckTypeHistogramBuckets}"

definition isTargetWhitelistCheckType :: "CheckType \<Rightarrow> bool" where
  "isTargetWhitelistCheckType checkType \<longleftrightarrow>
     checkType \<in> {CheckTypeMetricNameLength, CheckTypeLabelNameLength, CheckTypeLabelValueLength,
       CheckTypeCardinality, CheckTypeHistogramBuckets, CheckTypeResponseWeight}"

definition errUnsupportedMetricCheck :: "string \<Rightarrow> goerr" where
  "errUnsupportedMetricCheck k = ErrNew (''unsupported metric whitelist check: '' @ k)"

definition errMetricLimit :: "string \<Rightarrow> goerr" where
  "errMetricLimit k = ErrNew (''metric whitelist limit must be positive for check: '' @ k)"

definition errUnsupportedTargetCheck :: "string \<Rightarrow> goerr" where
  "errUnsupportedTargetCheck k = ErrNew (''unsupported target whitelist check: '' @ k)"

text \<open>The loop both metric functions run over their map: check each entry, copy it.\<close>

fun copyMetricChecks :: "(string \<rightharpoonup> int) \<Rightarrow> string list \<Rightarrow> (CheckType \<rightharpoonup> int) \<Rightarrow> (CheckType \<rightharpoonup> int) result" where
  "copyMetricChecks m [] copied = Inr copied"
| "copyMetricChecks m (key # keys) copied =
     (if \<not> isMetricWhitelistCheckType key then Inl (errUnsupportedMetricCheck key)
      else if the (m key) \<le> 0 then Inl (errMetricLimit key)
      else copyMetricChecks m keys (copied(key \<mapsto> the (m key))))"

definition parseMetricChecksJSON :: "string \<Rightarrow> (CheckType \<rightharpoonup> int) result" where
  "parseMetricChecksJSON raw =
     (if length raw = 0 then Inr Map.empty
      else case unmarshal (dec_map 0 dec_int) raw Map.empty of
             Inl e \<Rightarrow> Inl (ErrWrap ''invalid metrics whitelist checks JSON'' e)
           | Inr decoded \<Rightarrow> copyMetricChecks decoded (sorted_list_of_set (dom decoded)) Map.empty)"

definition marshalMetricChecks :: "(CheckType \<rightharpoonup> int) \<Rightarrow> string result" where
  "marshalMetricChecks checks =
     (if dom checks = {} then Inl errEmptyChecks
      else case copyMetricChecks checks (sorted_list_of_set (dom checks)) Map.empty of
             Inl e \<Rightarrow> Inl e
           | Inr normalized \<Rightarrow> Inr (json_text (encIntMap normalized)))"

fun dedupeTargetChecks :: "string list \<Rightarrow> CheckType set \<Rightarrow> CheckType list \<Rightarrow> CheckType list result" where
  "dedupeTargetChecks [] seen acc = Inr acc"
| "dedupeTargetChecks (rawCheck # rest) seen acc =
     (if \<not> isTargetWhitelistCheckType rawCheck then Inl (errUnsupportedTargetCheck rawCheck)
      else if rawCheck \<in> seen then dedupeTargetChecks rest seen acc
      else dedupeTargetChecks rest (insert rawCheck seen) (acc @ [rawCheck]))"

definition normalizeTargetChecks :: "string list \<Rightarrow> CheckType list result" where
  "normalizeTargetChecks rawChecks =
     (if length rawChecks = 0 then Inr []
      else case dedupeTargetChecks rawChecks {} [] of Inl e \<Rightarrow> Inl e | Inr checks \<Rightarrow> Inr (sort checks))"

definition parseTargetChecksJSON :: "string \<Rightarrow> CheckType list result" where
  "parseTargetChecksJSON raw =
     (if length raw = 0 then Inr []
      else case unmarshal (dec_list [] dec_str) raw [] of
             Inr decodedArray \<Rightarrow> normalizeTargetChecks decodedArray
           | Inl _ \<Rightarrow>
               (case unmarshal (dec_map False dec_bool) raw Map.empty of
                  Inr decodedObject \<Rightarrow>
                    normalizeTargetChecks (sorted_list_of_set {k. decodedObject k = Some True})
                | Inl _ \<Rightarrow> Inl (ErrNew ''invalid target whitelist checks JSON'')))"

definition marshalTargetChecks :: "CheckType list \<Rightarrow> string result" where
  "marshalTargetChecks checks =
     (if length checks = 0 then Inl errEmptyChecks
      else case dedupeTargetChecks checks {} [] of
             Inl e \<Rightarrow> Inl e
           | Inr normalized \<Rightarrow> Inr (json_text (encStrList (sort normalized))))"

section \<open>Rules for metrics\<close>

definition mw_key :: "MetricsWhitelistRow \<Rightarrow> string \<times> string \<times> string" where
  "mw_key r = (mw_target_group r, mw_env r, mw_metric_name r)"

definition mergeMetricsWhitelist :: "MetricsWhitelistRow \<Rightarrow> MetricsWhitelistRow \<Rightarrow> MetricsWhitelistRow" where
  "mergeMetricsWhitelist old excluded = old\<lparr>mw_checks := mw_checks excluded\<rparr>"

definition scanMetricRule :: "MetricsWhitelistRow \<Rightarrow> MetricWhitelistRule result" where
  "scanMetricRule r =
     (case parseMetricChecksJSON (mw_checks r) of
        Inl e \<Rightarrow> Inl e
      | Inr checks \<Rightarrow> Inr \<lparr>mwr_TargetGroup = mw_target_group r, mwr_Env = mw_env r,
                          mwr_MetricName = mw_metric_name r, mwr_Checks = checks\<rparr>)"

definition listMetricWhitelist_rows :: "(string \<Rightarrow> string) \<Rightarrow> string \<Rightarrow> string \<Rightarrow> DB \<Rightarrow> MetricsWhitelistRow list" where
  "listMetricWhitelist_rows collate targetGroup env db =
     sort_key (\<lambda>r. (collate (mw_target_group r), collate (mw_env r), collate (mw_metric_name r)))
       (filter (\<lambda>r. (targetGroup = [] \<or> mw_target_group r = targetGroup) \<and> (env = [] \<or> mw_env r = env))
         (db_metrics_whitelist db))"

definition ListMetricWhitelist ::
  "Link \<Rightarrow> (string \<Rightarrow> string) \<Rightarrow> string \<Rightarrow> string \<Rightarrow> DB \<Rightarrow> MetricWhitelistRule list result" where
  "ListMetricWhitelist lk collate targetGroup env db =
     fst (query lk (\<lambda>db. (mapM scanMetricRule (listMetricWhitelist_rows collate targetGroup env db), db)) db)"

definition UpsertMetricWhitelist :: "Link \<Rightarrow> MetricWhitelistRule \<Rightarrow> DB \<Rightarrow> unit result \<times> DB" where
  "UpsertMetricWhitelist lk item db =
     (if mwr_TargetGroup item = [] then (Inl errEmptyTargetGroup, db)
      else if mwr_Env item = [] then (Inl errEmptyEnv, db)
      else if mwr_MetricName item = [] then (Inl errEmptyMetricName, db)
      else if dom (mwr_Checks item) = {} then (Inl errEmptyChecks, db)
      else case marshalMetricChecks (mwr_Checks item) of
        Inl e \<Rightarrow> (Inl e, db)
      | Inr checksJSON \<Rightarrow>
          exec lk (\<lambda>db. db\<lparr>db_metrics_whitelist := upsert mw_key mergeMetricsWhitelist
            \<lparr>mw_target_group = mwr_TargetGroup item, mw_env = mwr_Env item,
             mw_metric_name = mwr_MetricName item, mw_checks = checksJSON\<rparr> (db_metrics_whitelist db)\<rparr>) db)"

definition DeleteMetricWhitelist :: "Link \<Rightarrow> string \<Rightarrow> string \<Rightarrow> string \<Rightarrow> DB \<Rightarrow> unit result \<times> DB" where
  "DeleteMetricWhitelist lk targetGroup env metricName db =
     (if targetGroup = [] then (Inl errEmptyTargetGroup, db)
      else if env = [] then (Inl errEmptyEnv, db)
      else if metricName = [] then (Inl errEmptyMetricName, db)
      else exec lk (\<lambda>db. db\<lparr>db_metrics_whitelist :=
             filter (\<lambda>r. mw_key r \<noteq> (targetGroup, env, metricName)) (db_metrics_whitelist db)\<rparr>) db)"

section \<open>Rules for targets\<close>

definition tw_key :: "TargetsWhitelistRow \<Rightarrow> string \<times> string" where
  "tw_key r = (tw_target_group r, tw_env r)"

definition mergeTargetsWhitelist :: "TargetsWhitelistRow \<Rightarrow> TargetsWhitelistRow \<Rightarrow> TargetsWhitelistRow" where
  "mergeTargetsWhitelist old excluded = old\<lparr>tw_checks := tw_checks excluded\<rparr>"

definition scanTargetRule :: "TargetsWhitelistRow \<Rightarrow> TargetWhitelistRule result" where
  "scanTargetRule r =
     (case parseTargetChecksJSON (tw_checks r) of
        Inl e \<Rightarrow> Inl e
      | Inr checks \<Rightarrow> Inr \<lparr>twr_TargetGroup = tw_target_group r, twr_Env = tw_env r, twr_Checks = checks\<rparr>)"

definition listTargetWhitelist_rows :: "(string \<Rightarrow> string) \<Rightarrow> string \<Rightarrow> string \<Rightarrow> DB \<Rightarrow> TargetsWhitelistRow list" where
  "listTargetWhitelist_rows collate targetGroup env db =
     sort_key (\<lambda>r. (collate (tw_target_group r), collate (tw_env r)))
       (filter (\<lambda>r. (targetGroup = [] \<or> tw_target_group r = targetGroup) \<and> (env = [] \<or> tw_env r = env))
         (db_targets_whitelist db))"

definition ListTargetWhitelist ::
  "Link \<Rightarrow> (string \<Rightarrow> string) \<Rightarrow> string \<Rightarrow> string \<Rightarrow> DB \<Rightarrow> TargetWhitelistRule list result" where
  "ListTargetWhitelist lk collate targetGroup env db =
     fst (query lk (\<lambda>db. (mapM scanTargetRule (listTargetWhitelist_rows collate targetGroup env db), db)) db)"

definition UpsertTargetWhitelist :: "Link \<Rightarrow> TargetWhitelistRule \<Rightarrow> DB \<Rightarrow> unit result \<times> DB" where
  "UpsertTargetWhitelist lk item db =
     (if twr_TargetGroup item = [] then (Inl errEmptyTargetGroup, db)
      else if twr_Env item = [] then (Inl errEmptyEnv, db)
      else if length (twr_Checks item) = 0 then (Inl errEmptyChecks, db)
      else case marshalTargetChecks (twr_Checks item) of
        Inl e \<Rightarrow> (Inl e, db)
      | Inr checksJSON \<Rightarrow>
          exec lk (\<lambda>db. db\<lparr>db_targets_whitelist := upsert tw_key mergeTargetsWhitelist
            \<lparr>tw_target_group = twr_TargetGroup item, tw_env = twr_Env item, tw_checks = checksJSON\<rparr>
            (db_targets_whitelist db)\<rparr>) db)"

definition DeleteTargetWhitelist :: "Link \<Rightarrow> string \<Rightarrow> string \<Rightarrow> DB \<Rightarrow> unit result \<times> DB" where
  "DeleteTargetWhitelist lk targetGroup env db =
     (if targetGroup = [] then (Inl errEmptyTargetGroup, db)
      else if env = [] then (Inl errEmptyEnv, db)
      else exec lk (\<lambda>db. db\<lparr>db_targets_whitelist :=
             filter (\<lambda>r. tw_key r \<noteq> (targetGroup, env)) (db_targets_whitelist db)\<rparr>) db)"

section \<open>The whitelists in effect\<close>

definition addMetricRule :: "EffectiveWhitelists \<Rightarrow> MetricWhitelistRule \<Rightarrow> EffectiveWhitelists" where
  "addMetricRule w rule =
     (if dom (mwr_Checks rule) = {} then w
      else w\<lparr>MetricChecks := (MetricChecks w)(mwr_MetricName rule \<mapsto> mwr_Checks rule)\<rparr>)"

definition addTargetRule :: "EffectiveWhitelists \<Rightarrow> TargetWhitelistRule \<Rightarrow> EffectiveWhitelists" where
  "addTargetRule w rule =
     foldl (\<lambda>w checkType. w\<lparr>DisabledChecks := insert checkType (DisabledChecks w)\<rparr>) w (twr_Checks rule)"

definition GetEffectiveWhitelists ::
  "Link \<Rightarrow> Link \<Rightarrow> (string \<Rightarrow> string) \<Rightarrow> string \<Rightarrow> string \<Rightarrow> DB \<Rightarrow> EffectiveWhitelists result" where
  "GetEffectiveWhitelists lk1 lk2 collate targetGroup env db =
     (case ListMetricWhitelist lk1 collate targetGroup env db of
        Inl e \<Rightarrow> Inl e
      | Inr metricRules \<Rightarrow>
          (case ListTargetWhitelist lk2 collate targetGroup env db of
             Inl e \<Rightarrow> Inl e
           | Inr targetRules \<Rightarrow>
               Inr (foldl addTargetRule (foldl addMetricRule NewEffectiveWhitelists metricRules) targetRules)))"

section \<open>The JSON of the checks\<close>

definition valid_metric_checks :: "(CheckType \<rightharpoonup> int) \<Rightarrow> bool" where
  "valid_metric_checks m \<longleftrightarrow> (\<forall>k v. m k = Some v \<longrightarrow> isMetricWhitelistCheckType k \<and> 0 < v)"

lemma valid_metric_checks_finite: "valid_metric_checks m \<Longrightarrow> finite (dom m)"
proof -
  assume "valid_metric_checks m"
  then have "dom m \<subseteq> Collect isMetricWhitelistCheckType" by (auto simp: valid_metric_checks_def)
  moreover have "Collect isMetricWhitelistCheckType = {CheckTypeMetricNameLength, CheckTypeLabelNameLength,
      CheckTypeLabelValueLength, CheckTypeCardinality, CheckTypeHistogramBuckets}"
    by (auto simp: isMetricWhitelistCheckType_def)
  then have "finite (Collect isMetricWhitelistCheckType)" by simp
  ultimately show ?thesis by (rule finite_subset)
qed

lemma copyMetricChecks_Inr_iff:
  "copyMetricChecks m keys copied = Inr r \<longleftrightarrow>
   (\<forall>k \<in> set keys. isMetricWhitelistCheckType k \<and> 0 < the (m k)) \<and>
   r = (\<lambda>k. if k \<in> set keys then Some (the (m k)) else copied k)"
proof (induction keys arbitrary: copied)
  case (Cons key keys)
  have eq: "(\<lambda>k. if k \<in> set keys then Some (the (m k)) else (copied(key \<mapsto> the (m key))) k) =
      (\<lambda>k. if k \<in> set (key # keys) then Some (the (m k)) else copied k)"
    by auto
  show ?case
    using Cons.IH [of "copied(key \<mapsto> the (m key))"] unfolding eq
    by (cases "isMetricWhitelistCheckType key \<and> 0 < the (m key)") (auto simp del: fun_upd_apply)
qed auto

lemma copy_all_iff:
  assumes "finite (dom m)"
  shows "copyMetricChecks m (sorted_list_of_set (dom m)) Map.empty = Inr r \<longleftrightarrow> valid_metric_checks m \<and> r = m"
proof -
  have "(\<lambda>k. if k \<in> dom m then Some (the (m k)) else None) = m"
    by (simp add: fun_eq_iff domIff)
  moreover have "(\<forall>k \<in> dom m. isMetricWhitelistCheckType k \<and> 0 < the (m k)) \<longleftrightarrow> valid_metric_checks m"
    by (force simp: valid_metric_checks_def dom_def)
  ultimately show ?thesis using assms by (simp add: copyMetricChecks_Inr_iff)
qed

lemma dec_entries_finite: "finite (dom m) \<Longrightarrow> dec_entries z dec ms m = Some m' \<Longrightarrow> finite (dom m')"
  by (induction z dec ms m rule: dec_entries.induct) (auto split: option.splits)

lemma unmarshal_map_finite:
  assumes "unmarshal (dec_map z dec) raw Map.empty = Inr m"
  shows "finite (dom m)"
proof -
  obtain v where "dec_map z dec v Map.empty = Some m"
    using assms by (auto simp: unmarshal_def split: option.splits)
  then show ?thesis by (cases v) (auto dest: dec_entries_finite [rotated])
qed

lemma parseMetricChecks_valid: "parseMetricChecksJSON raw = Inr m \<Longrightarrow> valid_metric_checks m"
  by (auto simp: parseMetricChecksJSON_def copy_all_iff [OF unmarshal_map_finite] valid_metric_checks_def
      split: if_splits sum.splits)

lemma marshalMetricChecks_Inr:
  assumes "finite (dom m)"
  shows "marshalMetricChecks m = Inr t \<longleftrightarrow> dom m \<noteq> {} \<and> valid_metric_checks m \<and> t = json_text (encIntMap m)"
proof (cases "copyMetricChecks m (sorted_list_of_set (dom m)) Map.empty")
  case (Inl e)
  then have "\<not> valid_metric_checks m" using copy_all_iff [OF assms, of m] by auto
  with Inl show ?thesis by (simp add: marshalMetricChecks_def)
next
  case (Inr r)
  then have "valid_metric_checks m" "r = m" using copy_all_iff [OF assms] by simp_all
  with Inr show ?thesis by (auto simp: marshalMetricChecks_def)
qed

lemma parse_marshal_metric:
  assumes "valid_metric_checks m" and "\<forall>v \<in> ran m. int64_range v"
  shows "parseMetricChecksJSON (json_text (encIntMap m)) = Inr m"
proof -
  note fin = valid_metric_checks_finite [OF assms(1)]
  have "copyMetricChecks m (sorted_list_of_set (dom m)) Map.empty = Inr m"
    using copy_all_iff [OF fin] assms(1) by simp
  then show ?thesis
    unfolding parseMetricChecksJSON_def unmarshal_IntMap [OF fin assms(2)]
    by (simp add: encIntMap_def)
qed

lemma dedupe_Inr_iff:
  "dedupeTargetChecks cs seen acc = Inr r \<longleftrightarrow>
   (\<forall>c \<in> set cs. isTargetWhitelistCheckType c) \<and>
   r = acc @ rev (remdups (rev (filter (\<lambda>c. c \<notin> seen) cs)))"
proof (induction cs seen acc rule: dedupeTargetChecks.induct)
  case (2 c cs seen acc)
  have "rev (remdups (rev xs @ [c])) = c # rev (remdups (rev (filter (\<lambda>x. x \<noteq> c) xs)))" for xs
  proof (induction xs rule: rev_induct)
    case (snoc y ys)
    then show ?case by (cases "y = c"; cases "y \<in> set ys") auto
  qed simp
  moreover have "filter (\<lambda>x. x \<noteq> c) (filter (\<lambda>x. x \<notin> seen) cs) = filter (\<lambda>x. x \<notin> insert c seen) cs"
    by (auto intro: filter_cong)
  ultimately show ?case using 2 by auto
qed auto

definition sorted_checks :: "CheckType list \<Rightarrow> CheckType list" where
  "sorted_checks cs = sorted_list_of_set (set cs)"

lemma sort_dedupe: "sort (rev (remdups (rev cs))) = sorted_checks cs"
  unfolding sorted_checks_def
  by (rule sorted_distinct_set_unique) simp_all

lemma normalize_Inr_iff:
  "normalizeTargetChecks cs = Inr r \<longleftrightarrow> (\<forall>c \<in> set cs. isTargetWhitelistCheckType c) \<and> r = sorted_checks cs"
proof (cases "dedupeTargetChecks cs {} []")
  case (Inl e)
  then have "\<not> (\<forall>c \<in> set cs. isTargetWhitelistCheckType c)" "cs \<noteq> []"
    using dedupe_Inr_iff [of cs "{}" "[]"] by auto
  with Inl show ?thesis by (simp add: normalizeTargetChecks_def)
next
  case (Inr x)
  with dedupe_Inr_iff [of cs "{}" "[]" x] sort_dedupe [of cs] show ?thesis
    by (auto simp: normalizeTargetChecks_def sorted_checks_def)
qed

lemma marshalTargetChecks_Inr_iff:
  "marshalTargetChecks cs = Inr t \<longleftrightarrow>
   cs \<noteq> [] \<and> (\<forall>c \<in> set cs. isTargetWhitelistCheckType c) \<and> t = json_text (encStrList (sorted_checks cs))"
proof (cases "dedupeTargetChecks cs {} []")
  case (Inl e)
  then have "\<not> (\<forall>c \<in> set cs. isTargetWhitelistCheckType c)"
    using dedupe_Inr_iff [of cs "{}" "[]"] by auto
  with Inl show ?thesis by (simp add: marshalTargetChecks_def)
next
  case (Inr x)
  with dedupe_Inr_iff [of cs "{}" "[]" x] sort_dedupe [of cs] show ?thesis
    by (auto simp: marshalTargetChecks_def)
qed

lemma parse_marshal_target:
  assumes "\<forall>c \<in> set cs. isTargetWhitelistCheckType c"
  shows "parseTargetChecksJSON (json_text (encStrList cs)) = Inr (sorted_checks cs)"
  unfolding parseTargetChecksJSON_def unmarshal_StrList
  using assms normalize_Inr_iff [of cs "sorted_checks cs"] by (simp add: encStrList_def)

lemma sorted_checks_idem [simp]: "sorted_checks (sorted_checks cs) = sorted_checks cs" "set (sorted_checks cs) = set cs"
  by (simp_all add: sorted_checks_def)

text \<open>
  C35. Metric checks survive the round trip through JSON: whatever \<open>marshalMetricChecks\<close> writes,
  \<open>parseMetricChecksJSON\<close> reads back as the same map; it writes exactly the non-empty maps whose
  checks are all supported with positive limits.
\<close>

theorem metric_checks_roundtrip:
  assumes "finite (dom checks)" and "\<forall>v \<in> ran checks. int64_range v"
  shows "case marshalMetricChecks checks of
      Inr t \<Rightarrow> parseMetricChecksJSON t = Inr checks \<and> valid_metric_checks checks \<and> dom checks \<noteq> {}
    | Inl _ \<Rightarrow> dom checks = {} \<or> \<not> valid_metric_checks checks"
proof (cases "marshalMetricChecks checks")
  case (Inl e)
  then show ?thesis using marshalMetricChecks_Inr [OF assms(1), of "json_text (encIntMap checks)"] by auto
next
  case (Inr t)
  then show ?thesis using marshalMetricChecks_Inr [OF assms(1), of t] parse_marshal_metric assms(2) by auto
qed

definition sample_checks :: "CheckType \<rightharpoonup> int" where
  "sample_checks = [CheckTypeCardinality \<mapsto> 7]"

lemma sample_checks_simps:
  "dom sample_checks = {CheckTypeCardinality}" "ran sample_checks = {7}" "valid_metric_checks sample_checks"
  by (simp_all add: sample_checks_def valid_metric_checks_def isMetricWhitelistCheckType_def)

theorem metric_checks_roundtrip_witness:
  "case marshalMetricChecks sample_checks of
     Inr t \<Rightarrow> parseMetricChecksJSON t = Inr sample_checks \<and> valid_metric_checks sample_checks \<and> dom sample_checks \<noteq> {}
   | Inl _ \<Rightarrow> False"
  using metric_checks_roundtrip [of sample_checks]
  by (simp add: sample_checks_simps int64_range_def split: sum.splits)

text \<open>
  Target checks come back from JSON sorted and without repetitions, and nothing else changes;
  \<open>marshalTargetChecks\<close> writes exactly the non-empty lists of supported checks.
\<close>

lemma target_checks_roundtrip:
  "case marshalTargetChecks checks of
     Inr t \<Rightarrow> (case parseTargetChecksJSON t of
         Inl _ \<Rightarrow> False
       | Inr read \<Rightarrow> set read = set checks \<and> sorted read \<and> distinct read)
   | Inl _ \<Rightarrow> checks = [] \<or> (\<exists>c \<in> set checks. \<not> isTargetWhitelistCheckType c)"
proof (cases "marshalTargetChecks checks")
  case (Inl e)
  then show ?thesis
    using marshalTargetChecks_Inr_iff [of checks "json_text (encStrList (sorted_checks checks))"] by auto
next
  case (Inr t)
  then have "\<forall>c \<in> set checks. isTargetWhitelistCheckType c" "t = json_text (encStrList (sorted_checks checks))"
    by (simp_all add: marshalTargetChecks_Inr_iff)
  then have "parseTargetChecksJSON t = Inr (sorted_checks checks)"
    using parse_marshal_target [of "sorted_checks checks"] by simp
  with Inr show ?thesis by (simp add: sorted_checks_def)
qed

section \<open>The tables\<close>

interpretation metric_rules: keyed_table mw_key mergeMetricsWhitelist
  by unfold_locales (simp add: mw_key_def mergeMetricsWhitelist_def)

interpretation target_rules: keyed_table tw_key mergeTargetsWhitelist
  by unfold_locales (simp add: tw_key_def mergeTargetsWhitelist_def)

definition metric_row_ok :: "MetricsWhitelistRow \<Rightarrow> bool" where
  "metric_row_ok r \<longleftrightarrow> mw_target_group r \<noteq> [] \<and> mw_env r \<noteq> [] \<and> mw_metric_name r \<noteq> [] \<and>
     (case parseMetricChecksJSON (mw_checks r) of Inl _ \<Rightarrow> False | Inr m \<Rightarrow> dom m \<noteq> {})"

definition target_row_ok :: "TargetsWhitelistRow \<Rightarrow> bool" where
  "target_row_ok r \<longleftrightarrow> tw_target_group r \<noteq> [] \<and> tw_env r \<noteq> [] \<and> isOk (parseTargetChecksJSON (tw_checks r))"

definition whitelists_ok :: "DB \<Rightarrow> bool" where
  "whitelists_ok db \<longleftrightarrow>
     distinct (map mw_key (db_metrics_whitelist db)) \<and> list_all metric_row_ok (db_metrics_whitelist db) \<and>
     distinct (map tw_key (db_targets_whitelist db)) \<and> list_all target_row_ok (db_targets_whitelist db)"

lemma whitelists_ok_rollback [simp]: "whitelists_ok (rollback db w) = whitelists_ok db"
  by (simp add: whitelists_ok_def)

lemma exec_whitelists_ok:
  "whitelists_ok db \<Longrightarrow> whitelists_ok (f db) \<Longrightarrow> whitelists_ok (snd (exec lk f db))"
  by (rule exec_invariant [where I = whitelists_ok]) simp_all

text \<open>The values of a rule, as Go's \<open>int64\<close> and finite maps give them.\<close>

definition go_rule :: "MetricWhitelistRule \<Rightarrow> bool" where
  "go_rule item \<longleftrightarrow> finite (dom (mwr_Checks item)) \<and> (\<forall>v \<in> ran (mwr_Checks item). int64_range v)"

lemma marshalled_row_ok:
  assumes "go_rule item" and "marshalMetricChecks (mwr_Checks item) = Inr t"
  shows "parseMetricChecksJSON t = Inr (mwr_Checks item)" "dom (mwr_Checks item) \<noteq> {}"
  using assms marshalMetricChecks_Inr [of "mwr_Checks item" t] parse_marshal_metric
  by (auto simp: go_rule_def)

lemma list_all_upsert:
  assumes "list_all P rows" and "P row" and "\<And>old. P old \<Longrightarrow> P (merge old row)"
  shows "list_all P (upsert key merge row rows)"
  using assms by (auto simp: upsert_def list_all_iff)

lemma UpsertMetricWhitelist_ok:
  assumes "whitelists_ok db" and "go_rule item"
  shows "whitelists_ok (snd (UpsertMetricWhitelist lk item db))"
proof (cases "mwr_TargetGroup item = [] \<or> mwr_Env item = [] \<or> mwr_MetricName item = [] \<or> dom (mwr_Checks item) = {}")
  case False
  show ?thesis
  proof (cases "marshalMetricChecks (mwr_Checks item)")
    case (Inr t)
    note ok = marshalled_row_ok [OF assms(2) Inr]
    let ?row = "\<lparr>mw_target_group = mwr_TargetGroup item, mw_env = mwr_Env item,
             mw_metric_name = mwr_MetricName item, mw_checks = t\<rparr>"
    have "whitelists_ok (db\<lparr>db_metrics_whitelist := upsert mw_key mergeMetricsWhitelist ?row (db_metrics_whitelist db)\<rparr>)"
      using assms(1) False ok metric_rules.upsert_unique [of "db_metrics_whitelist db" ?row]
      by (auto simp: whitelists_ok_def metric_rules.unique_rows_def
          intro!: list_all_upsert simp: metric_row_ok_def mergeMetricsWhitelist_def split: sum.splits)
    then show ?thesis
      using False Inr assms(1) by (simp add: UpsertMetricWhitelist_def exec_whitelists_ok)
  qed (use False assms(1) in \<open>simp add: UpsertMetricWhitelist_def\<close>)
qed (use assms(1) in \<open>auto simp: UpsertMetricWhitelist_def\<close>)

lemma UpsertTargetWhitelist_ok:
  assumes "whitelists_ok db"
  shows "whitelists_ok (snd (UpsertTargetWhitelist lk item db))"
proof (cases "twr_TargetGroup item = [] \<or> twr_Env item = [] \<or> twr_Checks item = []")
  case False
  show ?thesis
  proof (cases "marshalTargetChecks (twr_Checks item)")
    case (Inr t)
    then have ok: "isOk (parseTargetChecksJSON t)"
      using parse_marshal_target [of "sorted_checks (twr_Checks item)"] by (simp add: marshalTargetChecks_Inr_iff)
    let ?row = "\<lparr>tw_target_group = twr_TargetGroup item, tw_env = twr_Env item, tw_checks = t\<rparr>"
    have "whitelists_ok (db\<lparr>db_targets_whitelist := upsert tw_key mergeTargetsWhitelist ?row (db_targets_whitelist db)\<rparr>)"
      using assms(1) False ok target_rules.upsert_unique [of "db_targets_whitelist db" ?row]
      by (auto simp: whitelists_ok_def target_rules.unique_rows_def
          intro!: list_all_upsert simp: target_row_ok_def mergeTargetsWhitelist_def)
    then show ?thesis
      using False Inr assms(1) by (simp add: UpsertTargetWhitelist_def exec_whitelists_ok)
  qed (use False assms(1) in \<open>simp add: UpsertTargetWhitelist_def\<close>)
qed (use assms(1) in \<open>auto simp: UpsertTargetWhitelist_def\<close>)

lemma delete_ok:
  assumes "whitelists_ok db"
  shows "whitelists_ok (snd (DeleteMetricWhitelist lk tg env m db))"
    and "whitelists_ok (snd (DeleteTargetWhitelist lk tg env db))"
proof -
  have "whitelists_ok (db\<lparr>db_metrics_whitelist := filter p (db_metrics_whitelist db)\<rparr>)"
    "whitelists_ok (db\<lparr>db_targets_whitelist := filter q (db_targets_whitelist db)\<rparr>)" for p q
    using assms by (auto simp: whitelists_ok_def list_all_iff distinct_map_filter)
  then show "whitelists_ok (snd (DeleteMetricWhitelist lk tg env m db))"
    "whitelists_ok (snd (DeleteTargetWhitelist lk tg env db))"
    using assms by (simp_all add: DeleteMetricWhitelist_def DeleteTargetWhitelist_def exec_whitelists_ok)
qed

text \<open>A call of the whitelist API.\<close>

datatype whitelist_op =
    UpsertMetric MetricWhitelistRule
  | DeleteMetric string string string
  | UpsertTarget TargetWhitelistRule
  | DeleteTarget string string

fun whitelist_step :: "Link \<Rightarrow> whitelist_op \<Rightarrow> DB \<Rightarrow> unit result \<times> DB" where
  "whitelist_step lk (UpsertMetric item) db = UpsertMetricWhitelist lk item db"
| "whitelist_step lk (DeleteMetric tg env m) db = DeleteMetricWhitelist lk tg env m db"
| "whitelist_step lk (UpsertTarget item) db = UpsertTargetWhitelist lk item db"
| "whitelist_step lk (DeleteTarget tg env) db = DeleteTargetWhitelist lk tg env db"

fun go_op :: "whitelist_op \<Rightarrow> bool" where
  "go_op (UpsertMetric item) = go_rule item"
| "go_op _ = True"

lemma whitelist_step_ok: "whitelists_ok db \<Longrightarrow> go_op op \<Longrightarrow> whitelists_ok (snd (whitelist_step lk op db))"
  by (cases op) (simp_all add: UpsertMetricWhitelist_ok UpsertTargetWhitelist_ok delete_ok)

text \<open>
  C34. The whitelist API keeps the whitelist tables well formed, whatever the driver does: one row
  per key, no empty key, and checks that parse; so listing never fails on what the API stored.
\<close>

theorem whitelist_api_keeps_tables:
  "whitelists_ok db \<Longrightarrow> go_op op \<Longrightarrow> whitelists_ok (snd (whitelist_step lk op db))"
  by (rule whitelist_step_ok)

definition sample_rule :: MetricWhitelistRule where
  "sample_rule = \<lparr>mwr_TargetGroup = ''group'', mwr_Env = ''prod'', mwr_MetricName = ''metric'', mwr_Checks = sample_checks\<rparr>"

lemma sample_rule_ok: "go_rule sample_rule"
  by (simp add: sample_rule_def go_rule_def sample_checks_simps int64_range_def)

theorem whitelist_api_keeps_tables_witness:
  "whitelists_ok empty_db \<and> go_op (UpsertMetric sample_rule) \<and>
   whitelists_ok (snd (whitelist_step good_link (UpsertMetric sample_rule) empty_db))"
  using whitelist_api_keeps_tables [of empty_db "UpsertMetric sample_rule" good_link]
  by (simp add: whitelists_ok_def empty_db_def sample_rule_ok)

section \<open>The whitelists in effect, by rule\<close>

definition rule_limit :: "DB \<Rightarrow> string \<Rightarrow> string \<Rightarrow> string \<Rightarrow> CheckType \<Rightarrow> int option" where
  "rule_limit db tg env metric c =
     (case filter (\<lambda>r. mw_key r = (tg, env, metric)) (db_metrics_whitelist db) of
        [] \<Rightarrow> None
      | r # _ \<Rightarrow> (case parseMetricChecksJSON (mw_checks r) of Inl _ \<Rightarrow> None | Inr checks \<Rightarrow> checks c))"

definition rule_disables :: "DB \<Rightarrow> string \<Rightarrow> string \<Rightarrow> CheckType \<Rightarrow> bool" where
  "rule_disables db tg env c \<longleftrightarrow>
     (case filter (\<lambda>r. tw_key r = (tg, env)) (db_targets_whitelist db) of
        [] \<Rightarrow> False
      | r # _ \<Rightarrow> (case parseTargetChecksJSON (tw_checks r) of Inl _ \<Rightarrow> False | Inr checks \<Rightarrow> c \<in> set checks))"

lemma addMetricRules_none:
  "(\<And>r. r \<in> set rules \<Longrightarrow> mwr_MetricName r \<noteq> m) \<Longrightarrow> MetricChecks (foldl addMetricRule w rules) m = MetricChecks w m"
  by (induction rules arbitrary: w) (auto simp: addMetricRule_def)

lemma addMetricRules_some:
  assumes "distinct (map mwr_MetricName rules)" and "r \<in> set rules" and "dom (mwr_Checks r) \<noteq> {}"
  shows "MetricChecks (foldl addMetricRule w rules) (mwr_MetricName r) = Some (mwr_Checks r)"
  using assms
proof (induction rules arbitrary: w)
  case (Cons x rules)
  show ?case
  proof (cases "r = x")
    case True
    with Cons.prems have "mwr_MetricName r' \<noteq> mwr_MetricName r" if "r' \<in> set rules" for r'
      using that by (metis distinct.simps(2) image_eqI list.set_map list.simps(9))
    then have "MetricChecks (foldl addMetricRule (addMetricRule w x) rules) (mwr_MetricName r)
        = MetricChecks (addMetricRule w x) (mwr_MetricName r)"
      by (rule addMetricRules_none)
    moreover have "MetricChecks (addMetricRule w x) (mwr_MetricName r) = Some (mwr_Checks r)"
      using True Cons.prems by (simp add: addMetricRule_def)
    ultimately show ?thesis by simp
  qed (use Cons in auto)
qed simp

lemma addTargetRule_disabled: "DisabledChecks (addTargetRule w r) = DisabledChecks w \<union> set (twr_Checks r)"
proof -
  have "DisabledChecks (foldl (\<lambda>w c. w\<lparr>DisabledChecks := insert c (DisabledChecks w)\<rparr>) (w :: EffectiveWhitelists) cs)
      = DisabledChecks w \<union> set cs" for cs
    by (induction cs arbitrary: w) auto
  then show ?thesis by (simp add: addTargetRule_def)
qed

lemma addTargetRules_disabled:
  "DisabledChecks (foldl addTargetRule w rules) = DisabledChecks w \<union> (\<Union>r \<in> set rules. set (twr_Checks r))"
  by (induction rules arbitrary: w) (auto simp: addTargetRule_disabled)

lemma add_rules_frame:
  "MetricChecks (foldl addTargetRule w rules) = MetricChecks w"
  "DisabledChecks (foldl addMetricRule w mrules) = DisabledChecks w"
proof -
  have "MetricChecks (addTargetRule w r) = MetricChecks w" for w r
    unfolding addTargetRule_def by (rule foldl_frame) simp
  then show "MetricChecks (foldl addTargetRule w rules) = MetricChecks w" by (rule foldl_frame)
  show "DisabledChecks (foldl addMetricRule w mrules) = DisabledChecks w"
    by (rule foldl_frame) (simp add: addMetricRule_def)
qed

definition metric_checks_of :: "MetricsWhitelistRow \<Rightarrow> CheckType \<rightharpoonup> int" where
  "metric_checks_of r = (case parseMetricChecksJSON (mw_checks r) of Inl _ \<Rightarrow> Map.empty | Inr m \<Rightarrow> m)"

definition target_checks_of :: "TargetsWhitelistRow \<Rightarrow> CheckType list" where
  "target_checks_of r = (case parseTargetChecksJSON (tw_checks r) of Inl _ \<Rightarrow> [] | Inr cs \<Rightarrow> cs)"

definition metric_rule_of :: "MetricsWhitelistRow \<Rightarrow> MetricWhitelistRule" where
  "metric_rule_of r = \<lparr>mwr_TargetGroup = mw_target_group r, mwr_Env = mw_env r,
     mwr_MetricName = mw_metric_name r, mwr_Checks = metric_checks_of r\<rparr>"

definition target_rule_of :: "TargetsWhitelistRow \<Rightarrow> TargetWhitelistRule" where
  "target_rule_of r = \<lparr>twr_TargetGroup = tw_target_group r, twr_Env = tw_env r, twr_Checks = target_checks_of r\<rparr>"

lemma ListMetricWhitelist_ok:
  assumes "whitelists_ok db"
  shows "ListMetricWhitelist good_link collate tg env db = Inr (map metric_rule_of (listMetricWhitelist_rows collate tg env db))"
proof -
  have "scanMetricRule r = Inr (metric_rule_of r)" if "r \<in> set (listMetricWhitelist_rows collate tg env db)" for r
    using that assms
    by (auto simp: listMetricWhitelist_rows_def whitelists_ok_def list_all_iff metric_row_ok_def scanMetricRule_def
        metric_rule_of_def metric_checks_of_def split: sum.splits)
  then show ?thesis by (simp add: ListMetricWhitelist_def mapM_Inr_map)
qed

lemma ListTargetWhitelist_ok:
  assumes "whitelists_ok db"
  shows "ListTargetWhitelist good_link collate tg env db = Inr (map target_rule_of (listTargetWhitelist_rows collate tg env db))"
proof -
  have "scanTargetRule r = Inr (target_rule_of r)" if "r \<in> set (listTargetWhitelist_rows collate tg env db)" for r
    using that assms
    by (auto simp: listTargetWhitelist_rows_def whitelists_ok_def list_all_iff target_row_ok_def scanTargetRule_def
        target_rule_of_def target_checks_of_def isOk_iff split: sum.splits)
  then show ?thesis by (simp add: ListTargetWhitelist_def mapM_Inr_map)
qed

lemma Effective_metric:
  assumes ok: "whitelists_ok db" and "tg \<noteq> []" "env \<noteq> []"
  shows "MetricCustomLimit (Some (foldl addMetricRule NewEffectiveWhitelists
      (map metric_rule_of (listMetricWhitelist_rows collate tg env db)))) m c = rule_limit db tg env m c"
proof -
  let ?rows = "listMetricWhitelist_rows collate tg env db"
  have rows: "set ?rows = {r \<in> set (db_metrics_whitelist db). mw_target_group r = tg \<and> mw_env r = env}"
    using assms by (auto simp: listMetricWhitelist_rows_def)
  have at: "filter (\<lambda>r. mw_key r = (tg, env, m)) (db_metrics_whitelist db) = [] \<or>
     (\<exists>r. filter (\<lambda>r. mw_key r = (tg, env, m)) (db_metrics_whitelist db) = [r] \<and> mw_key r = (tg, env, m))"
    using metric_rules.rows_at_unique [of "db_metrics_whitelist db" "(tg, env, m)"] ok
    by (simp add: whitelists_ok_def metric_rules.unique_rows_def metric_rules.rows_at_def)
  then show ?thesis
  proof (elim disjE exE conjE)
    assume none: "filter (\<lambda>r. mw_key r = (tg, env, m)) (db_metrics_whitelist db) = []"
    then have "mwr_MetricName r \<noteq> m" if "r \<in> set (map metric_rule_of ?rows)" for r
      using that rows by (auto simp: filter_empty_conv mw_key_def metric_rule_of_def)
    then have "MetricChecks (foldl addMetricRule w (map metric_rule_of ?rows)) m = MetricChecks w m" for w
      by (rule addMetricRules_none)
    with none show ?thesis by (simp add: rule_limit_def NewEffectiveWhitelists_def)
  next
    fix r assume r: "filter (\<lambda>r. mw_key r = (tg, env, m)) (db_metrics_whitelist db) = [r]" "mw_key r = (tg, env, m)"
    then have mem: "r \<in> set (db_metrics_whitelist db)" by (auto simp: filter_eq_Cons_iff)
    have dist: "distinct (map mwr_MetricName (map metric_rule_of ?rows))"
    proof -
      have "distinct (map mw_key ?rows)"
        using ok unfolding whitelists_ok_def listMetricWhitelist_rows_def
        by (auto simp: distinct_map inj_on_def)
      then show ?thesis
        using rows by (auto simp: distinct_map inj_on_def metric_rule_of_def mw_key_def)
    qed
    have rule: "metric_rule_of r \<in> set (map metric_rule_of ?rows)" "mwr_MetricName (metric_rule_of r) = m"
      using r mem rows by (auto simp: mw_key_def metric_rule_of_def)
    from ok mem have "metric_row_ok r" by (simp add: whitelists_ok_def list_all_iff)
    then obtain checks where checks: "parseMetricChecksJSON (mw_checks r) = Inr checks" "dom checks \<noteq> {}"
      by (cases "parseMetricChecksJSON (mw_checks r)") (auto simp: metric_row_ok_def)
    from addMetricRules_some [OF dist rule(1)] checks rule(2) r(1) show ?thesis
      by (simp add: rule_limit_def metric_rule_of_def metric_checks_of_def split: option.splits)
  qed
qed

lemma Effective_target:
  assumes ok: "whitelists_ok db" and "tg \<noteq> []" "env \<noteq> []"
  shows "c \<in> (\<Union>r \<in> set (map target_rule_of (listTargetWhitelist_rows collate tg env db)). set (twr_Checks r))
    \<longleftrightarrow> rule_disables db tg env c"
proof -
  have rows: "set (listTargetWhitelist_rows collate tg env db) = set (filter (\<lambda>r. tw_key r = (tg, env)) (db_targets_whitelist db))"
    using assms by (auto simp: listTargetWhitelist_rows_def tw_key_def)
  have at: "filter (\<lambda>r. tw_key r = (tg, env)) (db_targets_whitelist db) = [] \<or>
     (\<exists>r. filter (\<lambda>r. tw_key r = (tg, env)) (db_targets_whitelist db) = [r])"
    using target_rules.rows_at_unique [of "db_targets_whitelist db" "(tg, env)"] ok
    by (auto simp: whitelists_ok_def target_rules.unique_rows_def target_rules.rows_at_def)
  then show ?thesis
    unfolding set_map rows
    by (elim disjE exE)
      (simp_all add: rule_disables_def target_rule_of_def target_checks_of_def split: sum.splits del: set_filter)
qed

lemma Effective_value:
  assumes ok: "whitelists_ok db" and ne: "tg \<noteq> []" "env \<noteq> []"
  shows "\<exists>w. GetEffectiveWhitelists good_link good_link collate tg env db = Inr w \<and>
     (\<forall>m c. MetricCustomLimit (Some w) m c = rule_limit db tg env m c) \<and>
     (\<forall>c. IsCheckDisabled (Some w) c \<longleftrightarrow> rule_disables db tg env c)"
proof -
  let ?mrules = "map metric_rule_of (listMetricWhitelist_rows collate tg env db)"
  let ?trules = "map target_rule_of (listTargetWhitelist_rows collate tg env db)"
  let ?w = "foldl addTargetRule (foldl addMetricRule NewEffectiveWhitelists ?mrules) ?trules"
  have "GetEffectiveWhitelists good_link good_link collate tg env db = Inr ?w"
    by (simp add: GetEffectiveWhitelists_def ListMetricWhitelist_ok [OF ok] ListTargetWhitelist_ok [OF ok])
  moreover have "MetricCustomLimit (Some ?w) m c = rule_limit db tg env m c" for m c
    using Effective_metric [OF ok ne, of collate m c] by (simp add: add_rules_frame)
  moreover have "IsCheckDisabled (Some ?w) c \<longleftrightarrow> rule_disables db tg env c" for c
    using Effective_target [OF ok ne, of c collate]
    by (simp add: addTargetRules_disabled add_rules_frame NewEffectiveWhitelists_def)
  ultimately show ?thesis by blast
qed

text \<open>
  An empty group or environment is no filter: then the rules of several pairs match, the checks that
  any of them disables are disabled, and of the limits for a metric those of the last rule listed win.
\<close>

lemma addMetricRules_last:
  assumes "\<And>r. r \<in> set rules \<Longrightarrow> dom (mwr_Checks r) \<noteq> {}"
  shows "MetricChecks (foldl addMetricRule w rules) m =
    (let named = filter (\<lambda>r. mwr_MetricName r = m) rules in
     if named = [] then MetricChecks w m else Some (mwr_Checks (last named)))"
  using assms
proof (induction rules rule: rev_induct)
  case (snoc x rules)
  then have "dom (mwr_Checks x) \<noteq> {}" by simp
  with snoc show ?case by (simp add: addMetricRule_def Let_def)
qed simp

lemma filter_key_unique: "distinct (map f xs) \<Longrightarrow> x \<in> set xs \<Longrightarrow> filter (\<lambda>y. f y = f x) xs = [x]"
proof (induction xs)
  case (Cons y xs)
  then show ?case
  proof (cases "x = y")
    case True
    with Cons.prems have "f z \<noteq> f x" if "z \<in> set xs" for z using that by (metis distinct.simps(2) image_eqI list.set_map list.simps(9))
    with True show ?thesis by (simp add: filter_empty_conv)
  qed (use Cons in auto)
qed simp

lemma rule_limit_row:
  assumes ok: "whitelists_ok db" and r: "r \<in> set (db_metrics_whitelist db)"
  shows "rule_limit db (mw_target_group r) (mw_env r) (mw_metric_name r) c = metric_checks_of r c"
proof -
  have "filter (\<lambda>x. mw_key x = mw_key r) (db_metrics_whitelist db) = [r]"
    by (rule filter_key_unique [OF _ r]) (use ok in \<open>simp add: whitelists_ok_def\<close>)
  then show ?thesis by (simp add: rule_limit_def metric_checks_of_def mw_key_def split: sum.splits)
qed

lemma rule_disables_row:
  assumes ok: "whitelists_ok db" and r: "r \<in> set (db_targets_whitelist db)"
  shows "rule_disables db (tw_target_group r) (tw_env r) c \<longleftrightarrow> c \<in> set (target_checks_of r)"
proof -
  have "filter (\<lambda>x. tw_key x = tw_key r) (db_targets_whitelist db) = [r]"
    by (rule filter_key_unique [OF _ r]) (use ok in \<open>simp add: whitelists_ok_def\<close>)
  then show ?thesis by (simp add: rule_disables_def target_checks_of_def tw_key_def split: sum.splits)
qed

lemma metric_row_checks: "whitelists_ok db \<Longrightarrow> r \<in> set (db_metrics_whitelist db) \<Longrightarrow> dom (metric_checks_of r) \<noteq> {}"
  by (auto simp: whitelists_ok_def list_all_iff metric_row_ok_def metric_checks_of_def split: sum.splits)

lemma Effective_matching:
  assumes ok: "whitelists_ok db" and w: "GetEffectiveWhitelists good_link good_link collate tg env db = Inr w"
  shows "IsCheckDisabled (Some w) c \<longleftrightarrow> (\<exists>r \<in> set (listTargetWhitelist_rows collate tg env db). rule_disables db (tw_target_group r) (tw_env r) c)"
    and "MetricCustomLimit (Some w) m c =
      (let named = filter (\<lambda>r. mw_metric_name r = m) (listMetricWhitelist_rows collate tg env db) in
       if named = [] then None else rule_limit db (mw_target_group (last named)) (mw_env (last named)) m c)"
proof -
  let ?mrows = "listMetricWhitelist_rows collate tg env db" and ?trows = "listTargetWhitelist_rows collate tg env db"
  have w': "w = foldl addTargetRule (foldl addMetricRule NewEffectiveWhitelists (map metric_rule_of ?mrows)) (map target_rule_of ?trows)"
    using w by (simp add: GetEffectiveWhitelists_def ListMetricWhitelist_ok [OF ok] ListTargetWhitelist_ok [OF ok])
  have trows: "r \<in> set (db_targets_whitelist db)" if "r \<in> set ?trows" for r
    using that by (simp add: listTargetWhitelist_rows_def)
  have mrows: "r \<in> set (db_metrics_whitelist db)" if "r \<in> set ?mrows" for r
    using that by (simp add: listMetricWhitelist_rows_def)
  show "IsCheckDisabled (Some w) c \<longleftrightarrow> (\<exists>r \<in> set ?trows. rule_disables db (tw_target_group r) (tw_env r) c)"
    using rule_disables_row [OF ok trows]
    by (simp add: w' addTargetRules_disabled add_rules_frame NewEffectiveWhitelists_def target_rule_of_def)
  let ?named = "filter (\<lambda>r. mw_metric_name r = m) ?mrows"
  have named: "filter (\<lambda>r. mwr_MetricName r = m) (map metric_rule_of ?mrows) = map metric_rule_of ?named"
    by (simp add: filter_map comp_def metric_rule_of_def)
  have checks: "dom (mwr_Checks r) \<noteq> {}" if "r \<in> set (map metric_rule_of ?mrows)" for r
    using that metric_row_checks [OF ok mrows] by (auto simp: metric_rule_of_def)
  have "MetricChecks (foldl addMetricRule NewEffectiveWhitelists (map metric_rule_of ?mrows)) m =
      (let named = filter (\<lambda>r. mwr_MetricName r = m) (map metric_rule_of ?mrows) in
       if named = [] then MetricChecks NewEffectiveWhitelists m else Some (mwr_Checks (last named)))"
    by (rule addMetricRules_last) (rule checks)
  then have MC: "MetricChecks w m = (if ?named = [] then None else Some (mwr_Checks (last (map metric_rule_of ?named))))"
    unfolding w' add_rules_frame named Let_def by (simp add: NewEffectiveWhitelists_def)
  have "MetricCustomLimit (Some w) m c = (if ?named = [] then None
      else rule_limit db (mw_target_group (last ?named)) (mw_env (last ?named)) m c)"
  proof (cases "?named = []")
    case False
    then have "last ?named \<in> set ?named" by (rule last_in_set)
    then have l: "last ?named \<in> set (db_metrics_whitelist db)" "mw_metric_name (last ?named) = m" using mrows by auto
    from MC False have "MetricChecks w m = Some (metric_checks_of (last ?named))"
      by (simp add: last_map metric_rule_of_def)
    with False rule_limit_row [OF ok l(1), of c] l(2) show ?thesis by (simp split: option.splits)
  qed (use MC in simp)
  then show "MetricCustomLimit (Some w) m c = (let named = ?named in
      if named = [] then None else rule_limit db (mw_target_group (last named)) (mw_env (last named)) m c)" by (simp add: Let_def)
qed

text \<open>
  C33. For a target group and an environment that are both not empty, the whitelists in effect are exactly
  the stored rules for that pair: a metric's custom limit is the one of the rule for (group, env, metric)
  and a check is disabled exactly when the rule for (group, env) lists it; no rule of another pair has any
  effect. When one of the two is empty it does not filter: a check is disabled exactly when some matching
  rule lists it, and of several matching rules for a metric the last one of the listing gives the limits.
\<close>

theorem GetEffectiveWhitelists_exact:
  assumes "whitelists_ok db"
  shows "case GetEffectiveWhitelists good_link good_link collate tg env db of
      Inl _ \<Rightarrow> False
    | Inr w \<Rightarrow>
        (tg \<noteq> [] \<and> env \<noteq> [] \<longrightarrow>
          (\<forall>m c. MetricCustomLimit (Some w) m c = rule_limit db tg env m c) \<and>
          (\<forall>c. IsCheckDisabled (Some w) c \<longleftrightarrow> rule_disables db tg env c)) \<and>
        (\<forall>m c. MetricCustomLimit (Some w) m c =
          (let named = filter (\<lambda>r. mw_metric_name r = m) (listMetricWhitelist_rows collate tg env db) in
           if named = [] then None else rule_limit db (mw_target_group (last named)) (mw_env (last named)) m c)) \<and>
        (\<forall>c. IsCheckDisabled (Some w) c \<longleftrightarrow>
          (\<exists>r \<in> set (db_targets_whitelist db). (tg = [] \<or> tw_target_group r = tg) \<and> (env = [] \<or> tw_env r = env) \<and>
             rule_disables db (tw_target_group r) (tw_env r) c))"
proof -
  obtain w where w: "GetEffectiveWhitelists good_link good_link collate tg env db = Inr w"
    by (simp add: GetEffectiveWhitelists_def ListMetricWhitelist_ok [OF assms] ListTargetWhitelist_ok [OF assms])
  have pair: "tg \<noteq> [] \<and> env \<noteq> [] \<longrightarrow> (\<forall>m c. MetricCustomLimit (Some w) m c = rule_limit db tg env m c) \<and>
      (\<forall>c. IsCheckDisabled (Some w) c \<longleftrightarrow> rule_disables db tg env c)"
    using Effective_value [OF assms, of tg env collate] w by auto
  have rows: "set (listTargetWhitelist_rows collate tg env db) =
      {r \<in> set (db_targets_whitelist db). (tg = [] \<or> tw_target_group r = tg) \<and> (env = [] \<or> tw_env r = env)}"
    by (auto simp: listTargetWhitelist_rows_def)
  have "(\<forall>c. IsCheckDisabled (Some w) c \<longleftrightarrow>
      (\<exists>r \<in> set (db_targets_whitelist db). (tg = [] \<or> tw_target_group r = tg) \<and> (env = [] \<or> tw_env r = env) \<and>
         rule_disables db (tw_target_group r) (tw_env r) c))"
    unfolding Effective_matching(1) [OF assms w] rows by blast
  with pair Effective_matching(2) [OF assms w] show ?thesis by (simp only: w sum.case) blast
qed

definition sample_rules_db :: DB where
  "sample_rules_db = snd (UpsertMetricWhitelist good_link sample_rule empty_db)"

lemma sample_rules_ok: "whitelists_ok empty_db" "whitelists_ok sample_rules_db"
proof -
  show "whitelists_ok empty_db" by (simp add: whitelists_ok_def empty_db_def)
  then show "whitelists_ok sample_rules_db"
    using whitelist_step_ok [of empty_db "UpsertMetric sample_rule" good_link] by (simp add: sample_rule_ok sample_rules_db_def)
qed

theorem GetEffectiveWhitelists_exact_witness:
  "whitelists_ok sample_rules_db \<and>
   (case GetEffectiveWhitelists good_link good_link (\<lambda>s. s) ''group'' ''prod'' sample_rules_db of
      Inl _ \<Rightarrow> False
    | Inr w \<Rightarrow> MetricCustomLimit (Some w) ''metric'' CheckTypeCardinality =
                rule_limit sample_rules_db ''group'' ''prod'' ''metric'' CheckTypeCardinality)"
  using GetEffectiveWhitelists_exact [OF sample_rules_ok(2), where tg = "''group''" and env = "''prod''" and collate = "\<lambda>s. s"] sample_rules_ok(2)
  by (simp split: sum.splits)

lemma upserted_rule_limit:
  assumes "whitelists_ok db" and "go_rule item" and "UpsertMetricWhitelist lk item db = (Inr u, db')"
  shows "rule_limit db' tg env m c =
    (if (tg, env, m) = (mwr_TargetGroup item, mwr_Env item, mwr_MetricName item)
     then mwr_Checks item c else rule_limit db tg env m c)"
proof -
  obtain t where t: "marshalMetricChecks (mwr_Checks item) = Inr t"
    and ex: "exec lk (\<lambda>db. db\<lparr>db_metrics_whitelist := upsert mw_key mergeMetricsWhitelist
            \<lparr>mw_target_group = mwr_TargetGroup item, mw_env = mwr_Env item,
             mw_metric_name = mwr_MetricName item, mw_checks = t\<rparr> (db_metrics_whitelist db)\<rparr>) db = (Inr u, db')"
    using assms(3) by (auto simp: UpsertMetricWhitelist_def split: if_splits sum.splits)
  let ?row = "\<lparr>mw_target_group = mwr_TargetGroup item, mw_env = mwr_Env item,
             mw_metric_name = mwr_MetricName item, mw_checks = t\<rparr>"
  have db': "db_metrics_whitelist db' = upsert mw_key mergeMetricsWhitelist ?row (db_metrics_whitelist db)"
    using exec_Inr [OF ex] by simp
  have key: "mw_key ?row = (mwr_TargetGroup item, mwr_Env item, mwr_MetricName item)" by (simp add: mw_key_def)
  show ?thesis
  proof (cases "(tg, env, m) = mw_key ?row")
    case False
    then have "rule_limit db' tg env m c = rule_limit db tg env m c"
      using metric_rules.upsert_other [of "(tg, env, m)" ?row "db_metrics_whitelist db"]
      by (simp add: rule_limit_def db' metric_rules.rows_at_def)
    with False key show ?thesis by auto
  next
    case True
    with metric_rules.upsert_self [of ?row "db_metrics_whitelist db"] marshalled_row_ok [OF assms(2) t] key
    show ?thesis
      by (simp add: rule_limit_def db' metric_rules.rows_at_def mergeMetricsWhitelist_def split: list.splits)
  qed
qed

text \<open>
  A saved rule takes effect and nothing else changes: after a successful \<open>UpsertMetricWhitelist\<close>
  the custom limits of its metric are exactly the rule's, and those of every other (group, env,
  metric) are what they were.
\<close>

lemma UpsertMetricWhitelist_takes_effect:
  assumes "whitelists_ok db" and "go_rule item" and "UpsertMetricWhitelist lk item db = (Inr u, db')"
    and "tg \<noteq> []" and "env \<noteq> []"
  shows "case GetEffectiveWhitelists good_link good_link collate tg env db' of
      Inl _ \<Rightarrow> False
    | Inr w \<Rightarrow> \<forall>m c. MetricCustomLimit (Some w) m c =
        (if (tg, env, m) = (mwr_TargetGroup item, mwr_Env item, mwr_MetricName item)
         then mwr_Checks item c else rule_limit db tg env m c)"
proof -
  have "whitelists_ok db'" using UpsertMetricWhitelist_ok [OF assms(1,2), of lk] assms(3) by simp
  from Effective_value [OF this assms(4,5), of collate] upserted_rule_limit [OF assms(1-3)]
  show ?thesis by auto
qed

lemma sample_upsert: "UpsertMetricWhitelist good_link sample_rule empty_db = (Inr (), sample_rules_db)"
proof -
  have "marshalMetricChecks sample_checks \<noteq> Inl e" for e
    using sample_checks_simps by (simp add: marshalMetricChecks_def isMetricWhitelistCheckType_def sample_checks_def)
  then show ?thesis
    by (simp add: sample_rules_db_def UpsertMetricWhitelist_def sample_rule_def sample_checks_simps split: sum.splits)
qed

end
