(* ===== verification/Api_Messages.thy ===== *)
theory Api_Messages
  imports Target_Groups Whitelist_Storage "HOL-Library.Word"
begin

text \<open>
  The messages of the HTTP API and the functions that convert to and from them (the second half
  of \<open>internal/httpapi/target_groups_service.go\<close>). The message types are generated from
  \<open>proto/metricsherlock/targetgroups/v1\<close>; here they are records of the fields the converters
  set. A pointer to a message is an option. The fields of type \<open>int32\<close> are 32-bit words read
  as signed numbers: Go's conversion \<open>int32(x)\<close> keeps the low 32 bits, \<open>word_of_int\<close>.
\<close>

section \<open>Messages\<close>

type_synonym int32 = "32 word"

record Timestamp =
  ts_Seconds :: int
  ts_Nanos :: int

record ViolationStats =
  vs_Total :: int32
  vs_MetricNameTooLong :: int32
  vs_LabelNameTooLong :: int32
  vs_LabelValueTooLong :: int32
  vs_Cardinality :: int32
  vs_HistogramBuckets :: int32
  vs_ResponseWeight :: int

record TargetGroupSummary =
  sm_Id :: int
  sm_Name :: string
  sm_Env :: string
  sm_Cluster :: string
  sm_Job :: string
  sm_TeamName :: string
  sm_FirstCheck :: "Timestamp option"
  sm_LastCheck :: "Timestamp option"
  sm_ViolationStats :: ViolationStats

record MetricNameViolation_pb =
  pmn_MetricName :: string
  pmn_Length :: int32

record LabelNameViolation_pb =
  pln_MetricName :: string
  pln_LabelName :: string
  pln_Length :: int32

record LabelValueViolation_pb =
  plv_MetricName :: string
  plv_LabelName :: string
  plv_Value :: string
  plv_Length :: int32

record CardinalityViolation_pb =
  pcv_MetricName :: string
  pcv_Value :: int32

record HistogramBucketsViolation_pb =
  phb_MetricName :: string
  phb_Buckets :: int32

record MaxViolationStats =
  pmx_MetricNameTooLong :: "MetricNameViolation_pb option"
  pmx_LabelNameTooLong :: "LabelNameViolation_pb option"
  pmx_LabelValueTooLong :: "LabelValueViolation_pb option"
  pmx_Cardinality :: "CardinalityViolation_pb option"
  pmx_HistogramBuckets :: "HistogramBucketsViolation_pb option"

record CheckMetric =
  cm_Limit :: int
  cm_Current :: int

record CheckMetrics =
  cms_MetricNameLength :: "CheckMetric option"
  cms_LabelNameLength :: "CheckMetric option"
  cms_LabelValueLength :: "CheckMetric option"
  cms_Cardinality :: "CheckMetric option"
  cms_HistogramBuckets :: "CheckMetric option"
  cms_ResponseWeight :: "CheckMetric option"

record ViolationDetails =
  vd_MetricNameTooLong :: "MetricNameViolation_pb list"
  vd_LabelNameTooLong :: "LabelNameViolation_pb list"
  vd_LabelValueTooLong :: "LabelValueViolation_pb list"
  vd_Cardinality :: "CardinalityViolation_pb list"
  vd_HistogramBuckets :: "HistogramBucketsViolation_pb list"
  vd_ResponseWeight :: int
  vd_Checks :: "CheckMetrics option"
  vd_Max :: "MaxViolationStats option"

record TargetGroupDetails =
  tgd_Summary :: TargetGroupSummary
  tgd_Violations :: ViolationDetails
  tgd_ReportCreatedAt :: "Timestamp option"

record MetricWhitelistChecks =
  mwc_MetricNameLength :: int
  mwc_LabelNameLength :: int
  mwc_LabelValueLength :: int
  mwc_Cardinality :: int
  mwc_HistogramBuckets :: int

record MetricWhitelistItem =
  mwi_TargetGroup :: string
  mwi_Env :: string
  mwi_MetricName :: string
  mwi_Checks :: "MetricWhitelistChecks option"

record TargetWhitelistChecks =
  twc_MetricNameLength :: bool
  twc_LabelNameLength :: bool
  twc_LabelValueLength :: bool
  twc_Cardinality :: bool
  twc_HistogramBuckets :: bool
  twc_ResponseWeight :: bool

record TargetWhitelistItem =
  twi_TargetGroup :: string
  twi_Env :: string
  twi_Checks :: "TargetWhitelistChecks option"

record MetricCheckLimits =
  mcl_MaxMetricNameLen :: int
  mcl_MaxLabelNameLen :: int
  mcl_MaxLabelValueLen :: int
  mcl_MaxMetricCardinality :: int
  mcl_MaxHistogramBuckets :: int
  mcl_MaxBytesWeight :: int

section \<open>Target groups\<close>

text \<open>Times are microseconds of the Unix epoch; \<open>timestamppb.New\<close> splits off the seconds.\<close>

definition toTimestamp :: "int option \<Rightarrow> Timestamp option" where
  "toTimestamp v =
     (case v of
        None \<Rightarrow> None
      | Some t \<Rightarrow> if t = zero_time then None
                  else Some \<lparr>ts_Seconds = t div 1000000, ts_Nanos = (t mod 1000000) * 1000\<rparr>)"

definition toViolationStats :: "Details \<Rightarrow> ViolationStats" where
  "toViolationStats details =
     (let metricNameTooLong = word_of_int (int (length (d_MetricNameTooLong details)));
          labelNameTooLong = word_of_int (int (length (d_LabelNameTooLong details)));
          labelValueTooLong = word_of_int (int (length (d_LabelValueTooLong details)));
          cardinality = word_of_int (int (length (d_Cardinality details)));
          histogramBuckets = word_of_int (int (length (d_HistogramBuckets details)))
      in \<lparr>vs_Total = metricNameTooLong + labelNameTooLong + labelValueTooLong + cardinality + histogramBuckets,
          vs_MetricNameTooLong = metricNameTooLong, vs_LabelNameTooLong = labelNameTooLong,
          vs_LabelValueTooLong = labelValueTooLong, vs_Cardinality = cardinality,
          vs_HistogramBuckets = histogramBuckets, vs_ResponseWeight = d_ResponseWeight details\<rparr>)"

definition toTargetGroupSummary :: "TargetGroupWithReport \<Rightarrow> TargetGroupSummary" where
  "toTargetGroupSummary tg =
     \<lparr>sm_Id = twp_ID tg, sm_Name = twp_Name tg, sm_Env = twp_Env tg, sm_Cluster = twp_Cluster tg,
      sm_Job = twp_Job tg, sm_TeamName = twp_TeamName tg,
      sm_FirstCheck = toTimestamp (Some (twp_FirstCheck tg)),
      sm_LastCheck = toTimestamp (Some (twp_LastCheck tg)),
      sm_ViolationStats = toViolationStats (twp_Details tg)\<rparr>"

definition toCheckMetricFromResult :: "(CheckType \<rightharpoonup> CheckResult) \<Rightarrow> CheckType \<Rightarrow> CheckMetric option" where
  "toCheckMetricFromResult byType checkType =
     (case byType checkType of
        None \<Rightarrow> None
      | Some check \<Rightarrow> Some \<lparr>cm_Limit = chk_Limit check, cm_Current = chk_Current check\<rparr>)"

definition toCheckMetricsFromResults :: "CheckResult list \<Rightarrow> CheckMetrics" where
  "toCheckMetricsFromResults checks =
     (let byType = foldl (\<lambda>m check. m(chk_Type check \<mapsto> check)) Map.empty checks
      in \<lparr>cms_MetricNameLength = toCheckMetricFromResult byType CheckTypeMetricNameLength,
          cms_LabelNameLength = toCheckMetricFromResult byType CheckTypeLabelNameLength,
          cms_LabelValueLength = toCheckMetricFromResult byType CheckTypeLabelValueLength,
          cms_Cardinality = toCheckMetricFromResult byType CheckTypeCardinality,
          cms_HistogramBuckets = toCheckMetricFromResult byType CheckTypeHistogramBuckets,
          cms_ResponseWeight = toCheckMetricFromResult byType CheckTypeResponseWeight\<rparr>)"

definition toCheckMetric :: "Details \<Rightarrow> (CheckLimits \<Rightarrow> int) \<Rightarrow> (CheckCurrent \<Rightarrow> int) \<Rightarrow> CheckMetric option" where
  "toCheckMetric details getLimit getCurrent =
     (if d_Limits details = None \<and> d_Current details = None then None
      else Some \<lparr>cm_Limit = (case d_Limits details of None \<Rightarrow> 0 | Some l \<Rightarrow> getLimit l),
                 cm_Current = (case d_Current details of None \<Rightarrow> 0 | Some c \<Rightarrow> getCurrent c)\<rparr>)"

definition toCheckMetrics :: "Details \<Rightarrow> CheckMetrics option" where
  "toCheckMetrics details =
     (if length (d_Checks details) > 0 then Some (toCheckMetricsFromResults (d_Checks details))
      else if d_Limits details = None \<and> d_Current details = None then None
      else Some
        \<lparr>cms_MetricNameLength = toCheckMetric details cl_MetricNameLength cc_MetricNameLength,
         cms_LabelNameLength = toCheckMetric details cl_LabelNameLength cc_LabelNameLength,
         cms_LabelValueLength = toCheckMetric details cl_LabelValueLength cc_LabelValueLength,
         cms_Cardinality = toCheckMetric details cl_Cardinality cc_Cardinality,
         cms_HistogramBuckets = toCheckMetric details cl_HistogramBuckets cc_HistogramBuckets,
         cms_ResponseWeight = toCheckMetric details cl_ResponseWeight cc_ResponseWeight\<rparr>)"

text \<open>One entry of each of the five lists, in the loops of \<open>toViolationDetails\<close> and again under \<open>Max\<close>.\<close>

definition pbMetricName :: "MetricNameViolation \<Rightarrow> MetricNameViolation_pb" where
  "pbMetricName v = \<lparr>pmn_MetricName = mn_MetricName v, pmn_Length = word_of_int (mn_Length v)\<rparr>"

definition pbLabelName :: "LabelNameViolation \<Rightarrow> LabelNameViolation_pb" where
  "pbLabelName v = \<lparr>pln_MetricName = ln_MetricName v, pln_LabelName = ln_LabelName v, pln_Length = word_of_int (ln_Length v)\<rparr>"

definition pbLabelValue :: "LabelValueViolation \<Rightarrow> LabelValueViolation_pb" where
  "pbLabelValue v = \<lparr>plv_MetricName = lv_MetricName v, plv_LabelName = lv_LabelName v, plv_Value = lv_Value v,
     plv_Length = word_of_int (lv_Length v)\<rparr>"

definition pbCardinality :: "CardinalityViolation \<Rightarrow> CardinalityViolation_pb" where
  "pbCardinality v = \<lparr>pcv_MetricName = cv_MetricName v, pcv_Value = word_of_int (cv_Value v)\<rparr>"

definition pbHistogramBuckets :: "HistogramBucketsViolation \<Rightarrow> HistogramBucketsViolation_pb" where
  "pbHistogramBuckets v = \<lparr>phb_MetricName = hb_MetricName v, phb_Buckets = word_of_int (hb_Buckets v)\<rparr>"

definition toMaxViolationStats :: "MaxStats \<Rightarrow> MaxViolationStats" where
  "toMaxViolationStats mx =
     \<lparr>pmx_MetricNameTooLong = map_option pbMetricName (mx_MetricNameTooLong mx),
      pmx_LabelNameTooLong = map_option pbLabelName (mx_LabelNameTooLong mx),
      pmx_LabelValueTooLong = map_option pbLabelValue (mx_LabelValueTooLong mx),
      pmx_Cardinality = map_option pbCardinality (mx_Cardinality mx),
      pmx_HistogramBuckets = map_option pbHistogramBuckets (mx_HistogramBuckets mx)\<rparr>"

definition toViolationDetails :: "Details \<Rightarrow> ViolationDetails" where
  "toViolationDetails details =
     \<lparr>vd_MetricNameTooLong = map pbMetricName (d_MetricNameTooLong details),
      vd_LabelNameTooLong = map pbLabelName (d_LabelNameTooLong details),
      vd_LabelValueTooLong = map pbLabelValue (d_LabelValueTooLong details),
      vd_Cardinality = map pbCardinality (d_Cardinality details),
      vd_HistogramBuckets = map pbHistogramBuckets (d_HistogramBuckets details),
      vd_ResponseWeight = d_ResponseWeight details,
      vd_Checks = toCheckMetrics details,
      vd_Max = map_option toMaxViolationStats (d_Max details)\<rparr>"

section \<open>Whitelists\<close>

text \<open>Reading a missing key of a Go map gives the zero value.\<close>

definition map_get :: "(CheckType \<rightharpoonup> int) \<Rightarrow> CheckType \<Rightarrow> int" where
  "map_get m k = (case m k of None \<Rightarrow> 0 | Some v \<Rightarrow> v)"

definition toMetricWhitelistChecks :: "(CheckType \<rightharpoonup> int) \<Rightarrow> MetricWhitelistChecks option" where
  "toMetricWhitelistChecks checks =
     (if dom checks = {} then None
      else Some
        \<lparr>mwc_MetricNameLength = map_get checks CheckTypeMetricNameLength,
         mwc_LabelNameLength = map_get checks CheckTypeLabelNameLength,
         mwc_LabelValueLength = map_get checks CheckTypeLabelValueLength,
         mwc_Cardinality = map_get checks CheckTypeCardinality,
         mwc_HistogramBuckets = map_get checks CheckTypeHistogramBuckets\<rparr>)"

definition put_positive :: "CheckType \<Rightarrow> int \<Rightarrow> (CheckType \<rightharpoonup> int) \<Rightarrow> (CheckType \<rightharpoonup> int)" where
  "put_positive k v m = (if v > 0 then m(k \<mapsto> v) else m)"

definition fromMetricWhitelistChecks :: "MetricWhitelistChecks option \<Rightarrow> (CheckType \<rightharpoonup> int)" where
  "fromMetricWhitelistChecks checks =
     (case checks of
        None \<Rightarrow> Map.empty
      | Some c \<Rightarrow>
          put_positive CheckTypeHistogramBuckets (mwc_HistogramBuckets c)
          (put_positive CheckTypeCardinality (mwc_Cardinality c)
          (put_positive CheckTypeLabelValueLength (mwc_LabelValueLength c)
          (put_positive CheckTypeLabelNameLength (mwc_LabelNameLength c)
          (put_positive CheckTypeMetricNameLength (mwc_MetricNameLength c) Map.empty)))))"

definition toMetricWhitelistItem :: "MetricWhitelistRule \<Rightarrow> MetricWhitelistItem" where
  "toMetricWhitelistItem item =
     \<lparr>mwi_TargetGroup = mwr_TargetGroup item, mwi_Env = mwr_Env item, mwi_MetricName = mwr_MetricName item,
      mwi_Checks = toMetricWhitelistChecks (mwr_Checks item)\<rparr>"

definition noTargetChecks :: TargetWhitelistChecks where
  "noTargetChecks = \<lparr>twc_MetricNameLength = False, twc_LabelNameLength = False, twc_LabelValueLength = False,
     twc_Cardinality = False, twc_HistogramBuckets = False, twc_ResponseWeight = False\<rparr>"

definition setTargetCheck :: "TargetWhitelistChecks \<Rightarrow> CheckType \<Rightarrow> TargetWhitelistChecks" where
  "setTargetCheck resp checkType =
     (if checkType = CheckTypeMetricNameLength then resp\<lparr>twc_MetricNameLength := True\<rparr>
      else if checkType = CheckTypeLabelNameLength then resp\<lparr>twc_LabelNameLength := True\<rparr>
      else if checkType = CheckTypeLabelValueLength then resp\<lparr>twc_LabelValueLength := True\<rparr>
      else if checkType = CheckTypeCardinality then resp\<lparr>twc_Cardinality := True\<rparr>
      else if checkType = CheckTypeHistogramBuckets then resp\<lparr>twc_HistogramBuckets := True\<rparr>
      else if checkType = CheckTypeResponseWeight then resp\<lparr>twc_ResponseWeight := True\<rparr>
      else resp)"

definition toTargetWhitelistChecks :: "CheckType list \<Rightarrow> TargetWhitelistChecks option" where
  "toTargetWhitelistChecks checks =
     (if length checks = 0 then None else Some (foldl setTargetCheck noTargetChecks checks))"

definition fromTargetWhitelistChecks :: "TargetWhitelistChecks option \<Rightarrow> CheckType list" where
  "fromTargetWhitelistChecks checks =
     (case checks of
        None \<Rightarrow> []
      | Some c \<Rightarrow>
          (if twc_MetricNameLength c then [CheckTypeMetricNameLength] else []) @
          (if twc_LabelNameLength c then [CheckTypeLabelNameLength] else []) @
          (if twc_LabelValueLength c then [CheckTypeLabelValueLength] else []) @
          (if twc_Cardinality c then [CheckTypeCardinality] else []) @
          (if twc_HistogramBuckets c then [CheckTypeHistogramBuckets] else []) @
          (if twc_ResponseWeight c then [CheckTypeResponseWeight] else []))"

definition toTargetWhitelistItem :: "TargetWhitelistRule \<Rightarrow> TargetWhitelistItem" where
  "toTargetWhitelistItem item =
     \<lparr>twi_TargetGroup = twr_TargetGroup item, twi_Env = twr_Env item,
      twi_Checks = toTargetWhitelistChecks (twr_Checks item)\<rparr>"

section \<open>Limits\<close>

definition toProtoMetricCheckLimits :: "LimitsConfig \<Rightarrow> MetricCheckLimits" where
  "toProtoMetricCheckLimits limits =
     \<lparr>mcl_MaxMetricNameLen = MaxMetricNameLen limits, mcl_MaxLabelNameLen = MaxLabelNameLen limits,
      mcl_MaxLabelValueLen = MaxLabelValueLen limits, mcl_MaxMetricCardinality = MaxMetricCardinality limits,
      mcl_MaxHistogramBuckets = MaxHistogramBuckets limits, mcl_MaxBytesWeight = MaxBytesWeight limits\<rparr>"

text \<open>\<open>int\<close> has 64 bits on the platforms the service is built for.\<close>

definition maxInt :: int where "maxInt = 2 ^ 63 - 1"

definition int64ToPositiveInt :: "int \<Rightarrow> string \<Rightarrow> int result" where
  "int64ToPositiveInt v field =
     (if v \<le> 0 then Inl (ErrNew (field @ '' must be positive''))
      else if v > maxInt then Inl (ErrNew (field @ '' exceeds max int value''))
      else Inr v)"

definition fromProtoMetricCheckLimits :: "MetricCheckLimits option \<Rightarrow> LimitsConfig result" where
  "fromProtoMetricCheckLimits protoLimits =
     (case protoLimits of
        None \<Rightarrow> Inl (ErrNew ''limits are required'')
      | Some p \<Rightarrow>
     (case int64ToPositiveInt (mcl_MaxMetricNameLen p) ''max_metric_name_len'' of Inl e \<Rightarrow> Inl e | Inr a \<Rightarrow>
     (case int64ToPositiveInt (mcl_MaxLabelNameLen p) ''max_label_name_len'' of Inl e \<Rightarrow> Inl e | Inr b \<Rightarrow>
     (case int64ToPositiveInt (mcl_MaxLabelValueLen p) ''max_label_value_len'' of Inl e \<Rightarrow> Inl e | Inr c \<Rightarrow>
     (case int64ToPositiveInt (mcl_MaxMetricCardinality p) ''max_metric_cardinality'' of Inl e \<Rightarrow> Inl e | Inr d \<Rightarrow>
     (case int64ToPositiveInt (mcl_MaxHistogramBuckets p) ''max_histogram_buckets'' of Inl e \<Rightarrow> Inl e | Inr h \<Rightarrow>
      if mcl_MaxBytesWeight p \<le> 0 then Inl (ErrNew ''max_bytes_weight must be positive'')
      else Inr \<lparr>MaxMetricNameLen = a, MaxLabelNameLen = b, MaxLabelValueLen = c, MaxMetricCardinality = d,
                MaxHistogramBuckets = h, MaxBytesWeight = mcl_MaxBytesWeight p\<rparr>))))))"

section \<open>What the conversions keep\<close>

text \<open>Limits: a message of 64-bit fields is accepted exactly when all six are positive, unchanged.\<close>

definition limits_message_ok :: "MetricCheckLimits \<Rightarrow> bool" where
  "limits_message_ok p \<longleftrightarrow> 0 < mcl_MaxMetricNameLen p \<and> 0 < mcl_MaxLabelNameLen p \<and> 0 < mcl_MaxLabelValueLen p \<and>
     0 < mcl_MaxMetricCardinality p \<and> 0 < mcl_MaxHistogramBuckets p \<and> 0 < mcl_MaxBytesWeight p"

definition limits_message_fits :: "MetricCheckLimits \<Rightarrow> bool" where
  "limits_message_fits p \<longleftrightarrow> int64_range (mcl_MaxMetricNameLen p) \<and> int64_range (mcl_MaxLabelNameLen p) \<and>
     int64_range (mcl_MaxLabelValueLen p) \<and> int64_range (mcl_MaxMetricCardinality p) \<and>
     int64_range (mcl_MaxHistogramBuckets p) \<and> int64_range (mcl_MaxBytesWeight p)"

lemma int64ToPositiveInt_fits: "int64_range v \<Longrightarrow> int64ToPositiveInt v f = (if 0 < v then Inr v else Inl (ErrNew (f @ '' must be positive'')))"
  by (simp add: int64ToPositiveInt_def int64_range_def maxInt_def)

lemma fromProtoMetricCheckLimits_ok:
  assumes "limits_message_fits p" and "limits_message_ok p"
  obtains l where "fromProtoMetricCheckLimits (Some p) = Inr l" and "toProtoMetricCheckLimits l = p" and "LimitsConfig_fits l"
  using assms
  by (simp add: fromProtoMetricCheckLimits_def limits_message_fits_def limits_message_ok_def int64ToPositiveInt_fits
      toProtoMetricCheckLimits_def LimitsConfig_fits_def)

lemma fromProtoMetricCheckLimits_Inr: "fromProtoMetricCheckLimits (Some p) = Inr l \<Longrightarrow> limits_message_ok p"
  by (auto simp: fromProtoMetricCheckLimits_def limits_message_ok_def int64ToPositiveInt_def split: sum.splits if_splits)

lemma fromProtoMetricCheckLimits_bad:
  assumes "\<not> limits_message_ok p"
  obtains e where "fromProtoMetricCheckLimits (Some p) = Inl e"
  using assms fromProtoMetricCheckLimits_Inr [of p] by (cases "fromProtoMetricCheckLimits (Some p)") auto

text \<open>Metric checks: valid rules survive the trip through the message.\<close>

lemma fromMetricWhitelistChecks_get:
  "fromMetricWhitelistChecks (Some c) k =
    (if k = CheckTypeMetricNameLength \<and> 0 < mwc_MetricNameLength c then Some (mwc_MetricNameLength c)
     else if k = CheckTypeLabelNameLength \<and> 0 < mwc_LabelNameLength c then Some (mwc_LabelNameLength c)
     else if k = CheckTypeLabelValueLength \<and> 0 < mwc_LabelValueLength c then Some (mwc_LabelValueLength c)
     else if k = CheckTypeCardinality \<and> 0 < mwc_Cardinality c then Some (mwc_Cardinality c)
     else if k = CheckTypeHistogramBuckets \<and> 0 < mwc_HistogramBuckets c then Some (mwc_HistogramBuckets c)
     else None)"
  by (auto simp: fromMetricWhitelistChecks_def put_positive_def)

lemma fromMetricWhitelistChecks_valid: "valid_metric_checks (fromMetricWhitelistChecks c)"
proof (cases c)
  case None
  then show ?thesis by (simp add: valid_metric_checks_def fromMetricWhitelistChecks_def)
next
  case (Some p)
  then show ?thesis
    by (auto simp: valid_metric_checks_def fromMetricWhitelistChecks_get isMetricWhitelistCheckType_def split: if_splits)
qed

lemma from_toMetricWhitelistChecks:
  assumes "valid_metric_checks m"
  shows "fromMetricWhitelistChecks (toMetricWhitelistChecks m) = m"
proof (cases "dom m = {}")
  case True
  then show ?thesis by (simp add: toMetricWhitelistChecks_def fromMetricWhitelistChecks_def)
next
  case False
  have get: "0 < map_get m k \<longleftrightarrow> m k \<noteq> None" "m k \<noteq> None \<Longrightarrow> Some (map_get m k) = m k" for k
    using assms by (auto simp: map_get_def valid_metric_checks_def split: option.splits)
  have other: "m k = None" if "\<not> isMetricWhitelistCheckType k" for k
    using assms that by (cases "m k") (auto simp: valid_metric_checks_def)
  show ?thesis
  proof
    fix k
    have "fromMetricWhitelistChecks (toMetricWhitelistChecks m) k =
        (if isMetricWhitelistCheckType k \<and> 0 < map_get m k then Some (map_get m k) else None)"
      using False
      by (auto simp: toMetricWhitelistChecks_def fromMetricWhitelistChecks_get isMetricWhitelistCheckType_def)
    then show "fromMetricWhitelistChecks (toMetricWhitelistChecks m) k = m k"
      using get [of k] other [of k] by auto
  qed
qed

text \<open>Target checks: the list comes back as a set.\<close>

lemma setTargetCheck_get:
  "twc_MetricNameLength (foldl setTargetCheck r cs) \<longleftrightarrow> twc_MetricNameLength r \<or> CheckTypeMetricNameLength \<in> set cs"
  "twc_LabelNameLength (foldl setTargetCheck r cs) \<longleftrightarrow> twc_LabelNameLength r \<or> CheckTypeLabelNameLength \<in> set cs"
  "twc_LabelValueLength (foldl setTargetCheck r cs) \<longleftrightarrow> twc_LabelValueLength r \<or> CheckTypeLabelValueLength \<in> set cs"
  "twc_Cardinality (foldl setTargetCheck r cs) \<longleftrightarrow> twc_Cardinality r \<or> CheckTypeCardinality \<in> set cs"
  "twc_HistogramBuckets (foldl setTargetCheck r cs) \<longleftrightarrow> twc_HistogramBuckets r \<or> CheckTypeHistogramBuckets \<in> set cs"
  "twc_ResponseWeight (foldl setTargetCheck r cs) \<longleftrightarrow> twc_ResponseWeight r \<or> CheckTypeResponseWeight \<in> set cs"
  by (induction cs arbitrary: r; auto simp: setTargetCheck_def)+

lemma from_toTargetWhitelistChecks:
  assumes "\<forall>c \<in> set cs. isTargetWhitelistCheckType c"
  shows "set (fromTargetWhitelistChecks (toTargetWhitelistChecks cs)) = set cs"
  using assms
  by (auto simp: toTargetWhitelistChecks_def fromTargetWhitelistChecks_def setTargetCheck_get noTargetChecks_def
      isTargetWhitelistCheckType_def)

lemma fromTargetWhitelistChecks_ok: "\<forall>c \<in> set (fromTargetWhitelistChecks p). isTargetWhitelistCheckType c"
  by (cases p) (auto simp: fromTargetWhitelistChecks_def isTargetWhitelistCheckType_def)

text \<open>Checks: each field shows the last result of its type.\<close>

definition check_metric :: "CheckMetrics \<Rightarrow> CheckType \<Rightarrow> CheckMetric option" where
  "check_metric m t =
     (if t = CheckTypeMetricNameLength then cms_MetricNameLength m
      else if t = CheckTypeLabelNameLength then cms_LabelNameLength m
      else if t = CheckTypeLabelValueLength then cms_LabelValueLength m
      else if t = CheckTypeCardinality then cms_Cardinality m
      else if t = CheckTypeHistogramBuckets then cms_HistogramBuckets m
      else if t = CheckTypeResponseWeight then cms_ResponseWeight m
      else None)"

lemma byType_last: "foldl (\<lambda>m check. m(chk_Type check \<mapsto> check)) Map.empty checks t = find (\<lambda>c. chk_Type c = t) (rev checks)"
  by (induction checks rule: rev_induct) auto

lemma check_metric_results:
  "isTargetWhitelistCheckType t \<Longrightarrow>
   check_metric (toCheckMetricsFromResults checks) t =
     map_option (\<lambda>c. \<lparr>cm_Limit = chk_Limit c, cm_Current = chk_Current c\<rparr>) (find (\<lambda>c. chk_Type c = t) (rev checks))"
  by (auto simp: check_metric_def toCheckMetricsFromResults_def toCheckMetricFromResult_def byType_last Let_def
      isTargetWhitelistCheckType_def split: option.splits)

text \<open>Counts: \<open>int32\<close> arithmetic wraps, so the total is the number of violations modulo \<open>2^32\<close>.\<close>

definition violations_count :: "Details \<Rightarrow> int" where
  "violations_count d = int (length (d_MetricNameTooLong d)) + int (length (d_LabelNameTooLong d)) +
     int (length (d_LabelValueTooLong d)) + int (length (d_Cardinality d)) + int (length (d_HistogramBuckets d))"

lemma vs_Total_wraps: "vs_Total (toViolationStats d) = word_of_int (violations_count d)"
  by (simp add: toViolationStats_def violations_count_def Let_def)

lemma sint_small: "- (2 ^ 31) \<le> i \<Longrightarrow> i < 2 ^ 31 \<Longrightarrow> sint (word_of_int i :: int32) = i"
  by (simp add: signed_of_int signed_take_bit_int_eq_self)

end
