(* ===== verification/Cron.thy ===== *)
theory Cron
  imports Scrape_Tasks
begin

text \<open>
  The cron manager (\<open>pkg/cron/cron.go\<close>) and the scheduler of the task producer
  (\<open>internal/scrapetask/scheduler.go\<close>). The cron library's specification parser is the
  parameter \<open>cronParse\<close> (the error it gives, if any); of the library itself the model keeps the
  table of entries, which \<open>AddFunc\<close> and \<open>Remove\<close> maintain.

  The scheduler is written against the interface \<open>cronManager\<close>. The locale \<open>cron_manager\<close>
  states its laws, and under them the scheduler's invariant: the task is scheduled exactly under
  \<open>currentSpec\<close>, also after a failed update.
\<close>

section \<open>The manager\<close>

definition ErrSpecifiedTaskNotFound :: goerr where
  "ErrSpecifiedTaskNotFound = ErrNew ''specified task not found''"

definition errTaskExists :: "string \<Rightarrow> goerr" where
  "errTaskExists name = ErrNew (''task '' @ name @ '' already exists'')"

text \<open>\<open>cr_entries\<close> is the cron library's table: the specification and the task behind an entry.\<close>

record Manager =
  cr_entries :: "nat \<rightharpoonup> string \<times> string"
  cr_nextID :: nat
  cr_running :: bool
  mgr_entries :: "string \<rightharpoonup> nat"

definition NewCronManager :: Manager where
  "NewCronManager = \<lparr>cr_entries = Map.empty, cr_nextID = 1, cr_running = False, mgr_entries = Map.empty\<rparr>"

definition AddTask :: "(string \<Rightarrow> goerr option) \<Rightarrow> string \<Rightarrow> string \<Rightarrow> Manager \<Rightarrow> unit result \<times> Manager" where
  "AddTask cronParse spec name m =
     (case mgr_entries m name of
        Some _ \<Rightarrow> (Inl (errTaskExists name), m)
      | None \<Rightarrow>
          (case cronParse spec of
             Some e \<Rightarrow> (Inl e, m)
           | None \<Rightarrow>
               (Inr (), m\<lparr>cr_entries := (cr_entries m)(cr_nextID m \<mapsto> (spec, name)),
                          cr_nextID := Suc (cr_nextID m),
                          mgr_entries := (mgr_entries m)(name \<mapsto> cr_nextID m)\<rparr>)))"

definition RemoveTask :: "string \<Rightarrow> Manager \<Rightarrow> unit result \<times> Manager" where
  "RemoveTask name m =
     (case mgr_entries m name of
        None \<Rightarrow> (Inl ErrSpecifiedTaskNotFound, m)
      | Some entry \<Rightarrow>
          (Inr (), m\<lparr>cr_entries := (cr_entries m)(entry := None), mgr_entries := (mgr_entries m)(name := None)\<rparr>))"

definition Start :: "Manager \<Rightarrow> Manager" where
  "Start m = m\<lparr>cr_running := True\<rparr>"

text \<open>\<open>Stop\<close> waits for the running jobs; \<open>ctxErr\<close> is the context's error when it ends first.\<close>

definition Stop :: "goerr option \<Rightarrow> Manager \<Rightarrow> unit result \<times> Manager" where
  "Stop ctxErr m =
     (case ctxErr of None \<Rightarrow> Inr () | Some e \<Rightarrow> Inl e, m\<lparr>cr_running := False\<rparr>)"

section \<open>The scheduler\<close>

record 'm cron_ops =
  cm_add :: "string \<Rightarrow> string \<Rightarrow> 'm \<Rightarrow> unit result \<times> 'm"
  cm_remove :: "string \<Rightarrow> 'm \<Rightarrow> unit result \<times> 'm"

record 'm Scheduler =
  sch_manager :: 'm
  sch_task :: string
  currentSpec :: string

definition NewScheduler :: "'m \<Rightarrow> string \<Rightarrow> 'm Scheduler" where
  "NewScheduler manager task = \<lparr>sch_manager = manager, sch_task = task, currentSpec = []\<rparr>"

text \<open>The second half of \<open>UpdateSchedule\<close>, from \<open>AddTask\<close> on.\<close>

definition addNewSchedule :: "'m cron_ops \<Rightarrow> string \<Rightarrow> 'm Scheduler \<Rightarrow> 'm \<Rightarrow> unit result \<times> 'm Scheduler" where
  "addNewSchedule ops spec s m1 =
     (case cm_add ops spec (sch_task s) m1 of
        (Inl e, m2) \<Rightarrow>
          (Inl (ErrWrap ''failed to add task with new schedule'' e),
           s\<lparr>sch_manager := (if currentSpec s \<noteq> [] then snd (cm_add ops (currentSpec s) (sch_task s) m2) else m2)\<rparr>)
      | (Inr _, m2) \<Rightarrow> (Inr (), s\<lparr>sch_manager := m2, currentSpec := spec\<rparr>))"

definition UpdateSchedule :: "'m cron_ops \<Rightarrow> string \<Rightarrow> 'm Scheduler \<Rightarrow> unit result \<times> 'm Scheduler" where
  "UpdateSchedule ops spec s =
     (if spec = currentSpec s then (Inr (), s)
      else case cm_remove ops (sch_task s) (sch_manager s) of
        (Inl e, m1) \<Rightarrow>
          if \<not> errors_Is e ErrSpecifiedTaskNotFound
          then (Inl (ErrWrap ''failed to remove existing task from scheduler'' e), s\<lparr>sch_manager := m1\<rparr>)
          else addNewSchedule ops spec s m1
      | (Inr _, m1) \<Rightarrow> addNewSchedule ops spec s m1)"

text \<open>\<open>Init\<close> and \<open>Sync\<close> have the same body; \<open>expr\<close> is what the schedule provider returned.\<close>

definition Sync :: "'m cron_ops \<Rightarrow> string result \<Rightarrow> 'm Scheduler \<Rightarrow> unit result \<times> 'm Scheduler" where
  "Sync ops expr s =
     (case expr of Inl e \<Rightarrow> (Inl e, s) | Inr spec \<Rightarrow> UpdateSchedule ops spec s)"

definition Init :: "'m cron_ops \<Rightarrow> string result \<Rightarrow> 'm Scheduler \<Rightarrow> unit result \<times> 'm Scheduler" where
  "Init ops expr s =
     (case expr of Inl e \<Rightarrow> (Inl e, s) | Inr spec \<Rightarrow> UpdateSchedule ops spec s)"

text \<open>The events of \<open>RunSyncLoop\<close>: a tick, with what the provider returns then, or the end.\<close>

datatype sync_event = SyncTick "string result" | SyncDone

fun RunSyncLoop :: "'m cron_ops \<Rightarrow> sync_event list \<Rightarrow> 'm Scheduler \<Rightarrow> 'm Scheduler" where
  "RunSyncLoop ops [] s = s"
| "RunSyncLoop ops (SyncDone # evs) s = s"
| "RunSyncLoop ops (SyncTick expr # evs) s = RunSyncLoop ops evs (snd (Sync ops expr s))"

section \<open>What the scheduler relies on, and what it guarantees\<close>

locale cron_manager =
  fixes ops :: "'m cron_ops" and inv :: "'m \<Rightarrow> bool" and scheduled :: "'m \<Rightarrow> string \<rightharpoonup> string"
    and parses :: "string \<Rightarrow> bool"
  assumes add_known: "inv m \<Longrightarrow> scheduled m name \<noteq> None \<Longrightarrow> cm_add ops spec name m = (r, m') \<Longrightarrow>
        \<not> isOk r \<and> m' = m"
    and add_new: "inv m \<Longrightarrow> scheduled m name = None \<Longrightarrow> cm_add ops spec name m = (r, m') \<Longrightarrow>
        inv m' \<and> (if parses spec then isOk r \<and> scheduled m' = (scheduled m)(name \<mapsto> spec) else \<not> isOk r \<and> m' = m)"
    and remove_known: "inv m \<Longrightarrow> scheduled m name \<noteq> None \<Longrightarrow> cm_remove ops name m = (r, m') \<Longrightarrow>
        inv m' \<and> isOk r \<and> scheduled m' = (scheduled m)(name := None)"
    and remove_new: "inv m \<Longrightarrow> scheduled m name = None \<Longrightarrow> cm_remove ops name m = (r, m') \<Longrightarrow>
        r = Inl ErrSpecifiedTaskNotFound \<and> m' = m"
begin

definition sched_ok :: "'m Scheduler \<Rightarrow> bool" where
  "sched_ok s \<longleftrightarrow> inv (sch_manager s) \<and>
     scheduled (sch_manager s) (sch_task s) = (if currentSpec s = [] then None else Some (currentSpec s)) \<and>
     (currentSpec s \<noteq> [] \<longrightarrow> parses (currentSpec s))"

lemma UpdateSchedule_effect:
  assumes ok: "sched_ok s" and spec: "spec \<noteq> []" and up: "UpdateSchedule ops spec s = (r, s')"
  shows "sched_ok s'" and "sch_task s' = sch_task s"
    and "isOk r \<longleftrightarrow> spec = currentSpec s \<or> parses spec"
    and "currentSpec s' = (if isOk r then spec else currentSpec s)"
    and "name \<noteq> sch_task s \<Longrightarrow> scheduled (sch_manager s') name = scheduled (sch_manager s) name"
proof -
  have "sched_ok s' \<and> sch_task s' = sch_task s \<and> (isOk r \<longleftrightarrow> spec = currentSpec s \<or> parses spec) \<and>
    currentSpec s' = (if isOk r then spec else currentSpec s) \<and>
    (name \<noteq> sch_task s \<longrightarrow> scheduled (sch_manager s') name = scheduled (sch_manager s) name)"
  proof (cases "spec = currentSpec s")
    case True
    with up ok show ?thesis by (auto simp: UpdateSchedule_def)
  next
    case False
    obtain rm m1 where rem: "cm_remove ops (sch_task s) (sch_manager s) = (rm, m1)" by force
    obtain ra m2 where add: "cm_add ops spec (sch_task s) m1 = (ra, m2)" by force
    obtain rb m3 where undo: "cm_add ops (currentSpec s) (sch_task s) m1 = (rb, m3)" by force
    have inv: "inv (sch_manager s)" using ok by (simp add: sched_ok_def)
    have m1: "inv m1" "scheduled m1 (sch_task s) = None"
      "\<And>n. n \<noteq> sch_task s \<Longrightarrow> scheduled m1 n = scheduled (sch_manager s) n"
      "isOk rm \<or> rm = Inl ErrSpecifiedTaskNotFound" "currentSpec s = [] \<Longrightarrow> m1 = sch_manager s"
      using remove_known [OF inv _ rem] remove_new [OF inv _ rem] inv ok
      by (cases "currentSpec s = []"; auto simp: sched_ok_def)+
    note add' = add_new [OF m1(1,2) add] and undo' = add_new [OF m1(1,2) undo]
    have up': "(r, s') = (case ra of
        Inl e \<Rightarrow> (Inl (ErrWrap ''failed to add task with new schedule'' e),
          s\<lparr>sch_manager := (if currentSpec s \<noteq> [] then snd (cm_add ops (currentSpec s) (sch_task s) m2) else m2)\<rparr>)
      | Inr _ \<Rightarrow> (Inr (), s\<lparr>sch_manager := m2, currentSpec := spec\<rparr>))"
      using up False m1(4) by (cases rm; cases ra) (auto simp: UpdateSchedule_def addNewSchedule_def rem add)
    show ?thesis
    proof (cases "parses spec")
      case True
      with add' up' spec m1 ok show ?thesis by (cases ra) (auto simp: sched_ok_def)
    next
      case no: False
      with add' up' spec m1 ok undo undo' False show ?thesis
        by (cases ra; cases "currentSpec s = []") (auto simp: sched_ok_def)
    qed
  qed
  then show "sched_ok s'" "sch_task s' = sch_task s" "isOk r \<longleftrightarrow> spec = currentSpec s \<or> parses spec"
    "currentSpec s' = (if isOk r then spec else currentSpec s)"
    "name \<noteq> sch_task s \<Longrightarrow> scheduled (sch_manager s') name = scheduled (sch_manager s) name"
    by blast+
qed

lemma Sync_ok:
  assumes "sched_ok s" and "expr \<noteq> Inr []"
  shows "sched_ok (snd (Sync ops expr s))"
proof (cases expr)
  case (Inr spec)
  obtain r s' where "UpdateSchedule ops spec s = (r, s')" by force
  with UpdateSchedule_effect(1) [OF assms(1) _ this] assms(2) Inr show ?thesis by (simp add: Sync_def)
qed (use assms(1) in \<open>simp add: Sync_def\<close>)

lemma RunSyncLoop_ok:
  assumes "sched_ok s" and "SyncTick (Inr []) \<notin> set evs"
  shows "sched_ok (RunSyncLoop ops evs s)"
  using assms
proof (induction evs arbitrary: s)
  case (Cons ev evs)
  show ?case
  proof (cases ev)
    case (SyncTick expr)
    with Cons.prems Sync_ok [of s expr] Cons.IH [of "snd (Sync ops expr s)"] show ?thesis by auto
  qed (simp add: Cons.prems)
qed simp

end

section \<open>The manager is such a manager\<close>

definition manager_ok :: "Manager \<Rightarrow> bool" where
  "manager_ok m \<longleftrightarrow>
     (\<forall>name entry. mgr_entries m name = Some entry \<longrightarrow>
        entry < cr_nextID m \<and> (\<exists>spec. cr_entries m entry = Some (spec, name))) \<and>
     (\<forall>entry spec name. cr_entries m entry = Some (spec, name) \<longrightarrow> mgr_entries m name = Some entry)"

definition scheduled :: "Manager \<Rightarrow> string \<rightharpoonup> string" where
  "scheduled m name =
     (case mgr_entries m name of None \<Rightarrow> None | Some entry \<Rightarrow> map_option fst (cr_entries m entry))"

definition manager_ops :: "(string \<Rightarrow> goerr option) \<Rightarrow> Manager cron_ops" where
  "manager_ops cronParse = \<lparr>cm_add = AddTask cronParse, cm_remove = RemoveTask\<rparr>"

lemma scheduled_None_iff: "manager_ok m \<Longrightarrow> scheduled m name = None \<longleftrightarrow> mgr_entries m name = None"
  by (auto simp: scheduled_def manager_ok_def split: option.splits) blast

lemma manager_ok_new [simp]: "manager_ok NewCronManager"
  by (simp add: manager_ok_def NewCronManager_def)

lemma AddTask_new:
  assumes "manager_ok m" and "mgr_entries m name = None" and "cronParse spec = None"
  shows "manager_ok (snd (AddTask cronParse spec name m))"
    and "scheduled (snd (AddTask cronParse spec name m)) = (scheduled m)(name \<mapsto> spec)"
  using assms
  by (auto simp: AddTask_def manager_ok_def scheduled_def fun_eq_iff split: option.splits) (fastforce | blast)+

lemma RemoveTask_known:
  assumes "manager_ok m" and "mgr_entries m name = Some entry"
  shows "manager_ok (snd (RemoveTask name m))"
    and "scheduled (snd (RemoveTask name m)) = (scheduled m)(name := None)"
proof -
  have other: "entry' \<noteq> entry" if "mgr_entries m n = Some entry'" "n \<noteq> name" for n entry'
    using assms that unfolding manager_ok_def by (metis option.inject prod.inject)
  then show "manager_ok (snd (RemoveTask name m))"
    using assms unfolding manager_ok_def RemoveTask_def by (auto split: if_splits)
  show "scheduled (snd (RemoveTask name m)) = (scheduled m)(name := None)"
    using assms other by (auto simp: RemoveTask_def scheduled_def fun_eq_iff split: option.splits)
qed

interpretation mgr: cron_manager "manager_ops cronParse" manager_ok scheduled "\<lambda>spec. cronParse spec = None" for cronParse
proof unfold_locales
  fix m name spec r m'
  assume ok: "manager_ok m" and add: "cm_add (manager_ops cronParse) spec name m = (r, m')"
  show "\<not> isOk r \<and> m' = m" if "scheduled m name \<noteq> None"
    using that add scheduled_None_iff [OF ok] by (auto simp: manager_ops_def AddTask_def)
  show "manager_ok m' \<and> (if cronParse spec = None then isOk r \<and> scheduled m' = (scheduled m)(name \<mapsto> spec)
      else \<not> isOk r \<and> m' = m)" if none: "scheduled m name = None"
  proof (cases "cronParse spec")
    case None
    with none add AddTask_new [where m = m and name = name and cronParse = cronParse and spec = spec] ok
    show ?thesis by (auto simp: manager_ops_def AddTask_def scheduled_None_iff)
  next
    case (Some e)
    with none add ok show ?thesis by (auto simp: manager_ops_def AddTask_def scheduled_None_iff)
  qed
next
  fix m name r m'
  assume ok: "manager_ok m" and rem: "cm_remove (manager_ops cronParse) name m = (r, m')"
  show "manager_ok m' \<and> isOk r \<and> scheduled m' = (scheduled m)(name := None)" if "scheduled m name \<noteq> None"
  proof -
    from that obtain entry where "mgr_entries m name = Some entry" using scheduled_None_iff [OF ok] by auto
    from RemoveTask_known [OF ok this] rem this show ?thesis by (auto simp: manager_ops_def RemoveTask_def)
  qed
  show "r = Inl ErrSpecifiedTaskNotFound \<and> m' = m" if "scheduled m name = None"
    using that rem scheduled_None_iff [OF ok] by (auto simp: manager_ops_def RemoveTask_def)
qed

definition scheduler_ok :: "(string \<Rightarrow> goerr option) \<Rightarrow> Manager Scheduler \<Rightarrow> bool" where
  "scheduler_ok cronParse s \<longleftrightarrow> manager_ok (sch_manager s) \<and>
     scheduled (sch_manager s) (sch_task s) = (if currentSpec s = [] then None else Some (currentSpec s)) \<and>
     (currentSpec s = [] \<or> cronParse (currentSpec s) = None)"

lemma scheduler_ok_iff: "scheduler_ok cronParse s \<longleftrightarrow> mgr.sched_ok cronParse s"
  by (auto simp: scheduler_ok_def mgr.sched_ok_def)

text \<open>
  C36. \<open>UpdateSchedule\<close> is atomic: it succeeds exactly when the specification is the current one
  or parses, and then the task is scheduled under it; when it fails the task is scheduled as it
  was before. The schedules of other tasks do not change.
\<close>

theorem UpdateSchedule_atomic:
  assumes "scheduler_ok cronParse s" and "spec \<noteq> []"
  shows "case UpdateSchedule (manager_ops cronParse) spec s of (r, s') \<Rightarrow>
      scheduler_ok cronParse s' \<and> sch_task s' = sch_task s \<and>
      (isOk r \<longleftrightarrow> spec = currentSpec s \<or> cronParse spec = None) \<and>
      currentSpec s' = (if isOk r then spec else currentSpec s) \<and>
      (\<forall>name. name = sch_task s \<or> scheduled (sch_manager s') name = scheduled (sch_manager s) name)"
proof -
  obtain r s' where up: "UpdateSchedule (manager_ops cronParse) spec s = (r, s')" by force
  from mgr.UpdateSchedule_effect [OF assms [unfolded scheduler_ok_iff] up] show ?thesis
    by (simp add: up scheduler_ok_iff) blast
qed

text \<open>A parser that accepts one specification, and a scheduler that runs under it.\<close>

definition sample_parse :: "string \<Rightarrow> goerr option" where
  "sample_parse spec = (if spec = ''@hourly'' then None else Some (ErrNew ''bad spec''))"

definition sample_scheduler :: "Manager Scheduler" where
  "sample_scheduler = snd (UpdateSchedule (manager_ops sample_parse) ''@hourly'' (NewScheduler NewCronManager ''task''))"

lemma sample_scheduler_eq:
  "sample_scheduler = \<lparr>sch_manager = \<lparr>cr_entries = [1 \<mapsto> (''@hourly'', ''task'')], cr_nextID = 2, cr_running = False,
     mgr_entries = [''task'' \<mapsto> 1]\<rparr>, sch_task = ''task'', currentSpec = ''@hourly''\<rparr>"
  by (simp add: sample_scheduler_def UpdateSchedule_def NewScheduler_def manager_ops_def RemoveTask_def NewCronManager_def
      errors_Is.simps addNewSchedule_def AddTask_def sample_parse_def ErrSpecifiedTaskNotFound_def)

lemma sample_scheduler_ok: "scheduler_ok sample_parse sample_scheduler"
  by (simp add: scheduler_ok_def sample_scheduler_eq manager_ok_def scheduled_def sample_parse_def)

theorem UpdateSchedule_atomic_witness:
  "case UpdateSchedule (manager_ops sample_parse) ''nonsense'' sample_scheduler of (r, s') \<Rightarrow>
     scheduler_ok sample_parse s' \<and> \<not> isOk r \<and> currentSpec s' = ''@hourly''"
  using UpdateSchedule_atomic [OF sample_scheduler_ok, of "''nonsense''"]
  by (auto simp: sample_scheduler_eq sample_parse_def split: prod.splits)

text \<open>
  Whatever the schedule provider returns at each tick (an error or a non-empty specification,
  valid or not), the synchronization loop keeps the task scheduled exactly under \<open>currentSpec\<close>.
\<close>

lemma RunSyncLoop_keeps_schedule:
  assumes "scheduler_ok cronParse s" and "SyncTick (Inr []) \<notin> set evs"
  shows "scheduler_ok cronParse (RunSyncLoop (manager_ops cronParse) evs s)"
  using mgr.RunSyncLoop_ok assms by (simp add: scheduler_ok_iff)

end
