(* ===== verification/Runtime_Config.thy ===== *)
theory Runtime_Config
  imports Cron Report_Json
begin

text \<open>
  The key-value storage over etcd (\<open>internal/storage/etcdstorage/client.go\<close>) and the runtime
  configuration kept in it (\<open>internal/runtimeconfig/service.go\<close>): the limits of the checks and
  the cron expression of the task producer.

  The service is written against the storage; the locale \<open>kv_store\<close> states what it relies on.
  The cron library's parser is the parameter \<open>cronParse\<close>; the schedule applier is a function
  on the state, absent until \<open>SetCronScheduleApplier\<close> is called.
\<close>

section \<open>etcd storage\<close>

definition ErrKeyNotFound :: goerr where "ErrKeyNotFound = ErrNew ''key not found''"

text \<open>
  The n-th call of the client: the error of a read, the outcome of a write (a timed out write may
  have taken effect). The client's errors are its own, never this package's sentinel.
\<close>

definition client_error :: "string \<Rightarrow> goerr" where "client_error msg = ErrNew (''etcdclient: '' @ msg)"

datatype put_outcome = PutDone | PutRefused string | PutLost string

record Etcd =
  kv :: "string \<rightharpoonup> string"
  kv_calls :: nat

definition Put :: "(nat \<Rightarrow> put_outcome) \<Rightarrow> string \<Rightarrow> string \<Rightarrow> Etcd \<Rightarrow> unit result \<times> Etcd" where
  "Put env key v s =
     (let n = kv_calls s; s = s\<lparr>kv_calls := Suc n\<rparr> in
      case env n of
        PutDone \<Rightarrow> (Inr (), s\<lparr>kv := (kv s)(key \<mapsto> v)\<rparr>)
      | PutRefused msg \<Rightarrow> (Inl (client_error msg), s)
      | PutLost msg \<Rightarrow> (Inl (client_error msg), s\<lparr>kv := (kv s)(key \<mapsto> v)\<rparr>))"

definition Get :: "(nat \<Rightarrow> string option) \<Rightarrow> string \<Rightarrow> Etcd \<Rightarrow> string result \<times> Etcd" where
  "Get env key s =
     (let n = kv_calls s; s = s\<lparr>kv_calls := Suc n\<rparr> in
      case env n of
        Some msg \<Rightarrow> (Inl (client_error msg), s)
      | None \<Rightarrow> (case kv s key of None \<Rightarrow> (Inl ErrKeyNotFound, s) | Some v \<Rightarrow> (Inr v, s)))"

definition Delete :: "(nat \<Rightarrow> put_outcome) \<Rightarrow> string \<Rightarrow> Etcd \<Rightarrow> unit result \<times> Etcd" where
  "Delete env key s =
     (let n = kv_calls s; s = s\<lparr>kv_calls := Suc n\<rparr> in
      case env n of
        PutDone \<Rightarrow> (Inr (), s\<lparr>kv := (kv s)(key := None)\<rparr>)
      | PutRefused msg \<Rightarrow> (Inl (client_error msg), s)
      | PutLost msg \<Rightarrow> (Inl (client_error msg), s\<lparr>kv := (kv s)(key := None)\<rparr>))"

section \<open>The service\<close>

record 's kv_ops =
  kv_get :: "string \<Rightarrow> 's \<Rightarrow> string result \<times> 's"
  kv_put :: "string \<Rightarrow> string \<Rightarrow> 's \<Rightarrow> unit result \<times> 's"

record 's Service =
  svc_storage :: "'s kv_ops"
  svc_defaultLimits :: LimitsConfig
  svc_defaultCronExpr :: string
  svc_cronApplier :: "(string \<Rightarrow> 's \<Rightarrow> unit result \<times> 's) option"

definition NewService :: "'s kv_ops \<Rightarrow> LimitsConfig \<Rightarrow> string \<Rightarrow> 's Service" where
  "NewService storage defaultLimits defaultCronExpr =
     \<lparr>svc_storage = storage, svc_defaultLimits = defaultLimits, svc_defaultCronExpr = defaultCronExpr,
      svc_cronApplier = None\<rparr>"

definition SetCronScheduleApplier :: "(string \<Rightarrow> 's \<Rightarrow> unit result \<times> 's) \<Rightarrow> 's Service \<Rightarrow> 's Service" where
  "SetCronScheduleApplier applier svc = svc\<lparr>svc_cronApplier := Some applier\<rparr>"

definition metricCheckLimitsKey :: string where
  "metricCheckLimitsKey = ''/metric-sherlock/runtime/metric-check-limits''"

definition scrapeTasksCronKey :: string where
  "scrapeTasksCronKey = ''/metric-sherlock/runtime/scrape-tasks-cron''"

definition ErrInvalidLimitsConfig :: goerr where
  "ErrInvalidLimitsConfig = ErrNew ''invalid metric check limits config''"

definition ErrInvalidCronExpr :: goerr where
  "ErrInvalidCronExpr = ErrNew ''invalid scrape tasks cron expression''"

definition ValidateLimitsConfig :: "LimitsConfig \<Rightarrow> unit result" where
  "ValidateLimitsConfig limits =
     (if MaxMetricNameLen limits \<le> 0 then Inl (ErrDetail ErrInvalidLimitsConfig ''max_metric_name_len must be positive'')
      else if MaxLabelNameLen limits \<le> 0 then Inl (ErrDetail ErrInvalidLimitsConfig ''max_label_name_len must be positive'')
      else if MaxLabelValueLen limits \<le> 0 then Inl (ErrDetail ErrInvalidLimitsConfig ''max_label_value_len must be positive'')
      else if MaxMetricCardinality limits \<le> 0 then Inl (ErrDetail ErrInvalidLimitsConfig ''max_metric_cardinality must be positive'')
      else if MaxHistogramBuckets limits \<le> 0 then Inl (ErrDetail ErrInvalidLimitsConfig ''max_histogram_buckets must be positive'')
      else if MaxBytesWeight limits \<le> 0 then Inl (ErrDetail ErrInvalidLimitsConfig ''max_bytes_weight must be positive'')
      else Inr ())"

definition normalizeAndValidateCronExpr :: "(string \<Rightarrow> goerr option) \<Rightarrow> string \<Rightarrow> string result" where
  "normalizeAndValidateCronExpr cronParse spec =
     (let spec = TrimSpace spec in
      if spec = [] then Inl (ErrDetail ErrInvalidCronExpr ''value is empty'')
      else case cronParse spec of
        Some e \<Rightarrow> Inl (ErrDetail ErrInvalidCronExpr (err_message e))
      | None \<Rightarrow> Inr spec)"

definition quoted :: "string \<Rightarrow> string" where
  "quoted s = [CHR 0x22] @ s @ [CHR 0x22]"

definition ensureKey :: "'s Service \<Rightarrow> string \<Rightarrow> string \<Rightarrow> 's \<Rightarrow> unit result \<times> 's" where
  "ensureKey svc key defaultValue s =
     (case kv_get (svc_storage svc) key s of
        (Inr _, s) \<Rightarrow> (Inr (), s)
      | (Inl e, s) \<Rightarrow>
          if \<not> errors_Is e ErrKeyNotFound
          then (Inl (ErrWrap (''failed to check key '' @ quoted key @ '' in etcd'') e), s)
          else (case kv_put (svc_storage svc) key defaultValue s of
             (Inl e, s) \<Rightarrow> (Inl (ErrWrap (''failed to bootstrap key '' @ quoted key @ '' in etcd'') e), s)
           | (Inr _, s) \<Rightarrow> (Inr (), s)))"

definition Bootstrap :: "(string \<Rightarrow> goerr option) \<Rightarrow> 's Service \<Rightarrow> 's \<Rightarrow> unit result \<times> 's" where
  "Bootstrap cronParse svc s =
     (case ValidateLimitsConfig (svc_defaultLimits svc) of
        Inl e \<Rightarrow> (Inl (ErrWrap ''invalid default metric check limits config'' e), s)
      | Inr _ \<Rightarrow>
          (case normalizeAndValidateCronExpr cronParse (svc_defaultCronExpr svc) of
             Inl e \<Rightarrow> (Inl (ErrWrap ''invalid default scrape tasks cron expression'' e), s)
           | Inr defaultCronExpr \<Rightarrow>
               (case ensureKey svc metricCheckLimitsKey (marshalLimits (svc_defaultLimits svc)) s of
                  (Inl e, s) \<Rightarrow> (Inl e, s)
                | (Inr _, s) \<Rightarrow> ensureKey svc scrapeTasksCronKey defaultCronExpr s)))"

definition GetMetricLimits :: "'s Service \<Rightarrow> 's \<Rightarrow> LimitsConfig result \<times> 's" where
  "GetMetricLimits svc s =
     (case kv_get (svc_storage svc) metricCheckLimitsKey s of
        (Inl e, s) \<Rightarrow> (Inl (ErrWrap ''failed to load metric check limits config'' e), s)
      | (Inr raw, s) \<Rightarrow>
          (case unmarshal decLimitsConfig raw zeroLimitsConfig of
             Inl e \<Rightarrow> (Inl (ErrWrap ''failed to parse metric check limits config'' e), s)
           | Inr limits \<Rightarrow>
               (case ValidateLimitsConfig limits of Inl e \<Rightarrow> (Inl e, s) | Inr _ \<Rightarrow> (Inr limits, s))))"

definition SetMetricLimits :: "'s Service \<Rightarrow> LimitsConfig \<Rightarrow> 's \<Rightarrow> unit result \<times> 's" where
  "SetMetricLimits svc limits s =
     (case ValidateLimitsConfig limits of
        Inl e \<Rightarrow> (Inl e, s)
      | Inr _ \<Rightarrow>
          (case kv_put (svc_storage svc) metricCheckLimitsKey (marshalLimits limits) s of
             (Inl e, s) \<Rightarrow> (Inl (ErrWrap ''failed to save metric check limits config'' e), s)
           | (Inr _, s) \<Rightarrow> (Inr (), s)))"

definition GetProduceTasksCronExpr :: "(string \<Rightarrow> goerr option) \<Rightarrow> 's Service \<Rightarrow> 's \<Rightarrow> string result \<times> 's" where
  "GetProduceTasksCronExpr cronParse svc s =
     (case kv_get (svc_storage svc) scrapeTasksCronKey s of
        (Inl e, s) \<Rightarrow> (Inl (ErrWrap ''failed to load scrape tasks cron expression'' e), s)
      | (Inr raw, s) \<Rightarrow> (normalizeAndValidateCronExpr cronParse raw, s))"

definition SetProduceTasksCronExpr ::
  "(string \<Rightarrow> goerr option) \<Rightarrow> 's Service \<Rightarrow> string \<Rightarrow> 's \<Rightarrow> unit result \<times> 's" where
  "SetProduceTasksCronExpr cronParse svc cronExpr s =
     (case normalizeAndValidateCronExpr cronParse cronExpr of
        Inl e \<Rightarrow> (Inl e, s)
      | Inr cronExpr \<Rightarrow>
          (case GetProduceTasksCronExpr cronParse svc s of
             (Inl e, s) \<Rightarrow> (Inl e, s)
           | (Inr current, s) \<Rightarrow>
               if current = cronExpr then (Inr (), s)
               else (case kv_put (svc_storage svc) scrapeTasksCronKey cronExpr s of
                  (Inl e, s) \<Rightarrow> (Inl (ErrWrap ''failed to save scrape tasks cron expression'' e), s)
                | (Inr _, s) \<Rightarrow>
                    (case svc_cronApplier svc of
                       None \<Rightarrow> (Inr (), s)
                     | Some apply_cron \<Rightarrow>
                         (case apply_cron cronExpr s of
                            (Inl e, s) \<Rightarrow>
                              (Inl (ErrWrap ''failed to apply scrape tasks cron expression'' e),
                               snd (kv_put (svc_storage svc) scrapeTasksCronKey current s))
                          | (Inr _, s) \<Rightarrow> (Inr (), s))))))"

section \<open>What the service relies on, and what it guarantees\<close>

locale kv_store =
  fixes ops :: "'s kv_ops" and view :: "'s \<Rightarrow> string \<rightharpoonup> string" and rest :: "'s \<Rightarrow> 'x"
  assumes get_view: "kv_get ops k s = (r, s') \<Longrightarrow> view s' = view s \<and> rest s' = rest s"
    and get_Inr: "kv_get ops k s = (Inr v, s') \<Longrightarrow> view s k = Some v"
    and get_missing: "kv_get ops k s = (Inl e, s') \<Longrightarrow> errors_Is e ErrKeyNotFound \<Longrightarrow> view s k = None"
    and put_rest: "kv_put ops k v s = (u, s') \<Longrightarrow> rest s' = rest s"
    and put_Inr: "kv_put ops k v s = (Inr w, s') \<Longrightarrow> view s' = (view s)(k \<mapsto> v)"
    and put_Inl: "kv_put ops k v s = (Inl e, s') \<Longrightarrow> view s' = view s \<or> view s' = (view s)(k \<mapsto> v)"
begin

lemma SetMetricLimits_stores:
  assumes "svc_storage svc = ops" and "SetMetricLimits svc limits s = (Inr u, s')"
  shows "ValidateLimitsConfig limits = Inr ()" "view s' = (view s)(metricCheckLimitsKey \<mapsto> marshalLimits limits)"
  using assms(2) by (auto simp: SetMetricLimits_def assms(1) split: sum.splits prod.splits dest: put_Inr)

lemma GetMetricLimits_reads:
  assumes "svc_storage svc = ops" and "GetMetricLimits svc s = (Inr limits, s')"
  shows "ValidateLimitsConfig limits = Inr ()"
    and "\<exists>raw. view s metricCheckLimitsKey = Some raw \<and> unmarshal decLimitsConfig raw zeroLimitsConfig = Inr limits"
  using assms(2) by (auto simp: GetMetricLimits_def assms(1) split: sum.splits prod.splits dest: get_Inr)

lemma GetMetricLimits_stored:
  assumes "svc_storage svc = ops" and "view s metricCheckLimitsKey = Some (marshalLimits limits)"
    and "LimitsConfig_fits limits" and "ValidateLimitsConfig limits = Inr ()"
  shows "case fst (GetMetricLimits svc s) of Inr l \<Rightarrow> l = limits
    | Inl e \<Rightarrow> \<exists>e' s'. kv_get ops metricCheckLimitsKey s = (Inl e', s')"
proof -
  obtain r s' where g: "kv_get ops metricCheckLimitsKey s = (r, s')" by force
  with assms get_Inr [of metricCheckLimitsKey s _ s'] show ?thesis
    by (cases r) (auto simp: GetMetricLimits_def unmarshal_marshalLimits)
qed

lemma ensureKey_effect:
  assumes "svc_storage svc = ops" and "ensureKey svc k d s = (r, s')"
  shows "rest s' = rest s" and "view s' = view s \<or> (view s k = None \<and> view s' = (view s)(k \<mapsto> d))"
    and "isOk r \<Longrightarrow> view s' k \<noteq> None"
proof -
  obtain g s1 where g: "kv_get ops k s = (g, s1)" by force
  obtain p s2 where p: "kv_put ops k d s1 = (p, s2)" by force
  have eff: "ensureKey svc k d s =
     (case g of Inr _ \<Rightarrow> (Inr (), s1) | Inl e \<Rightarrow>
        if \<not> errors_Is e ErrKeyNotFound then (Inl (ErrWrap (''failed to check key '' @ quoted k @ '' in etcd'') e), s1)
        else (case p of Inl e \<Rightarrow> (Inl (ErrWrap (''failed to bootstrap key '' @ quoted k @ '' in etcd'') e), s2)
                      | Inr _ \<Rightarrow> (Inr (), s2)))"
    using assms(1) by (cases g; cases p) (simp_all add: ensureKey_def g p)
  note fs = get_view [OF g] put_rest [OF p]
  show "rest s' = rest s"
    using assms(2) fs unfolding eff by (auto split: sum.splits if_splits)
  have put: "(view s2 = view s \<or> view s2 = (view s)(k \<mapsto> d)) \<and> (isOk p \<longrightarrow> view s2 = (view s)(k \<mapsto> d))"
  proof (cases p)
    case (Inl e)
    from put_Inl [OF p [unfolded Inl]] fs Inl show ?thesis by auto
  next
    case (Inr u)
    from put_Inr [OF p [unfolded Inr]] fs Inr show ?thesis by auto
  qed
  have "(view s' = view s \<or> (view s k = None \<and> view s' = (view s)(k \<mapsto> d))) \<and> (isOk r \<longrightarrow> view s' k \<noteq> None)"
  proof (cases g)
    case (Inr v)
    with get_Inr g have "view s k = Some v" by blast
    with Inr assms(2) fs show ?thesis unfolding eff by auto
  next
    case (Inl e)
    show ?thesis
    proof (cases "errors_Is e ErrKeyNotFound")
      case True
      with Inl get_missing g have "view s k = None" by blast
      with Inl True assms(2) put show ?thesis unfolding eff by (cases p) auto
    qed (use Inl assms(2) fs in \<open>auto simp: eff\<close>)
  qed
  then show "view s' = view s \<or> (view s k = None \<and> view s' = (view s)(k \<mapsto> d))" "isOk r \<Longrightarrow> view s' k \<noteq> None"
    by blast+
qed

lemma Bootstrap_effect:
  assumes "svc_storage svc = ops" and "Bootstrap cronParse svc s = (r, s')"
  shows "view s k = Some v \<Longrightarrow> view s' k = Some v"
    and "isOk r \<Longrightarrow> view s' metricCheckLimitsKey \<noteq> None \<and> view s' scrapeTasksCronKey \<noteq> None \<and>
      ValidateLimitsConfig (svc_defaultLimits svc) = Inr ()"
proof -
  have "(view s k = Some v \<longrightarrow> view s' k = Some v) \<and>
    (isOk r \<longrightarrow> view s' metricCheckLimitsKey \<noteq> None \<and> view s' scrapeTasksCronKey \<noteq> None \<and>
      ValidateLimitsConfig (svc_defaultLimits svc) = Inr ())"
  proof (cases "isOk (ValidateLimitsConfig (svc_defaultLimits svc)) \<and>
      isOk (normalizeAndValidateCronExpr cronParse (svc_defaultCronExpr svc))")
    case False
    with assms(2) show ?thesis by (auto simp: Bootstrap_def split: sum.splits)
  next
    case True
    then obtain c where v: "ValidateLimitsConfig (svc_defaultLimits svc) = Inr ()"
      and c: "normalizeAndValidateCronExpr cronParse (svc_defaultCronExpr svc) = Inr c"
      by (auto simp: isOk_iff)
    obtain r1 s1 where e1: "ensureKey svc metricCheckLimitsKey (marshalLimits (svc_defaultLimits svc)) s = (r1, s1)"
      by force
    obtain r2 s2 where e2: "ensureKey svc scrapeTasksCronKey c s1 = (r2, s2)" by force
    have boot: "(r, s') = (case r1 of Inl e \<Rightarrow> (Inl e, s1) | Inr _ \<Rightarrow> (r2, s2))"
      using assms(2) by (cases r1) (auto simp: Bootstrap_def v c e1 e2)
    from ensureKey_effect(2,3) [OF assms(1) e1] ensureKey_effect(2,3) [OF assms(1) e2] boot v
    show ?thesis by (cases r1) auto
  qed
  then show "view s k = Some v \<Longrightarrow> view s' k = Some v"
    "isOk r \<Longrightarrow> view s' metricCheckLimitsKey \<noteq> None \<and> view s' scrapeTasksCronKey \<noteq> None \<and>
      ValidateLimitsConfig (svc_defaultLimits svc) = Inr ()" by blast+
qed

lemma Bootstrap_rest:
  assumes "svc_storage svc = ops" and "Bootstrap cronParse svc s = (r, s')"
  shows "rest s' = rest s"
  using assms(2) by (auto simp: Bootstrap_def split: sum.splits prod.splits dest!: ensureKey_effect(1) [OF assms(1)])

lemma GetCron_reads:
  assumes "svc_storage svc = ops" and "GetProduceTasksCronExpr cronParse svc s = (r, s')"
  shows "view s' = view s" and "rest s' = rest s"
    and "r = Inr expr \<Longrightarrow> \<exists>raw. view s scrapeTasksCronKey = Some raw \<and> normalizeAndValidateCronExpr cronParse raw = Inr expr"
  using assms(2)
  by (auto simp: GetProduceTasksCronExpr_def assms(1) split: sum.splits prod.splits dest: get_view get_Inr)

end

section \<open>The service on etcd, with the scheduler as applier\<close>

type_synonym Node = "Etcd \<times> Manager Scheduler"

definition lift_etcd :: "(Etcd \<Rightarrow> 'a \<times> Etcd) \<Rightarrow> Etcd \<times> 'x \<Rightarrow> 'a \<times> Etcd \<times> 'x" where
  "lift_etcd f s = (case s of (e, x) \<Rightarrow> case f e of (a, e') \<Rightarrow> (a, e', x))"

definition etcd_ops :: "(nat \<Rightarrow> string option) \<Rightarrow> (nat \<Rightarrow> put_outcome) \<Rightarrow> (Etcd \<times> 'x) kv_ops" where
  "etcd_ops gets puts = \<lparr>kv_get = (\<lambda>k. lift_etcd (Get gets k)), kv_put = (\<lambda>k v. lift_etcd (Put puts k v))\<rparr>"

definition apply_schedule :: "(string \<Rightarrow> goerr option) \<Rightarrow> string \<Rightarrow> Node \<Rightarrow> unit result \<times> Node" where
  "apply_schedule cronParse spec s =
     (case s of (e, sch) \<Rightarrow> case UpdateSchedule (manager_ops cronParse) spec sch of (r, sch') \<Rightarrow> (r, e, sch'))"

text \<open>The service as \<open>cmd/main.go\<close> wires it: over etcd, with the scheduler as applier.\<close>

definition node_service ::
  "(string \<Rightarrow> goerr option) \<Rightarrow> (nat \<Rightarrow> string option) \<Rightarrow> (nat \<Rightarrow> put_outcome) \<Rightarrow> LimitsConfig \<Rightarrow> string \<Rightarrow> Node Service" where
  "node_service cronParse gets puts limits cronExpr =
     SetCronScheduleApplier (apply_schedule cronParse) (NewService (etcd_ops gets puts) limits cronExpr)"

lemma node_service_simps [simp]:
  "svc_storage (node_service cronParse gets puts limits cronExpr) = etcd_ops gets puts"
  "svc_cronApplier (node_service cronParse gets puts limits cronExpr) = Some (apply_schedule cronParse)"
  "svc_defaultLimits (node_service cronParse gets puts limits cronExpr) = limits"
  "svc_defaultCronExpr (node_service cronParse gets puts limits cronExpr) = cronExpr"
  by (simp_all add: node_service_def SetCronScheduleApplier_def NewService_def)

lemma client_error_not_sentinel [simp]: "\<not> errors_Is (client_error m) ErrKeyNotFound"
  by (simp add: client_error_def ErrKeyNotFound_def)

interpretation etcd: kv_store "etcd_ops gets puts" "\<lambda>s. kv (fst s)" snd for gets puts
proof unfold_locales
  fix k :: string and s :: "Etcd \<times> 'a" and r s'
  assume g: "kv_get (etcd_ops gets puts) k s = (r, s')"
  then show "kv (fst s') = kv (fst s) \<and> snd s' = snd s"
    by (auto simp: etcd_ops_def lift_etcd_def Get_def Let_def split: prod.splits option.splits)
next
  fix k :: string and s :: "Etcd \<times> 'a" and v s'
  assume "kv_get (etcd_ops gets puts) k s = (Inr v, s')"
  then show "kv (fst s) k = Some v"
    by (auto simp: etcd_ops_def lift_etcd_def Get_def Let_def split: prod.splits option.splits)
next
  fix k :: string and s :: "Etcd \<times> 'a" and e s'
  assume "kv_get (etcd_ops gets puts) k s = (Inl e, s')" and "errors_Is e ErrKeyNotFound"
  then show "kv (fst s) k = None"
    by (auto simp: etcd_ops_def lift_etcd_def Get_def Let_def split: prod.splits option.splits)
next
  fix k v :: string and s :: "Etcd \<times> 'a" and u s'
  assume p: "kv_put (etcd_ops gets puts) k v s = (u, s')"
  show "snd s' = snd s"
    using p by (auto simp: etcd_ops_def lift_etcd_def split: prod.splits)
next
  fix k v :: string and s :: "Etcd \<times> 'a" and w s'
  assume "kv_put (etcd_ops gets puts) k v s = (Inr w, s')"
  then show "kv (fst s') = (kv (fst s))(k \<mapsto> v)"
    by (auto simp: etcd_ops_def lift_etcd_def Put_def Let_def split: prod.splits put_outcome.splits)
next
  fix k v :: string and s :: "Etcd \<times> 'a" and e s'
  assume "kv_put (etcd_ops gets puts) k v s = (Inl e, s')"
  then show "kv (fst s') = kv (fst s) \<or> kv (fst s') = (kv (fst s))(k \<mapsto> v)"
    by (auto simp: etcd_ops_def lift_etcd_def Put_def Let_def split: prod.splits put_outcome.splits)
qed

lemma valid_limits_iff: "isOk (ValidateLimitsConfig l) \<longleftrightarrow>
    0 < MaxMetricNameLen l \<and> 0 < MaxLabelNameLen l \<and> 0 < MaxLabelValueLen l \<and>
    0 < MaxMetricCardinality l \<and> 0 < MaxHistogramBuckets l \<and> 0 < MaxBytesWeight l"
  by (auto simp: ValidateLimitsConfig_def)

lemma valid_limits_errors: "ValidateLimitsConfig l = Inl e \<Longrightarrow> errors_Is e ErrInvalidLimitsConfig"
  by (auto simp: ValidateLimitsConfig_def split: if_splits)

text \<open>
  Limits that were set are the limits that are read: after a successful \<open>SetMetricLimits\<close>,
  \<open>GetMetricLimits\<close> returns exactly them, unless etcd itself fails to answer.
\<close>

lemma SetMetricLimits_GetMetricLimits:
  assumes "LimitsConfig_fits limits"
    and "SetMetricLimits (node_service cronParse gets puts dl dc) limits s = (Inr u, s')"
    and "gets (kv_calls (fst s')) = None"
  shows "fst (GetMetricLimits (node_service cronParse gets puts dl dc) s') = Inr limits"
proof -
  let ?svc = "node_service cronParse gets puts dl dc"
  note set = etcd.SetMetricLimits_stores [OF _ assms(2), of gets puts]
  obtain e x where s': "s' = (e, x)" by force
  have "case fst (GetMetricLimits ?svc s') of Inr l \<Rightarrow> l = limits
      | Inl _ \<Rightarrow> \<exists>e' s''. kv_get (etcd_ops gets puts) metricCheckLimitsKey s' = (Inl e', s'')"
    using set assms(1) by (intro etcd.GetMetricLimits_stored) simp_all
  moreover have "kv_get (etcd_ops gets puts) metricCheckLimitsKey s' \<noteq> (Inl e', s'')" for e' s''
    using set assms(3) by (auto simp: etcd_ops_def lift_etcd_def Get_def Let_def s')
  ultimately show ?thesis by (auto split: sum.splits)
qed

definition sample_limits :: LimitsConfig where
  "sample_limits = \<lparr>MaxMetricNameLen = 100, MaxLabelNameLen = 50, MaxLabelValueLen = 200, MaxMetricCardinality = 1000,
     MaxHistogramBuckets = 20, MaxBytesWeight = 1048576\<rparr>"

definition sample_node :: Node where
  "sample_node = (\<lparr>kv = [scrapeTasksCronKey \<mapsto> '' @hourly ''], kv_calls = 0\<rparr>, sample_scheduler)"

definition sample_service :: "Node Service" where
  "sample_service = node_service sample_parse (\<lambda>_. None) (\<lambda>_. PutDone) sample_limits ''@hourly''"

text \<open>
  C38. Whatever is stored in etcd, the limits \<open>GetMetricLimits\<close> returns are all positive; and
  \<open>SetMetricLimits\<close> with a limit that is not is refused with \<open>ErrInvalidLimitsConfig\<close> and
  writes nothing.
\<close>

theorem metric_limits_positive:
  "(case fst (GetMetricLimits (node_service cronParse gets puts dl dc) s) of
     Inl _ \<Rightarrow> True
   | Inr l \<Rightarrow> 0 < MaxMetricNameLen l \<and> 0 < MaxLabelNameLen l \<and> 0 < MaxLabelValueLen l \<and>
       0 < MaxMetricCardinality l \<and> 0 < MaxHistogramBuckets l \<and> 0 < MaxBytesWeight l) \<and>
   (case ValidateLimitsConfig l of
     Inr _ \<Rightarrow> 0 < MaxMetricNameLen l \<and> 0 < MaxLabelNameLen l \<and> 0 < MaxLabelValueLen l \<and>
       0 < MaxMetricCardinality l \<and> 0 < MaxHistogramBuckets l \<and> 0 < MaxBytesWeight l
   | Inl e \<Rightarrow> errors_Is e ErrInvalidLimitsConfig \<and>
       SetMetricLimits (node_service cronParse gets puts dl dc) l s = (Inl e, s))" (is "?get \<and> ?set")
proof
  let ?svc = "node_service cronParse gets puts dl dc"
  obtain r s' where g: "GetMetricLimits ?svc s = (r, s')" by (meson surj_pair)
  show ?get
  proof (cases r)
    case (Inr l)
    from etcd.GetMetricLimits_reads(1) [OF _ g [unfolded Inr], of gets puts] valid_limits_iff [of l] g Inr
    show ?thesis by simp
  qed (simp add: g)
  show ?set
    using valid_limits_iff [of l] valid_limits_errors [of l]
    by (cases "ValidateLimitsConfig l") (auto simp: SetMetricLimits_def)
qed

lemma normalizeCron_Inr_iff:
  "normalizeAndValidateCronExpr cronParse raw = Inr spec \<longleftrightarrow>
   spec = TrimSpace raw \<and> spec \<noteq> [] \<and> cronParse spec = None"
  by (auto simp: normalizeAndValidateCronExpr_def Let_def split: option.splits)

text \<open>What \<open>SetProduceTasksCronExpr\<close> does on a node, by where it stops.\<close>

lemma SetCron_cases:
  assumes "SetProduceTasksCronExpr cronParse (node_service cronParse gets puts dl dc) expr s = (r, s')"
    and ok: "scheduler_ok cronParse (snd s)"
  obtains (stopped) "\<not> isOk r" "kv (fst s') = kv (fst s)" "snd s' = snd s"
  | (unsaved) "\<not> isOk r" "kv (fst s') = (kv (fst s))(scrapeTasksCronKey \<mapsto> TrimSpace expr)" "snd s' = snd s"
      "TrimSpace expr \<noteq> []" "cronParse (TrimSpace expr) = None"
  | (same) raw where "isOk r" "kv (fst s') = kv (fst s)" "snd s' = snd s"
      "kv (fst s) scrapeTasksCronKey = Some raw" "TrimSpace raw = TrimSpace expr" "TrimSpace expr \<noteq> []"
  | (set) "isOk r" "kv (fst s') = (kv (fst s))(scrapeTasksCronKey \<mapsto> TrimSpace expr)" "TrimSpace expr \<noteq> []"
      "scheduler_ok cronParse (snd s')" "currentSpec (snd s') = TrimSpace expr" "cronParse (TrimSpace expr) = None"
proof -
  let ?svc = "node_service cronParse gets puts dl dc"
  show thesis
  proof (cases "normalizeAndValidateCronExpr cronParse expr")
    case (Inl e)
    with assms(1) stopped show ?thesis by (auto simp: SetProduceTasksCronExpr_def)
  next
    case (Inr spec)
    then have spec: "spec = TrimSpace expr" "spec \<noteq> []" "cronParse spec = None" by (auto simp: normalizeCron_Inr_iff)
    obtain g s1 where g: "GetProduceTasksCronExpr cronParse ?svc s = (g, s1)" by (meson surj_pair)
    note g' = etcd.GetCron_reads [OF node_service_simps(1) g]
    show ?thesis
    proof (cases g)
      case (Inl e)
      with assms(1) Inr g g' stopped show ?thesis by (auto simp: SetProduceTasksCronExpr_def)
    next
      case cur: (Inr current)
      from g'(3) [OF cur] obtain raw where raw: "kv (fst s) scrapeTasksCronKey = Some raw" "current = TrimSpace raw"
        by (auto simp: normalizeCron_Inr_iff)
      show ?thesis
      proof (cases "current = spec")
        case True
        with assms(1) Inr g g' cur raw spec same show ?thesis by (auto simp: SetProduceTasksCronExpr_def)
      next
        case False
        obtain p s2 where p: "kv_put (etcd_ops gets puts) scrapeTasksCronKey spec s1 = (p, s2)" by (meson surj_pair)
        note rest = etcd.put_rest [OF p]
        show ?thesis
        proof (cases p)
          case (Inl e)
          have "r = Inl (ErrWrap ''failed to save scrape tasks cron expression'' e)" "s' = s2"
            using assms(1) by (simp_all add: SetProduceTasksCronExpr_def Inr g cur False p Inl)
          with etcd.put_Inl [OF p [unfolded Inl]] g' rest spec stopped unsaved show ?thesis by auto
        next
          case saved: (Inr w)
          obtain e2 sch2 where s2: "s2 = (e2, sch2)" by force
          obtain u sch3 where up: "UpdateSchedule (manager_ops cronParse) spec sch2 = (u, sch3)" by force
          have "scheduler_ok cronParse sch2" using ok g' rest s2 by simp
          from mgr.UpdateSchedule_effect [OF this [unfolded scheduler_ok_iff] spec(2) up] spec(3)
          have sch3: "isOk u" "scheduler_ok cronParse sch3" "currentSpec sch3 = spec"
            by (simp_all add: scheduler_ok_iff)
          then obtain v where u: "u = Inr v" by (auto simp: isOk_iff)
          have "r = Inr ()" "s' = (e2, sch3)"
            using assms(1) by (simp_all add: SetProduceTasksCronExpr_def Inr g cur False p saved apply_schedule_def s2 up u)
          with etcd.put_Inr [OF p [unfolded saved]] g' s2 sch3 spec set show ?thesis by simp
        qed
      qed
    qed
  qed
qed

text \<open>
  What the settings operations keep of the key-value store: other keys are untouched, no key is
  removed, and a stored setting that is valid stays valid.
\<close>

definition limits_stored_ok :: "(string \<rightharpoonup> string) \<Rightarrow> bool" where
  "limits_stored_ok m \<longleftrightarrow> (case m metricCheckLimitsKey of None \<Rightarrow> True
     | Some raw \<Rightarrow> (case unmarshal decLimitsConfig raw zeroLimitsConfig of Inl _ \<Rightarrow> False | Inr l \<Rightarrow> isOk (ValidateLimitsConfig l)))"

definition cron_stored_ok :: "(string \<Rightarrow> goerr option) \<Rightarrow> (string \<rightharpoonup> string) \<Rightarrow> bool" where
  "cron_stored_ok cronParse m \<longleftrightarrow> (case m scrapeTasksCronKey of None \<Rightarrow> True
     | Some raw \<Rightarrow> isOk (normalizeAndValidateCronExpr cronParse raw))"

definition kv_kept :: "(string \<Rightarrow> goerr option) \<Rightarrow> (string \<rightharpoonup> string) \<Rightarrow> (string \<rightharpoonup> string) \<Rightarrow> bool" where
  "kv_kept cronParse m m' \<longleftrightarrow>
     (\<forall>k. k \<noteq> metricCheckLimitsKey \<and> k \<noteq> scrapeTasksCronKey \<longrightarrow> m' k = m k) \<and> dom m \<subseteq> dom m' \<and>
     (limits_stored_ok m \<longrightarrow> limits_stored_ok m') \<and> (cron_stored_ok cronParse m \<longrightarrow> cron_stored_ok cronParse m')"

lemma kv_kept_refl [simp]: "kv_kept cronParse m m"
  by (simp add: kv_kept_def)

lemma setting_keys_differ [simp]: "metricCheckLimitsKey \<noteq> scrapeTasksCronKey" "scrapeTasksCronKey \<noteq> metricCheckLimitsKey"
  by (simp_all add: metricCheckLimitsKey_def scrapeTasksCronKey_def)

lemma kv_kept_limits:
  assumes "kv_kept cronParse m0 m" and "LimitsConfig_fits l" and "ValidateLimitsConfig l = Inr u"
  shows "kv_kept cronParse m0 (m(metricCheckLimitsKey \<mapsto> marshalLimits l))"
  using assms by (auto simp: kv_kept_def limits_stored_ok_def cron_stored_ok_def unmarshal_marshalLimits)

lemma kv_kept_cron:
  assumes "kv_kept cronParse m0 m" and "TrimSpace expr \<noteq> []" and "cronParse (TrimSpace expr) = None"
  shows "kv_kept cronParse m0 (m(scrapeTasksCronKey \<mapsto> TrimSpace expr))"
  using assms by (auto simp: kv_kept_def limits_stored_ok_def cron_stored_ok_def normalizeAndValidateCronExpr_def)

lemma SetMetricLimits_kept:
  assumes "SetMetricLimits (node_service cronParse gets puts dl dc) limits n = (r, n')" and "kv_kept cronParse m0 (kv (fst n))"
    and "LimitsConfig_fits limits"
  shows "kv_kept cronParse m0 (kv (fst n'))"
proof (cases "ValidateLimitsConfig limits")
  case (Inr u)
  obtain w n1 where p: "kv_put (etcd_ops gets puts) metricCheckLimitsKey (marshalLimits limits) n = (w, n1)" by (meson surj_pair)
  then have "n' = n1" using assms(1) Inr by (auto simp: SetMetricLimits_def split: sum.splits)
  moreover have "kv (fst n1) = kv (fst n) \<or> kv (fst n1) = (kv (fst n))(metricCheckLimitsKey \<mapsto> marshalLimits limits)"
    using etcd.put_Inl [of gets puts metricCheckLimitsKey "marshalLimits limits" n _ n1]
      etcd.put_Inr [of gets puts metricCheckLimitsKey "marshalLimits limits" n _ n1] p by (cases w) simp_all
  ultimately show ?thesis using assms(2) kv_kept_limits [OF assms(2,3) Inr] by (elim disjE) simp_all
qed (use assms in \<open>simp add: SetMetricLimits_def\<close>)

lemma SetCron_kept:
  assumes "SetProduceTasksCronExpr cronParse (node_service cronParse gets puts dl dc) expr n = (r, n')"
    and "scheduler_ok cronParse (snd n)" and "kv_kept cronParse m0 (kv (fst n))"
  shows "kv_kept cronParse m0 (kv (fst n'))"
  using assms(1,2) by (cases rule: SetCron_cases) (use assms(3) kv_kept_cron [OF assms(3)] in simp_all)

text \<open>
  C37. Changing the cron expression on a node: on success the stored expression is the requested
  one (up to surrounding white space) and, unless it was stored already, the producer task is
  scheduled under it; on failure the schedule does not change, and neither does anything in etcd
  but possibly this key, when a write that failed took effect nevertheless.
\<close>

theorem SetProduceTasksCronExpr_effect:
  assumes "scheduler_ok cronParse sch"
  shows "case SetProduceTasksCronExpr cronParse (node_service cronParse gets puts dl dc) expr (e, sch) of
      (r, e', sch') \<Rightarrow>
        scheduler_ok cronParse sch' \<and>
        (case r of
           Inr _ \<Rightarrow> TrimSpace expr \<noteq> [] \<and> map_option TrimSpace (kv e' scrapeTasksCronKey) = Some (TrimSpace expr) \<and>
             (currentSpec sch' = TrimSpace expr \<or> (kv e' = kv e \<and> sch' = sch))
         | Inl _ \<Rightarrow> sch' = sch \<and> (kv e' = kv e \<or> kv e' = (kv e)(scrapeTasksCronKey \<mapsto> TrimSpace expr)))"
proof -
  obtain r e' sch' where s: "SetProduceTasksCronExpr cronParse (node_service cronParse gets puts dl dc) expr (e, sch)
      = (r, (e', sch'))"
    by (metis surj_pair)
  have "scheduler_ok cronParse (snd (e, sch))" using assms by simp
  with s show ?thesis
  proof (cases rule: SetCron_cases)
    case stopped
    with s assms show ?thesis by (cases r) simp_all
  next
    case unsaved
    with s assms show ?thesis by (cases r) simp_all
  next
    case (same raw)
    with s assms show ?thesis by (cases r) simp_all
  next
    case set
    with s assms show ?thesis by (cases r) simp_all
  qed
qed

theorem SetProduceTasksCronExpr_effect_witness:
  "case SetProduceTasksCronExpr sample_parse sample_service ''nonsense'' sample_node of
     (r, e', sch') \<Rightarrow> scheduler_ok sample_parse sch' \<and> (isOk r \<or> sch' = sample_scheduler)"
  using SetProduceTasksCronExpr_effect [OF sample_scheduler_ok, where gets = "\<lambda>_. None" and puts = "\<lambda>_. PutDone"
      and dl = sample_limits and dc = "''@hourly''" and expr = "''nonsense''" and e = "fst sample_node"]
  by (auto simp: sample_service_def sample_node_def split: prod.splits sum.splits)

text \<open>
  The synchronization loop follows etcd: when the stored expression is valid and etcd answers,
  one \<open>Sync\<close> schedules the producer task under the stored expression.
\<close>

lemma Sync_follows_etcd:
  assumes "scheduler_ok cronParse sch" and "kv e scrapeTasksCronKey = Some raw" and "TrimSpace raw \<noteq> []"
    and "cronParse (TrimSpace raw) = None" and "gets (kv_calls e) = None"
  shows "case Sync (manager_ops cronParse)
      (fst (GetProduceTasksCronExpr cronParse (node_service cronParse gets puts dl dc) (e, sch))) sch of
      (r, sch') \<Rightarrow> isOk r \<and> scheduled (sch_manager sch') (sch_task sch') = Some (TrimSpace raw)"
proof -
  have "fst (GetProduceTasksCronExpr cronParse (node_service cronParse gets puts dl dc) (e, sch)) = Inr (TrimSpace raw)"
    using assms(2-5)
    by (simp add: GetProduceTasksCronExpr_def etcd_ops_def lift_etcd_def Get_def Let_def normalizeAndValidateCronExpr_def)
  moreover obtain r sch' where up: "UpdateSchedule (manager_ops cronParse) (TrimSpace raw) sch = (r, sch')" by force
  moreover from mgr.UpdateSchedule_effect [OF assms(1) [unfolded scheduler_ok_iff] assms(3) up] assms(3,4)
  have "isOk r" "scheduled (sch_manager sch') (sch_task sch') = Some (TrimSpace raw)"
    by (auto simp: mgr.sched_ok_def)
  ultimately show ?thesis by (simp add: Sync_def)
qed

end
