(* ===== verification/Api.thy ===== *)
theory Api
  imports Api_Messages Runtime_Config
begin

text \<open>
  The handlers of the API (the first half of \<open>internal/httpapi/target_groups_service.go\<close>). They
  are written against two Go interfaces, here the records \<open>api_storage\<close> and
  \<open>runtime_settings\<close> over any state, and answer with a gRPC status or a message.

  The locale \<open>rule_store\<close> states what the handlers of the metric whitelist rely on: a listing is
  the stored rules that match, and a write that succeeds changes one rule. It is interpreted on the
  Postgres storage; \<open>Server\<close> is the state behind a running node, the database and the
  settings of \<open>Runtime_Config\<close>.
\<close>

section \<open>Interfaces\<close>

datatype code = Internal | InvalidArgument | NotFound | FailedPrecondition

datatype status = Status code string

record 's api_storage =
  as_ListTargetGroups :: "string \<Rightarrow> 's \<Rightarrow> TargetGroupWithReport list result \<times> 's"
  as_GetTargetGroupByID :: "int \<Rightarrow> 's \<Rightarrow> TargetGroupWithReport result \<times> 's"
  as_ListMetricWhitelist :: "string \<Rightarrow> string \<Rightarrow> 's \<Rightarrow> MetricWhitelistRule list result \<times> 's"
  as_UpsertMetricWhitelist :: "MetricWhitelistRule \<Rightarrow> 's \<Rightarrow> unit result \<times> 's"
  as_DeleteMetricWhitelist :: "string \<Rightarrow> string \<Rightarrow> string \<Rightarrow> 's \<Rightarrow> unit result \<times> 's"
  as_ListTargetWhitelist :: "string \<Rightarrow> string \<Rightarrow> 's \<Rightarrow> TargetWhitelistRule list result \<times> 's"
  as_UpsertTargetWhitelist :: "TargetWhitelistRule \<Rightarrow> 's \<Rightarrow> unit result \<times> 's"
  as_DeleteTargetWhitelist :: "string \<Rightarrow> string \<Rightarrow> 's \<Rightarrow> unit result \<times> 's"

record 's runtime_settings =
  rs_GetMetricLimits :: "'s \<Rightarrow> LimitsConfig result \<times> 's"
  rs_SetMetricLimits :: "LimitsConfig \<Rightarrow> 's \<Rightarrow> unit result \<times> 's"
  rs_GetProduceTasksCronExpr :: "'s \<Rightarrow> string result \<times> 's"
  rs_SetProduceTasksCronExpr :: "string \<Rightarrow> 's \<Rightarrow> unit result \<times> 's"

record 's targetGroupsService =
  tgs_storage :: "'s api_storage"
  tgs_settings :: "'s runtime_settings option"

definition newTargetGroupsService :: "'s api_storage \<Rightarrow> 's runtime_settings option \<Rightarrow> 's targetGroupsService" where
  "newTargetGroupsService storage settings = \<lparr>tgs_storage = storage, tgs_settings = settings\<rparr>"

text \<open>Most handlers end in a storage call whose error becomes \<open>codes.Internal\<close> with a fixed text.\<close>

definition internal_on_error :: "string \<Rightarrow> ('a \<Rightarrow> 'b) \<Rightarrow> 'a result \<times> 's \<Rightarrow> (status + 'b) \<times> 's" where
  "internal_on_error msg f = (\<lambda>(r, s). (case r of Inl e \<Rightarrow> Inl (Status Internal msg) | Inr a \<Rightarrow> Inr (f a), s))"

section \<open>Handlers\<close>

definition ListTargetGroups_rpc :: "'s targetGroupsService \<Rightarrow> string \<Rightarrow> 's \<Rightarrow> (status + TargetGroupSummary list) \<times> 's" where
  "ListTargetGroups_rpc svc teamName s =
     internal_on_error ''failed to load target groups'' (map toTargetGroupSummary)
       (as_ListTargetGroups (tgs_storage svc) teamName s)"

definition GetTargetGroup_rpc :: "'s targetGroupsService \<Rightarrow> int \<Rightarrow> 's \<Rightarrow> (status + TargetGroupDetails) \<times> 's" where
  "GetTargetGroup_rpc svc gid s =
     (if gid \<le> 0 then (Inl (Status InvalidArgument ''id must be positive''), s)
      else case as_GetTargetGroupByID (tgs_storage svc) gid s of
        (Inl e, s) \<Rightarrow>
          if errors_Is e errNoRows then (Inl (Status NotFound ''target group not found''), s)
          else (Inl (Status Internal ''failed to load target group''), s)
      | (Inr tg, s) \<Rightarrow>
          (Inr \<lparr>tgd_Summary = toTargetGroupSummary tg, tgd_Violations = toViolationDetails (twp_Details tg),
                tgd_ReportCreatedAt = toTimestamp (twp_ReportCreatedAt tg)\<rparr>, s))"

definition ListMetricWhitelist_rpc ::
  "'s targetGroupsService \<Rightarrow> string \<Rightarrow> string \<Rightarrow> 's \<Rightarrow> (status + MetricWhitelistItem list) \<times> 's" where
  "ListMetricWhitelist_rpc svc targetGroup env s =
     internal_on_error ''failed to load metric whitelist'' (map toMetricWhitelistItem)
       (as_ListMetricWhitelist (tgs_storage svc) targetGroup env s)"

definition UpsertMetricWhitelist_rpc ::
  "'s targetGroupsService \<Rightarrow> MetricWhitelistItem option \<Rightarrow> 's \<Rightarrow> (status + unit) \<times> 's" where
  "UpsertMetricWhitelist_rpc svc req s =
     (case req of
        None \<Rightarrow> (Inl (Status InvalidArgument ''item is required''), s)
      | Some item \<Rightarrow>
          if mwi_TargetGroup item = [] then (Inl (Status InvalidArgument ''target_group is required''), s)
          else if mwi_Env item = [] then (Inl (Status InvalidArgument ''env is required''), s)
          else if mwi_MetricName item = [] then (Inl (Status InvalidArgument ''metric_name is required''), s)
          else let checks = fromMetricWhitelistChecks (mwi_Checks item) in
            if dom checks = {}
            then (Inl (Status InvalidArgument ''at least one positive check limit is required''), s)
            else internal_on_error ''failed to save metric whitelist'' (\<lambda>_. ())
              (as_UpsertMetricWhitelist (tgs_storage svc)
                \<lparr>mwr_TargetGroup = mwi_TargetGroup item, mwr_Env = mwi_Env item,
                 mwr_MetricName = mwi_MetricName item, mwr_Checks = checks\<rparr> s))"

definition DeleteMetricWhitelist_rpc ::
  "'s targetGroupsService \<Rightarrow> string \<Rightarrow> string \<Rightarrow> string \<Rightarrow> 's \<Rightarrow> (status + unit) \<times> 's" where
  "DeleteMetricWhitelist_rpc svc targetGroup env metricName s =
     (if targetGroup = [] \<or> env = [] \<or> metricName = []
      then (Inl (Status InvalidArgument ''target_group, env and metric_name are required''), s)
      else internal_on_error ''failed to delete metric whitelist'' (\<lambda>_. ())
        (as_DeleteMetricWhitelist (tgs_storage svc) targetGroup env metricName s))"

definition ListTargetWhitelist_rpc ::
  "'s targetGroupsService \<Rightarrow> string \<Rightarrow> string \<Rightarrow> 's \<Rightarrow> (status + TargetWhitelistItem list) \<times> 's" where
  "ListTargetWhitelist_rpc svc targetGroup env s =
     internal_on_error ''failed to load target whitelist'' (map toTargetWhitelistItem)
       (as_ListTargetWhitelist (tgs_storage svc) targetGroup env s)"

definition UpsertTargetWhitelist_rpc ::
  "'s targetGroupsService \<Rightarrow> TargetWhitelistItem option \<Rightarrow> 's \<Rightarrow> (status + unit) \<times> 's" where
  "UpsertTargetWhitelist_rpc svc req s =
     (case req of
        None \<Rightarrow> (Inl (Status InvalidArgument ''item is required''), s)
      | Some item \<Rightarrow>
          if twi_TargetGroup item = [] then (Inl (Status InvalidArgument ''target_group is required''), s)
          else if twi_Env item = [] then (Inl (Status InvalidArgument ''env is required''), s)
          else let checks = fromTargetWhitelistChecks (twi_Checks item) in
            if length checks = 0 then (Inl (Status InvalidArgument ''at least one check must be enabled''), s)
            else internal_on_error ''failed to save target whitelist'' (\<lambda>_. ())
              (as_UpsertTargetWhitelist (tgs_storage svc)
                \<lparr>twr_TargetGroup = twi_TargetGroup item, twr_Env = twi_Env item, twr_Checks = checks\<rparr> s))"

definition DeleteTargetWhitelist_rpc ::
  "'s targetGroupsService \<Rightarrow> string \<Rightarrow> string \<Rightarrow> 's \<Rightarrow> (status + unit) \<times> 's" where
  "DeleteTargetWhitelist_rpc svc targetGroup env s =
     (if targetGroup = [] \<or> env = []
      then (Inl (Status InvalidArgument ''target_group and env are required''), s)
      else internal_on_error ''failed to delete target whitelist'' (\<lambda>_. ())
        (as_DeleteTargetWhitelist (tgs_storage svc) targetGroup env s))"

definition settingsMissing :: status where
  "settingsMissing = Status FailedPrecondition ''runtime settings service is not configured''"

definition GetMetricCheckLimits_rpc :: "'s targetGroupsService \<Rightarrow> 's \<Rightarrow> (status + MetricCheckLimits) \<times> 's" where
  "GetMetricCheckLimits_rpc svc s =
     (case tgs_settings svc of
        None \<Rightarrow> (Inl settingsMissing, s)
      | Some settings \<Rightarrow>
          internal_on_error ''failed to load metric check limits config'' toProtoMetricCheckLimits
            (rs_GetMetricLimits settings s))"

definition UpdateMetricCheckLimits_rpc ::
  "'s targetGroupsService \<Rightarrow> MetricCheckLimits option \<Rightarrow> 's \<Rightarrow> (status + unit) \<times> 's" where
  "UpdateMetricCheckLimits_rpc svc req s =
     (case tgs_settings svc of
        None \<Rightarrow> (Inl settingsMissing, s)
      | Some settings \<Rightarrow>
          (case fromProtoMetricCheckLimits req of
             Inl e \<Rightarrow> (Inl (Status InvalidArgument (''invalid limits payload: '' @ err_message e)), s)
           | Inr limits \<Rightarrow>
               (case rs_SetMetricLimits settings limits s of
                  (Inl e, s) \<Rightarrow>
                    if errors_Is e ErrInvalidLimitsConfig
                    then (Inl (Status InvalidArgument (''invalid limits payload: '' @ err_message e)), s)
                    else (Inl (Status Internal ''failed to save metric check limits config''), s)
                | (Inr _, s) \<Rightarrow> (Inr (), s))))"

definition GetScrapeTasksSchedule_rpc :: "'s targetGroupsService \<Rightarrow> 's \<Rightarrow> (status + string) \<times> 's" where
  "GetScrapeTasksSchedule_rpc svc s =
     (case tgs_settings svc of
        None \<Rightarrow> (Inl settingsMissing, s)
      | Some settings \<Rightarrow>
          internal_on_error ''failed to load scrape tasks schedule'' (\<lambda>cronExpr. cronExpr)
            (rs_GetProduceTasksCronExpr settings s))"

definition UpdateScrapeTasksSchedule_rpc :: "'s targetGroupsService \<Rightarrow> string \<Rightarrow> 's \<Rightarrow> (status + unit) \<times> 's" where
  "UpdateScrapeTasksSchedule_rpc svc cronExpr s =
     (case tgs_settings svc of
        None \<Rightarrow> (Inl settingsMissing, s)
      | Some settings \<Rightarrow>
          (case rs_SetProduceTasksCronExpr settings cronExpr s of
             (Inl e, s) \<Rightarrow>
               if errors_Is e ErrInvalidCronExpr
               then (Inl (Status InvalidArgument (''invalid cron expression: '' @ err_message e)), s)
               else (Inl (Status Internal ''failed to save scrape tasks schedule''), s)
           | (Inr _, s) \<Rightarrow> (Inr (), s)))"

section \<open>What the rule handlers rely on, and what they guarantee\<close>

definition rule_key :: "MetricWhitelistRule \<Rightarrow> string \<times> string \<times> string" where
  "rule_key r = (mwr_TargetGroup r, mwr_Env r, mwr_MetricName r)"

definition item_key :: "MetricWhitelistItem \<Rightarrow> string \<times> string \<times> string" where
  "item_key i = (mwi_TargetGroup i, mwi_Env i, mwi_MetricName i)"

definition matches :: "string \<Rightarrow> string \<Rightarrow> string \<times> string \<times> string \<Rightarrow> bool" where
  "matches tg env k = (case k of (g, e, _) \<Rightarrow> (tg = [] \<or> g = tg) \<and> (env = [] \<or> e = env))"

text \<open>A rule replaces the rule of its key.\<close>

definition replace_rule :: "MetricWhitelistRule \<Rightarrow> MetricWhitelistRule set \<Rightarrow> MetricWhitelistRule set" where
  "replace_rule item rs = insert item {r \<in> rs. rule_key r \<noteq> rule_key item}"

text \<open>The rule a request asks for.\<close>

definition requested :: "MetricWhitelistItem \<Rightarrow> MetricWhitelistRule" where
  "requested item = \<lparr>mwr_TargetGroup = mwi_TargetGroup item, mwr_Env = mwi_Env item,
     mwr_MetricName = mwi_MetricName item, mwr_Checks = fromMetricWhitelistChecks (mwi_Checks item)\<rparr>"

locale rule_store =
  fixes ops :: "'s api_storage" and inv :: "'s \<Rightarrow> bool" and rules :: "'s \<Rightarrow> MetricWhitelistRule set"
  assumes list_keeps: "as_ListMetricWhitelist ops tg env s = (lr, s') \<Longrightarrow> inv s \<Longrightarrow> inv s' \<and> rules s' = rules s"
    and listed: "as_ListMetricWhitelist ops tg env s = (Inr items, s') \<Longrightarrow> inv s \<Longrightarrow>
        set items = {r \<in> rules s. matches tg env (rule_key r)}"
    and upsert: "as_UpsertMetricWhitelist ops item s = (u, s') \<Longrightarrow> inv s \<Longrightarrow> go_rule item \<Longrightarrow>
        inv s' \<and> (isOk u \<longrightarrow> rules s' = replace_rule item (rules s)) \<and>
        (rules s' = rules s \<or> rules s' = replace_rule item (rules s))"
    and delete: "as_DeleteMetricWhitelist ops tg env name s = (u, s') \<Longrightarrow> inv s \<Longrightarrow>
        inv s' \<and> (isOk u \<longrightarrow> rules s' = {r \<in> rules s. rule_key r \<noteq> (tg, env, name)}) \<and>
        (rules s' = rules s \<or> rules s' = {r \<in> rules s. rule_key r \<noteq> (tg, env, name)})"
begin

definition shown :: "'s \<Rightarrow> MetricWhitelistItem set" where
  "shown s = toMetricWhitelistItem ` rules s"

lemma item_key_to [simp]: "item_key (toMetricWhitelistItem r) = rule_key r"
  by (simp add: item_key_def rule_key_def toMetricWhitelistItem_def)

lemma shown_replace:
  "toMetricWhitelistItem ` replace_rule item rs =
   insert (toMetricWhitelistItem item) {i \<in> toMetricWhitelistItem ` rs. item_key i \<noteq> rule_key item}"
  by (auto simp: replace_rule_def)

lemma List_rpc_shown:
  assumes "tgs_storage svc = ops" and "inv s" and "ListMetricWhitelist_rpc svc tg env s = (Inr items, s')"
  shows "set items = {i \<in> shown s. matches tg env (item_key i)}" "inv s'" "shown s' = shown s"
proof -
  obtain rs s1 where l: "as_ListMetricWhitelist ops tg env s = (Inr rs, s1)"
    and items: "items = map toMetricWhitelistItem rs" "s' = s1"
    using assms by (auto simp: ListMetricWhitelist_rpc_def internal_on_error_def split: prod.splits sum.splits)
  from listed [OF l assms(2)] items show "set items = {i \<in> shown s. matches tg env (item_key i)}"
    by (auto simp: shown_def)
  from list_keeps [OF l assms(2)] items show "inv s'" "shown s' = shown s" by (auto simp: shown_def)
qed

lemma Upsert_rpc_shown:
  assumes "tgs_storage svc = ops" and "inv s" and "go_rule (requested item)"
    and "UpsertMetricWhitelist_rpc svc (Some item) s = (Inr u, s')"
  shows "shown s' = insert (toMetricWhitelistItem (requested item)) {i \<in> shown s. item_key i \<noteq> item_key item}" "inv s'"
proof -
  obtain u where up: "as_UpsertMetricWhitelist ops (requested item) s = (Inr u, s')"
    using assms(1,4)
    by (auto simp: UpsertMetricWhitelist_rpc_def internal_on_error_def requested_def Let_def
        split: if_splits prod.splits sum.splits)
  have "rule_key (requested item) = item_key item" by (simp add: rule_key_def item_key_def requested_def)
  with upsert [OF up assms(2,3)] show
    "shown s' = insert (toMetricWhitelistItem (requested item)) {i \<in> shown s. item_key i \<noteq> item_key item}" "inv s'"
    by (auto simp: shown_def shown_replace)
qed

lemma Upsert_rpc_refused:
  assumes "tgs_storage svc = ops" and "inv s" and "go_rule (requested item)"
    and "UpsertMetricWhitelist_rpc svc (Some item) s = (Inl (Status c m), s')"
  shows "c = InvalidArgument \<and> s' = s \<or> c = Internal \<and>
    (shown s' = shown s \<or>
     shown s' = insert (toMetricWhitelistItem (requested item)) {i \<in> shown s. item_key i \<noteq> item_key item})"
proof (cases "mwi_TargetGroup item = [] \<or> mwi_Env item = [] \<or> mwi_MetricName item = [] \<or>
    dom (fromMetricWhitelistChecks (mwi_Checks item)) = {}")
  case True
  with assms(4) show ?thesis by (auto simp: UpsertMetricWhitelist_rpc_def Let_def split: if_splits)
next
  case False
  then obtain r where up: "as_UpsertMetricWhitelist ops (requested item) s = (r, s')" and c: "c = Internal"
    using assms(1,4)
    by (auto simp: UpsertMetricWhitelist_rpc_def internal_on_error_def requested_def Let_def
        split: prod.splits sum.splits)
  have "rule_key (requested item) = item_key item" by (simp add: rule_key_def item_key_def requested_def)
  moreover from upsert [OF up assms(2,3)]
  have "rules s' = rules s \<or> rules s' = replace_rule (requested item) (rules s)" by blast
  ultimately show ?thesis using c by (elim disjE) (simp_all add: shown_def shown_replace)
qed

end

section \<open>The server\<close>

text \<open>
  The state of a node: its database, how many storage calls have been made (\<open>links\<close> says how the
  driver behaves in each), and its settings.
\<close>

record Server =
  sv_db :: DB
  sv_calls :: nat
  sv_node :: Node

definition db_read :: "(nat \<Rightarrow> Link) \<Rightarrow> (Link \<Rightarrow> DB \<Rightarrow> 'a result) \<Rightarrow> Server \<Rightarrow> 'a result \<times> Server" where
  "db_read links f s = (f (links (sv_calls s)) (sv_db s), s\<lparr>sv_calls := Suc (sv_calls s)\<rparr>)"

definition db_write :: "(nat \<Rightarrow> Link) \<Rightarrow> (Link \<Rightarrow> DB \<Rightarrow> unit result \<times> DB) \<Rightarrow> Server \<Rightarrow> unit result \<times> Server" where
  "db_write links f s =
     (case f (links (sv_calls s)) (sv_db s) of (r, db) \<Rightarrow> (r, s\<lparr>sv_db := db, sv_calls := Suc (sv_calls s)\<rparr>))"

definition pg_storage :: "(nat \<Rightarrow> Link) \<Rightarrow> (string \<Rightarrow> string) \<Rightarrow> Server api_storage" where
  "pg_storage links collate =
     \<lparr>as_ListTargetGroups = (\<lambda>team. db_read links (\<lambda>lk. ListTargetGroups lk collate team)),
      as_GetTargetGroupByID = (\<lambda>gid. db_read links (\<lambda>lk. GetTargetGroupByID lk gid)),
      as_ListMetricWhitelist = (\<lambda>tg env. db_read links (\<lambda>lk. ListMetricWhitelist lk collate tg env)),
      as_UpsertMetricWhitelist = (\<lambda>item. db_write links (\<lambda>lk. UpsertMetricWhitelist lk item)),
      as_DeleteMetricWhitelist = (\<lambda>tg env name. db_write links (\<lambda>lk. DeleteMetricWhitelist lk tg env name)),
      as_ListTargetWhitelist = (\<lambda>tg env. db_read links (\<lambda>lk. ListTargetWhitelist lk collate tg env)),
      as_UpsertTargetWhitelist = (\<lambda>item. db_write links (\<lambda>lk. UpsertTargetWhitelist lk item)),
      as_DeleteTargetWhitelist = (\<lambda>tg env. db_write links (\<lambda>lk. DeleteTargetWhitelist lk tg env))\<rparr>"

definition on_node :: "(Node \<Rightarrow> 'a \<times> Node) \<Rightarrow> Server \<Rightarrow> 'a \<times> Server" where
  "on_node f s = (case f (sv_node s) of (a, n) \<Rightarrow> (a, s\<lparr>sv_node := n\<rparr>))"

definition node_settings :: "(string \<Rightarrow> goerr option) \<Rightarrow> Node Service \<Rightarrow> Server runtime_settings" where
  "node_settings cronParse svc =
     \<lparr>rs_GetMetricLimits = on_node (GetMetricLimits svc),
      rs_SetMetricLimits = (\<lambda>limits. on_node (SetMetricLimits svc limits)),
      rs_GetProduceTasksCronExpr = on_node (GetProduceTasksCronExpr cronParse svc),
      rs_SetProduceTasksCronExpr = (\<lambda>expr. on_node (SetProduceTasksCronExpr cronParse svc expr))\<rparr>"

text \<open>The service as \<open>NewHandler\<close> makes it, over the storage and the settings of \<open>cmd/main.go\<close>.\<close>

definition server_service ::
  "(nat \<Rightarrow> Link) \<Rightarrow> (string \<Rightarrow> string) \<Rightarrow> (string \<Rightarrow> goerr option) \<Rightarrow> Node Service \<Rightarrow> Server targetGroupsService" where
  "server_service links collate cronParse svc =
     newTargetGroupsService (pg_storage links collate) (Some (node_settings cronParse svc))"

definition stored_rules :: "DB \<Rightarrow> MetricWhitelistRule set" where
  "stored_rules db = metric_rule_of ` set (db_metrics_whitelist db)"

lemma rule_key_of [simp]: "rule_key (metric_rule_of r) = mw_key r"
  by (simp add: rule_key_def metric_rule_of_def mw_key_def)

lemma stored_rules_rollback [simp]: "stored_rules (rollback db w) = stored_rules db"
  by (simp add: stored_rules_def)

lemma query_Inr: "fst (query lk f db) = Inr x \<Longrightarrow> fst (f db) = Inr x"
  by (cases "lk_acquire lk"; cases "lk_end lk") (auto simp: query_def split: prod.splits)

lemma ListMetricWhitelist_rules:
  assumes "whitelists_ok db" and "ListMetricWhitelist lk collate tg env db = Inr items"
  shows "set items = {r \<in> stored_rules db. matches tg env (rule_key r)}"
proof -
  have "ListMetricWhitelist good_link collate tg env db = Inr items"
    using query_Inr [OF assms(2) [unfolded ListMetricWhitelist_def]] by (simp add: ListMetricWhitelist_def)
  with ListMetricWhitelist_ok [OF assms(1)] have "items = map metric_rule_of (listMetricWhitelist_rows collate tg env db)"
    by simp
  then show ?thesis by (auto simp: listMetricWhitelist_rows_def stored_rules_def matches_def mw_key_def)
qed

lemma upsert_rules:
  assumes "parseMetricChecksJSON t = Inr (mwr_Checks item)"
  shows "stored_rules (db\<lparr>db_metrics_whitelist := upsert mw_key mergeMetricsWhitelist
      \<lparr>mw_target_group = mwr_TargetGroup item, mw_env = mwr_Env item, mw_metric_name = mwr_MetricName item, mw_checks = t\<rparr>
      (db_metrics_whitelist db)\<rparr>) = replace_rule item (stored_rules db)"
proof -
  let ?row = "\<lparr>mw_target_group = mwr_TargetGroup item, mw_env = mwr_Env item, mw_metric_name = mwr_MetricName item, mw_checks = t\<rparr>"
  have new: "metric_rule_of ?row = item"
    using assms by (simp add: metric_rule_of_def metric_checks_of_def)
  have merged: "metric_rule_of (mergeMetricsWhitelist r ?row) = item" if "mw_key r = mw_key ?row" for r
    using that new by (auto simp: metric_rule_of_def metric_checks_of_def mergeMetricsWhitelist_def mw_key_def)
  have key: "mw_key ?row = rule_key item" by (simp add: mw_key_def rule_key_def)
  show ?thesis
  proof (cases "mw_key ?row \<in> mw_key ` set (db_metrics_whitelist db)")
    case True
    have "metric_rule_of (if mw_key r = mw_key ?row then mergeMetricsWhitelist r ?row else r) =
        (if mw_key r = rule_key item then item else metric_rule_of r)" for r
      using merged [of r] key by simp
    then have "metric_rule_of ` set (upsert mw_key mergeMetricsWhitelist ?row rows) =
        (\<lambda>r. if mw_key r = rule_key item then item else metric_rule_of r) ` set rows"
      if "mw_key ?row \<in> mw_key ` set rows" for rows
      using that by (simp only: upsert_def if_True set_map image_image)
    moreover from True key obtain r where "r \<in> set (db_metrics_whitelist db)" "mw_key r = rule_key item" by auto
    ultimately show ?thesis using True by (auto simp: stored_rules_def replace_rule_def)
  next
    case False
    with new key show ?thesis by (force simp: stored_rules_def replace_rule_def upsert_def)
  qed
qed

lemma UpsertMetricWhitelist_rules:
  assumes "whitelists_ok db" and "go_rule item" and "UpsertMetricWhitelist lk item db = (r, db')"
  shows "(isOk r \<longrightarrow> stored_rules db' = replace_rule item (stored_rules db)) \<and>
    (stored_rules db' = stored_rules db \<or> stored_rules db' = replace_rule item (stored_rules db))"
proof (cases "mwr_TargetGroup item = [] \<or> mwr_Env item = [] \<or> mwr_MetricName item = [] \<or> dom (mwr_Checks item) = {}")
  case True
  with assms(3) show ?thesis by (auto simp: UpsertMetricWhitelist_def split: if_splits)
next
  case False
  show ?thesis
  proof (cases "marshalMetricChecks (mwr_Checks item)")
    case (Inl e)
    with False assms(3) show ?thesis by (auto simp: UpsertMetricWhitelist_def)
  next
    case (Inr t)
    note rules = upsert_rules [OF marshalled_row_ok(1) [OF assms(2) Inr], of db]
    from False Inr assms(3) show ?thesis
      by (cases rule: exec_cases [of lk "\<lambda>db. db\<lparr>db_metrics_whitelist := upsert mw_key mergeMetricsWhitelist
            \<lparr>mw_target_group = mwr_TargetGroup item, mw_env = mwr_Env item,
             mw_metric_name = mwr_MetricName item, mw_checks = t\<rparr> (db_metrics_whitelist db)\<rparr>" db])
        (auto simp: UpsertMetricWhitelist_def rules)
  qed
qed

lemma exec_effect:
  assumes "exec lk f db = (r, db')"
  shows "(isOk r \<longrightarrow> db' = f db) \<and> (db' = db \<or> db' = f db \<or> db' = rollback db (f db))"
  using assms by (cases rule: exec_cases [of lk f db]) auto

lemma DeleteMetricWhitelist_rules:
  assumes "DeleteMetricWhitelist lk tg env name db = (r, db')"
  shows "(isOk r \<longrightarrow> stored_rules db' = {r \<in> stored_rules db. rule_key r \<noteq> (tg, env, name)}) \<and>
    (stored_rules db' = stored_rules db \<or> stored_rules db' = {r \<in> stored_rules db. rule_key r \<noteq> (tg, env, name)})"
proof -
  let ?f = "\<lambda>db. db\<lparr>db_metrics_whitelist := filter (\<lambda>r. mw_key r \<noteq> (tg, env, name)) (db_metrics_whitelist db)\<rparr>"
  have del: "stored_rules (?f db) = {r \<in> stored_rules db. rule_key r \<noteq> (tg, env, name)}"
    by (auto simp: stored_rules_def)
  have "(isOk r \<longrightarrow> db' = ?f db) \<and> (db' = db \<or> db' = ?f db \<or> db' = rollback db (?f db))"
  proof (cases "tg = [] \<or> env = [] \<or> name = []")
    case True
    with assms show ?thesis by (auto simp: DeleteMetricWhitelist_def split: if_splits)
  next
    case False
    with assms have "exec lk ?f db = (r, db')" by (simp add: DeleteMetricWhitelist_def)
    then show ?thesis by (rule exec_effect)
  qed
  then show ?thesis unfolding del [symmetric] by (metis stored_rules_rollback)
qed

interpretation pg_rules: rule_store "pg_storage links collate" "\<lambda>s. whitelists_ok (sv_db s)" "\<lambda>s. stored_rules (sv_db s)"
  for links collate
proof unfold_locales
  fix tg env name item s s'
  show "whitelists_ok (sv_db s') \<and> stored_rules (sv_db s') = stored_rules (sv_db s)"
    if "as_ListMetricWhitelist (pg_storage links collate) tg env s = (lr, s')" "whitelists_ok (sv_db s)" for lr
    using that by (auto simp: pg_storage_def db_read_def)
  show "set items = {r \<in> stored_rules (sv_db s). matches tg env (rule_key r)}"
    if "as_ListMetricWhitelist (pg_storage links collate) tg env s = (Inr items, s')" "whitelists_ok (sv_db s)" for items
    using that by (intro ListMetricWhitelist_rules) (auto simp: pg_storage_def db_read_def)
  show "whitelists_ok (sv_db s') \<and> (isOk u \<longrightarrow> stored_rules (sv_db s') = replace_rule item (stored_rules (sv_db s))) \<and>
      (stored_rules (sv_db s') = stored_rules (sv_db s) \<or> stored_rules (sv_db s') = replace_rule item (stored_rules (sv_db s)))"
    if "as_UpsertMetricWhitelist (pg_storage links collate) item s = (u, s')" "whitelists_ok (sv_db s)" "go_rule item" for u
    using that UpsertMetricWhitelist_rules [OF that(2,3), of "links (sv_calls s)" u "sv_db s'"]
      UpsertMetricWhitelist_ok [OF that(2,3), of "links (sv_calls s)"]
    by (auto simp: pg_storage_def db_write_def split: prod.splits)
  show "whitelists_ok (sv_db s') \<and>
      (isOk u \<longrightarrow> stored_rules (sv_db s') = {r \<in> stored_rules (sv_db s). rule_key r \<noteq> (tg, env, name)}) \<and>
      (stored_rules (sv_db s') = stored_rules (sv_db s) \<or>
       stored_rules (sv_db s') = {r \<in> stored_rules (sv_db s). rule_key r \<noteq> (tg, env, name)})"
    if "as_DeleteMetricWhitelist (pg_storage links collate) tg env name s = (u, s')" "whitelists_ok (sv_db s)" for u
    using that DeleteMetricWhitelist_rules [of "links (sv_calls s)" tg env name "sv_db s" u "sv_db s'"]
      delete_ok(1) [OF that(2), of "links (sv_calls s)" tg env name]
    by (auto simp: pg_storage_def db_write_def split: prod.splits)
qed

lemma server_service_simps [simp]:
  "tgs_storage (server_service links collate cronParse svc) = pg_storage links collate"
  "tgs_settings (server_service links collate cronParse svc) = Some (node_settings cronParse svc)"
  by (simp_all add: server_service_def newTargetGroupsService_def)

section \<open>Properties of the API\<close>

text \<open>
  C9. The metric whitelist behaves as a table of rules at the level of the API: after a rule has
  been saved, any listing shows what the same listing showed before without the rule's key, and the
  rule itself when the filter matches it, its limits being those of the request that are
  positive.
\<close>

theorem metric_rule_listed:
  assumes "whitelists_ok (sv_db s)" and "go_rule (requested item)"
    and "ListMetricWhitelist_rpc (server_service links collate cronParse svc) tg env s = (Inr was, s0)"
    and "UpsertMetricWhitelist_rpc (server_service links collate cronParse svc) (Some item) s0 = (Inr u, s1)"
    and "ListMetricWhitelist_rpc (server_service links collate cronParse svc) tg env s1 = (Inr now, s2)"
  shows "set now = {i \<in> set was. item_key i \<noteq> item_key item} \<union>
      (if matches tg env (item_key item) then {toMetricWhitelistItem (requested item)} else {}) \<and>
    fromMetricWhitelistChecks (mwi_Checks (toMetricWhitelistItem (requested item))) =
      fromMetricWhitelistChecks (mwi_Checks item)"
proof -
  note l0 = pg_rules.List_rpc_shown [OF _ assms(1,3), of links collate, simplified]
  note up = pg_rules.Upsert_rpc_shown [OF _ l0(2) assms(2,4), of links collate, simplified]
  note l1 = pg_rules.List_rpc_shown [OF _ up(2) assms(5), of links collate, simplified]
  have "item_key (toMetricWhitelistItem (requested item)) = item_key item"
    by (simp add: item_key_def toMetricWhitelistItem_def requested_def)
  with l0 up l1 have "set now = {i \<in> set was. item_key i \<noteq> item_key item} \<union>
      (if matches tg env (item_key item) then {toMetricWhitelistItem (requested item)} else {})"
    by auto
  then show ?thesis
    by (simp add: toMetricWhitelistItem_def requested_def from_toMetricWhitelistChecks fromMetricWhitelistChecks_valid)
qed

definition sample_item :: MetricWhitelistItem where
  "sample_item = \<lparr>mwi_TargetGroup = ''group'', mwi_Env = ''prod'', mwi_MetricName = ''metric'',
     mwi_Checks = Some \<lparr>mwc_MetricNameLength = 0, mwc_LabelNameLength = -1, mwc_LabelValueLength = 0,
       mwc_Cardinality = 7, mwc_HistogramBuckets = 0\<rparr>\<rparr>"

definition sample_server :: Server where
  "sample_server = \<lparr>sv_db = empty_db, sv_calls = 0, sv_node = sample_node\<rparr>"

definition sample_api :: "Server targetGroupsService" where
  "sample_api = server_service (\<lambda>_. good_link) (\<lambda>s. s) sample_parse sample_service"

lemma sample_requested: "requested sample_item = sample_rule"
  by (simp add: requested_def sample_item_def sample_rule_def fromMetricWhitelistChecks_def put_positive_def sample_checks_def)

lemma sample_listing: "whitelists_ok db \<Longrightarrow> sv_db s = db \<Longrightarrow>
   ListMetricWhitelist_rpc sample_api tg env s =
   (Inr (map (toMetricWhitelistItem \<circ> metric_rule_of) (listMetricWhitelist_rows (\<lambda>s. s) tg env db)), s\<lparr>sv_calls := Suc (sv_calls s)\<rparr>)"
  by (simp add: ListMetricWhitelist_rpc_def internal_on_error_def sample_api_def pg_storage_def db_read_def ListMetricWhitelist_ok)

lemma sample_saving:
  "sv_db s = empty_db \<Longrightarrow> UpsertMetricWhitelist_rpc sample_api (Some sample_item) s =
   (Inr (), s\<lparr>sv_db := sample_rules_db, sv_calls := Suc (sv_calls s)\<rparr>)"
  using sample_requested sample_upsert
  by (simp add: UpsertMetricWhitelist_rpc_def internal_on_error_def sample_api_def pg_storage_def db_write_def
      sample_item_def requested_def Let_def sample_rule_def) (simp add: sample_checks_def)

theorem metric_rule_listed_witness:
  "\<exists>now s2. ListMetricWhitelist_rpc sample_api ''group'' [] (sample_server\<lparr>sv_db := sample_rules_db, sv_calls := 2\<rparr>) = (Inr now, s2) \<and>
     set now = {toMetricWhitelistItem sample_rule}"
proof -
  have db: "sv_db sample_server = empty_db" "sv_calls sample_server = 0" by (simp_all add: sample_server_def)
  let ?s0 = "sample_server\<lparr>sv_calls := 1\<rparr>" and ?s1 = "sample_server\<lparr>sv_db := sample_rules_db, sv_calls := 2\<rparr>"
  have l0: "ListMetricWhitelist_rpc sample_api ''group'' [] sample_server = (Inr [], ?s0)"
    using sample_listing [OF sample_rules_ok(1) db(1)] db by (simp add: listMetricWhitelist_rows_def empty_db_def)
  have up: "UpsertMetricWhitelist_rpc sample_api (Some sample_item) ?s0 = (Inr (), ?s1)"
    using sample_saving [of ?s0] db by (simp add: numeral_2_eq_2)
  obtain now s2 where l1: "ListMetricWhitelist_rpc sample_api ''group'' [] ?s1 = (Inr now, s2)"
    using sample_listing [OF sample_rules_ok(2), of ?s1] by simp
  have "set now = {i \<in> set []. item_key i \<noteq> item_key sample_item} \<union>
      (if matches ''group'' [] (item_key sample_item) then {toMetricWhitelistItem (requested sample_item)} else {}) \<and>
    fromMetricWhitelistChecks (mwi_Checks (toMetricWhitelistItem (requested sample_item))) =
      fromMetricWhitelistChecks (mwi_Checks sample_item)"
    by (rule metric_rule_listed [of sample_server, OF _ _ l0 [unfolded sample_api_def] up [unfolded sample_api_def] l1 [unfolded sample_api_def]])
      (simp_all add: db sample_rules_ok sample_requested sample_rule_ok)
  then have "set now = {toMetricWhitelistItem sample_rule}"
    unfolding sample_requested by (simp add: matches_def item_key_def sample_item_def)
  with l1 show ?thesis by blast
qed

text \<open>
  C28. Limits through the API: a message of 64-bit fields is refused as invalid exactly when one of
  its limits is not positive, and then nothing changes; when it is accepted, the next read returns
  exactly that message unless etcd fails to answer; a failing etcd is an internal error.
\<close>

theorem limits_api:
  assumes "limits_message_fits p"
  shows "case UpdateMetricCheckLimits_rpc (server_service links collate cronParse (node_service cronParse gets puts dl dc)) (Some p) s of
      (Inr _, s') \<Rightarrow> limits_message_ok p \<and>
        (gets (kv_calls (fst (sv_node s'))) \<noteq> None \<or>
         fst (GetMetricCheckLimits_rpc (server_service links collate cronParse (node_service cronParse gets puts dl dc)) s') = Inr p)
    | (Inl (Status c m), s') \<Rightarrow>
        if limits_message_ok p then c = Internal else c = InvalidArgument \<and> s' = s"
proof (cases "limits_message_ok p")
  case False
  then obtain e where "fromProtoMetricCheckLimits (Some p) = Inl e" by (rule fromProtoMetricCheckLimits_bad)
  with False show ?thesis by (simp add: UpdateMetricCheckLimits_rpc_def)
next
  case True
  let ?svc = "node_service cronParse gets puts dl dc"
  obtain l where l: "fromProtoMetricCheckLimits (Some p) = Inr l" "toProtoMetricCheckLimits l = p" "LimitsConfig_fits l"
    using fromProtoMetricCheckLimits_ok [OF assms True] by blast
  have pos: "isOk (ValidateLimitsConfig l)"
    using True l(2) by (auto simp: valid_limits_iff limits_message_ok_def toProtoMetricCheckLimits_def)
  obtain r n where set: "SetMetricLimits ?svc l (sv_node s) = (r, n)" by (meson surj_pair)
  show ?thesis
  proof (cases r)
    case (Inl e)
    have "\<not> errors_Is e ErrInvalidLimitsConfig"
      using set Inl pos
      by (auto simp: SetMetricLimits_def etcd_ops_def lift_etcd_def Put_def Let_def client_error_def ErrInvalidLimitsConfig_def
          split: sum.splits prod.splits put_outcome.splits)
    with Inl set l True show ?thesis
      by (simp add: UpdateMetricCheckLimits_rpc_def node_settings_def on_node_def)
  next
    case (Inr u)
    have "gets (kv_calls (fst n)) = None \<Longrightarrow> fst (GetMetricLimits ?svc n) = Inr l"
      using SetMetricLimits_GetMetricLimits [OF l(3)] set Inr by blast
    then have "gets (kv_calls (fst n)) \<noteq> None \<or>
        fst (GetMetricCheckLimits_rpc (server_service links collate cronParse ?svc) (s\<lparr>sv_node := n\<rparr>)) = Inr p"
      using l(2) by (cases "gets (kv_calls (fst n))")
        (auto simp: GetMetricCheckLimits_rpc_def node_settings_def on_node_def internal_on_error_def split: prod.splits)
    with Inr set l True show ?thesis
      by (simp add: UpdateMetricCheckLimits_rpc_def node_settings_def on_node_def)
  qed
qed

theorem limits_api_witness:
  "case UpdateMetricCheckLimits_rpc sample_api (Some (toProtoMetricCheckLimits sample_limits)) sample_server of
     (Inr _, s') \<Rightarrow> fst (GetMetricCheckLimits_rpc sample_api s') = Inr (toProtoMetricCheckLimits sample_limits)
   | (Inl (Status c m), s') \<Rightarrow> c = Internal"
proof -
  have "limits_message_fits (toProtoMetricCheckLimits sample_limits)" "limits_message_ok (toProtoMetricCheckLimits sample_limits)"
    by (simp_all add: limits_message_fits_def limits_message_ok_def toProtoMetricCheckLimits_def sample_limits_def int64_range_def)
  with limits_api [where p = "toProtoMetricCheckLimits sample_limits" and links = "\<lambda>_. good_link" and collate = "\<lambda>s. s"
      and cronParse = sample_parse and gets = "\<lambda>_. None" and puts = "\<lambda>_. PutDone" and dl = sample_limits
      and dc = "''@hourly''" and s = sample_server]
  show ?thesis by (auto simp: sample_api_def sample_service_def split: prod.splits sum.splits status.splits)
qed

text \<open>
  The statistics of a group are 32-bit numbers: they are the exact counts of the violations of
  each kind and of all of them as long as there are fewer than \<open>2^31\<close> violations.
\<close>

lemma violation_stats_exact:
  assumes "violations_count d < 2 ^ 31"
  shows "sint (vs_Total (toViolationStats d)) = violations_count d \<and>
    sint (vs_MetricNameTooLong (toViolationStats d)) = int (length (d_MetricNameTooLong d)) \<and>
    sint (vs_LabelNameTooLong (toViolationStats d)) = int (length (d_LabelNameTooLong d)) \<and>
    sint (vs_LabelValueTooLong (toViolationStats d)) = int (length (d_LabelValueTooLong d)) \<and>
    sint (vs_Cardinality (toViolationStats d)) = int (length (d_Cardinality d)) \<and>
    sint (vs_HistogramBuckets (toViolationStats d)) = int (length (d_HistogramBuckets d))"
proof -
  have "0 \<le> violations_count d" by (simp add: violations_count_def)
  with assms have "sint (vs_Total (toViolationStats d)) = violations_count d"
    unfolding vs_Total_wraps by (intro sint_small) auto
  moreover have "sint (word_of_int (int n) :: int32) = int n" if "int n \<le> violations_count d" for n
    using that assms by (intro sint_small) auto
  ultimately show ?thesis
    by (simp add: toViolationStats_def Let_def violations_count_def)
qed

text \<open>
  What is saved is what the API shows: after \<open>SaveReports\<close> of a batch with one report for
  the group, asking for the group answers with the violations of that report, and for every type of
  check with the limit and the value of the last result of that type.
\<close>

lemma saved_report_shown:
  assumes "SaveReports lk st protoMarshal newUUID createdAt reports (sv_db s) = (Inr u, db')"
    and "distinct (map report_key (db_reports (sv_db s)))"
    and "filter (\<lambda>g. gr_id g = gid) (db_target_groups (sv_db s)) = [tg]" and "0 < gid"
    and "report \<in> set reports" and "report_key (reportRow report createdAt) = group_key tg"
    and "\<And>r. r \<in> set reports \<Longrightarrow> report_key (reportRow r createdAt) = group_key tg \<Longrightarrow> r = report"
    and "Details_fits (rep_Details report)" and "links (sv_calls s) = good_link"
  shows "case GetTargetGroup_rpc (server_service links collate cronParse svc) gid (s\<lparr>sv_db := db'\<rparr>) of
      (Inl _, _) \<Rightarrow> False
    | (Inr d, _) \<Rightarrow> sm_Id (tgd_Summary d) = gid \<and> tgd_Violations d = toViolationDetails (rep_Details report) \<and>
        tgd_ReportCreatedAt d = toTimestamp (Some createdAt) \<and>
        (if d_Checks (rep_Details report) = [] then True
         else case vd_Checks (tgd_Violations d) of
             None \<Rightarrow> False
           | Some m \<Rightarrow> \<forall>t. isTargetWhitelistCheckType t \<longrightarrow>
               check_metric m t = map_option (\<lambda>c. \<lparr>cm_Limit = chk_Limit c, cm_Current = chk_Current c\<rparr>)
                 (find (\<lambda>c. chk_Type c = t) (rev (d_Checks (rep_Details report)))))"
proof -
  have "case GetTargetGroupByID good_link gid db' of
      Inl _ \<Rightarrow> False
    | Inr g \<Rightarrow> twp_ID g = gid \<and> twp_HasReport g \<and> twp_Details g = rep_Details report \<and>
              twp_ReportCreatedAt g = Some createdAt"
    by (rule SaveReports_read_back [OF assms(1,2,3,5,6,7,8)])
  moreover have "if d_Checks d = [] then True
      else case vd_Checks (toViolationDetails d) of
          None \<Rightarrow> False
        | Some m \<Rightarrow> \<forall>t. isTargetWhitelistCheckType t \<longrightarrow>
            check_metric m t = map_option (\<lambda>c. \<lparr>cm_Limit = chk_Limit c, cm_Current = chk_Current c\<rparr>)
              (find (\<lambda>c. chk_Type c = t) (rev (d_Checks d)))" for d
    by (simp add: toViolationDetails_def toCheckMetrics_def check_metric_results)
  ultimately show ?thesis using assms(4,9)
    by (auto simp: GetTargetGroup_rpc_def pg_storage_def db_read_def toTargetGroupSummary_def split: sum.splits)
qed

end
