(* ===== verification/Pipeline.thy ===== *)
theory Pipeline
  imports Check_Semantics Api
begin

text \<open>
  From a scrape to the API: the numbers in a report that \<open>Process\<close> builds are 64-bit integers, as its
  Go types say (\<open>processor.go\<close>, \<open>report.go\<close>), so the report survives the JSON column of the database
  (\<open>reports.go\<close>) and \<open>GetTargetGroup\<close> (\<open>target_groups_service.go\<close>) shows what was measured.
\<close>

section \<open>Numbers of a report\<close>

text \<open>
  The model counts in unbounded integers. On what a scrape returns, Go's \<open>len\<close> and the byte counter
  are \<open>int\<close> and \<open>int64\<close>: everything that is measured on the families, and the weight of each response,
  is in that range.
\<close>

definition scrape_fits :: "Processor \<Rightarrow> ScrapeTask \<Rightarrow> bool" where
  "scrape_fits p task \<longleftrightarrow>
     list_all (\<lambda>ct. list_all (\<lambda>x. int64_range (snd x)) (observations ct (concat (map fst (scrapes p task)))))
       metric_check_types \<and>
     list_all int64_range (map snd (scrapes p task))"

context violation_log
begin

lemma placed_entry: "x \<in> set (foldl place [] (concat (map ev os))) \<Longrightarrow> \<exists>y \<in> set os. x \<in> set (ev y)"
  using set_foldl_place_subset [of "[]" "concat (map ev os)"] by auto

end

lemma int64_range_Max: "finite A \<Longrightarrow> \<forall>x \<in> A. int64_range x \<Longrightarrow> int64_range (Max (insert 0 A))"
  using Max_in [of "insert 0 A"] by (auto simp: int64_range_def)

lemma log_ok_slot: "log_ok key val xs slot \<Longrightarrow> \<forall>x \<in> set xs. int64_range (val x) \<Longrightarrow> pred_option (\<lambda>x. int64_range (val x)) slot"
  by (auto simp: log_ok_def split: option.splits)

lemmas violation_ok_defs =
  MetricNameViolation_ok_def LabelNameViolation_ok_def LabelValueViolation_ok_def CardinalityViolation_ok_def
  HistogramBucketsViolation_ok_def

lemma scraped_logs_fit:
  assumes "scrape_fits p task" and s: "s = foldl (handleScrape lim wl) (newReport task) (scrapes p task)"
  shows "list_all MetricNameViolation_ok (d_MetricNameTooLong (rep_Details s))"
    "list_all LabelNameViolation_ok (d_LabelNameTooLong (rep_Details s))"
    "list_all LabelValueViolation_ok (d_LabelValueTooLong (rep_Details s))"
    "list_all CardinalityViolation_ok (d_Cardinality (rep_Details s))"
    "list_all HistogramBucketsViolation_ok (d_HistogramBuckets (rep_Details s))"
proof -
  note tr = handleScrapes_trace [where s = "newReport task" and xs = "scrapes p task" and lim = lim and wl = wl,
      folded s, unfolded concat_map_scrapes newReport_start]
  note obs = assms(1) [unfolded scrape_fits_def metric_check_types_def observations_def list_all_iff]
  note fits = tr violation_ok_defs list_all_iff event_defs
  show "list_all MetricNameViolation_ok (d_MetricNameTooLong (rep_Details s))"
    using obs by (auto simp: fits split: if_splits dest!: mn_log.placed_entry)
  show "list_all LabelNameViolation_ok (d_LabelNameTooLong (rep_Details s))"
    using obs by (auto simp: fits split: if_splits dest!: ln_log.placed_entry)
  show "list_all LabelValueViolation_ok (d_LabelValueTooLong (rep_Details s))"
    using obs by (auto simp: fits split: if_splits dest!: lv_log.placed_entry)
  show "list_all CardinalityViolation_ok (d_Cardinality (rep_Details s))"
    using obs by (auto simp: fits split: if_splits dest!: cv_log.placed_entry)
  show "list_all HistogramBucketsViolation_ok (d_HistogramBuckets (rep_Details s))"
    using obs by (auto simp: fits split: if_splits dest!: hb_log.placed_entry)
qed

lemma Details_ok_max_fits:
  assumes "Details_ok d" and "list_all MetricNameViolation_ok (d_MetricNameTooLong d)"
    "list_all LabelNameViolation_ok (d_LabelNameTooLong d)" "list_all LabelValueViolation_ok (d_LabelValueTooLong d)"
    "list_all CardinalityViolation_ok (d_Cardinality d)" "list_all HistogramBucketsViolation_ok (d_HistogramBuckets d)"
  shows "pred_option MaxStats_ok (d_Max d)"
proof (cases "d_Max d")
  case (Some m)
  then have "max_of d = m" by (simp add: max_of_def)
  note parts = assms [unfolded Details_ok_def this violation_ok_defs [abs_def] list_all_iff]
  have "MaxStats_ok m"
    unfolding MaxStats_ok_def violation_ok_defs [abs_def]
    using parts by (elim conjE, intro conjI) (erule log_ok_slot, assumption)+
  then show ?thesis using Some by simp
qed simp

lemma scraped_checks_fit:
  assumes "scrape_fits p task" and lim: "LimitsConfig_fits lim"
  shows "list_all CheckResult_ok (spec_checks wl lim (concat (map fst (scrapes p task))) (map snd (scrapes p task)))"
proof -
  let ?fs = "concat (map fst (scrapes p task))"
  have limits: "int64_range (defaultLimit lim ct)" for ct
    using lim by (simp add: defaultLimit_def LimitsConfig_fits_def)
  have "CheckResult_ok (spec_check wl lim ?fs ct)" if "ct \<in> set metric_check_types" for ct
    using that assms(1) limits [of ct]
    by (auto simp: CheckResult_ok_def spec_check_def scrape_fits_def list_all_iff intro!: int64_range_Max)
  moreover have "CheckResult_ok (spec_weight_check lim (map snd (scrapes p task)))"
    using assms by (auto simp: CheckResult_ok_def spec_weight_check_def scrape_fits_def list_all_iff
        LimitsConfig_fits_def intro!: int64_range_Max)
  ultimately show ?thesis by (simp add: spec_checks_def list_all_iff)
qed

lemma buildCheck_fits:
  assumes "list_all CheckResult_ok checks"
  shows "pred_option CheckLimits_ok (buildCheckLimits checks)" "pred_option CheckCurrent_ok (buildCheckCurrent checks)"
proof -
  have zero: "int64_range 0" by (simp add: int64_range_def)
  have "CheckLimits_ok (foldl setLimit l checks)" if "CheckLimits_ok l" for l
    using that assms by (intro foldl_invariant [where I = CheckLimits_ok])
      (auto simp: setLimit_def CheckLimits_ok_def CheckResult_ok_def list_all_iff)
  then show "pred_option CheckLimits_ok (buildCheckLimits checks)"
    by (simp add: buildCheckLimits_def CheckLimits_ok_def zero)
  have "CheckCurrent_ok (foldl setCurrent c checks)" if "CheckCurrent_ok c" for c
    using that assms by (intro foldl_invariant [where I = CheckCurrent_ok])
      (auto simp: setCurrent_def CheckCurrent_ok_def CheckResult_ok_def list_all_iff)
  then show "pred_option CheckCurrent_ok (buildCheckCurrent checks)"
    by (simp add: buildCheckCurrent_def CheckCurrent_ok_def zero)
qed

lemma int64_range_foldl_max: "\<forall>v \<in> set vs. int64_range v \<Longrightarrow> int64_range (foldl max 0 vs)"
  using foldl_max_in [of 0 vs] by (auto simp: int64_range_def)

lemma scraped_maxima_fit:
  assumes "scrape_fits p task" and s: "s = foldl (handleScrape lim wl) (newReport task) (scrapes p task)"
  shows "int64_range (maxMetricNameLen s)" "int64_range (maxLabelNameLen s)" "int64_range (maxLabelValueLen s)"
    "int64_range (maxMetricCardinality s)" "int64_range (maxHistogramBuckets s)" "int64_range (maxResponseWeight s)"
proof -
  note tr = handleScrapes_trace [where s = "newReport task" and xs = "scrapes p task" and lim = lim and wl = wl,
      folded s, unfolded concat_map_scrapes]
  have zero: "maxMetricNameLen (newReport task) = 0" "maxLabelNameLen (newReport task) = 0" "maxLabelValueLen (newReport task) = 0"
    "maxMetricCardinality (newReport task) = 0" "maxHistogramBuckets (newReport task) = 0" "maxResponseWeight (newReport task) = 0"
    by (simp_all add: newReport_def)
  note obs = assms(1) [unfolded scrape_fits_def metric_check_types_def observations_def list_all_iff]
  show "int64_range (maxMetricNameLen s)" "int64_range (maxLabelNameLen s)" "int64_range (maxLabelValueLen s)"
    "int64_range (maxMetricCardinality s)" "int64_range (maxHistogramBuckets s)" "int64_range (maxResponseWeight s)"
    unfolding tr zero using obs by - (rule int64_range_foldl_max; auto simp: seen_def split: if_splits)+
qed

lemma scraped_weight_fits:
  assumes "scrape_fits p task"
  shows "int64_range (d_ResponseWeight (rep_Details (foldl (handleScrape lim wl) (newReport task) (scrapes p task))))"
proof -
  let ?vs = "concat (map (\<lambda>r. if IsCheckDisabled wl CheckTypeResponseWeight \<or> \<not> MaxBytesWeight lim < snd r
      then [] else [snd r]) (scrapes p task))"
  have "int64_range (foldl max 0 ?vs)"
    using assms by (intro int64_range_foldl_max) (auto simp: scrape_fits_def list_all_iff)
  then show ?thesis
    unfolding foldl_trace [where f = "\<lambda>s. d_ResponseWeight (rep_Details s)", OF d_ResponseWeight_handleScrape] newReport_start .
qed

lemma Process_report:
  assumes "Process p task = Inr (rep, tgs)"
  shows "rep = finishReport (effectiveLimits p) (Some (effectiveWhitelists p task))
    (foldl (handleScrape (effectiveLimits p) (Some (effectiveWhitelists p task))) (newReport task) (scrapes p task))"
  using assms by (auto simp: Process_cases Let_def split: if_splits)

lemma Process_Details_fits:
  assumes run: "Process p task = Inr (rep, tgs)" and scraped: "scrape_fits p task"
    and lim: "LimitsConfig_fits (effectiveLimits p)"
  shows "Details_fits (rep_Details rep)"
proof -
  let ?lim = "effectiveLimits p" and ?wl = "Some (effectiveWhitelists p task)"
  let ?s = "foldl (handleScrape ?lim ?wl) (newReport task) (scrapes p task)"
  note logs = scraped_logs_fit [OF scraped refl, of ?lim ?wl]
  have ok: "Details_ok (rep_Details ?s)"
    by (rule handleScrapes_Details_ok) (simp add: newReport_def)
  have checks: "list_all CheckResult_ok (buildCheckResults ?s ?lim ?wl)"
    unfolding buildCheckResults_newReport by (rule scraped_checks_fit [OF scraped lim])
  have "d_Max (rep_Details (finishReport l w s)) = d_Max (rep_Details s)" for l w s
    by (simp add: finishReport_def Let_def)
  then show ?thesis
    unfolding Process_report [OF run] Details_fits_def finishReport_simps
    using logs Details_ok_max_fits [OF ok logs] checks buildCheck_fits [OF checks] scraped_weight_fits [OF scraped]
    by simp
qed

text \<open>
  C20. The report of a task is well typed: when the limits and what the scrapes measured are in the
  range of Go's 64-bit integers, then so is every number of the report, in its logs, its maxima, its
  check results, limits and current values and the response weight; no computation leaves the range.
\<close>

theorem Process_fits:
  assumes "Process p task = Inr (rep, tgs)" and "scrape_fits p task" and "LimitsConfig_fits (effectiveLimits p)"
  shows "Details_fits (rep_Details rep) \<and> list_all CheckResult_ok (rep_Checks rep) \<and>
    list_all int64_range [maxMetricNameLen rep, maxLabelNameLen rep, maxLabelValueLen rep, maxMetricCardinality rep,
      maxHistogramBuckets rep, maxResponseWeight rep]"
proof -
  let ?lim = "effectiveLimits p" and ?wl = "Some (effectiveWhitelists p task)"
  let ?s = "foldl (handleScrape ?lim ?wl) (newReport task) (scrapes p task)"
  have "Details_fits (rep_Details rep)" by (rule Process_Details_fits [OF assms])
  moreover have "list_all CheckResult_ok (rep_Checks rep)"
    unfolding Process_report [OF assms(1)] finishReport_simps buildCheckResults_newReport
    by (rule scraped_checks_fit [OF assms(2,3)])
  moreover have "maxMetricNameLen rep = maxMetricNameLen ?s" "maxLabelNameLen rep = maxLabelNameLen ?s"
    "maxLabelValueLen rep = maxLabelValueLen ?s" "maxMetricCardinality rep = maxMetricCardinality ?s"
    "maxHistogramBuckets rep = maxHistogramBuckets ?s" "maxResponseWeight rep = maxResponseWeight ?s"
    by (simp_all add: Process_report [OF assms(1)] finishReport_def Let_def)
  ultimately show ?thesis using scraped_maxima_fit [OF assms(2) refl, of ?lim ?wl] by simp
qed

definition sample_scrape_task :: ScrapeTask where
  "sample_scrape_task = example_task\<lparr>st_TargetGroup := ''a'', st_Cluster := ''c''\<rparr>"

abbreviation sample_processor :: Processor where
  "sample_processor \<equiv> example_processor [Some (example_family ''up'' 1)]"

lemma sample_fits:
  "scrape_fits sample_processor sample_scrape_task" "LimitsConfig_fits (effectiveLimits sample_processor)"
proof -
  have sc: "scrapes sample_processor sample_scrape_task = [([Some (example_family ''up'' 1)], 50)]"
    by (simp add: scrapes_def example_processor_def sample_scrape_task_def example_task_def)
  show "scrape_fits sample_processor sample_scrape_task"
    unfolding scrape_fits_def sc
    by (simp add: metric_check_types_def observations_def scraped_families_def
        scraped_labels_def scraped_histograms_def scraped_metrics_def example_family_def int64_range_def)
  show "LimitsConfig_fits (effectiveLimits sample_processor)"
    by (simp add: effectiveLimits_def example_processor_def example_limits_def LimitsConfig_fits_def int64_range_def)
qed

definition scraped_report :: Report where
  "scraped_report = (case Process sample_processor sample_scrape_task of Inl _ \<Rightarrow> newReport sample_scrape_task | Inr (rep, _) \<Rightarrow> rep)"

lemma sample_processed: "\<exists>tgs. Process sample_processor sample_scrape_task = Inr (scraped_report, tgs)"
  by (simp add: scraped_report_def Process_cases Let_def scrapes_def example_processor_def sample_scrape_task_def example_task_def)

theorem Process_fits_witness:
  "\<exists>rep tgs. Process sample_processor sample_scrape_task = Inr (rep, tgs) \<and> Details_fits (rep_Details rep)"
  using sample_processed Process_fits [OF _ sample_fits] by blast

section \<open>From the scrape to the API\<close>

text \<open>What was measured for a check: its default limit and the largest value, of any metric or response.\<close>

definition measured :: "Processor \<Rightarrow> ScrapeTask \<Rightarrow> CheckType \<Rightarrow> CheckMetric option" where
  "measured p task ct =
     (if IsCheckDisabled (Some (effectiveWhitelists p task)) ct then None
      else Some \<lparr>cm_Limit = defaultLimit (effectiveLimits p) ct,
                 cm_Current = Max (insert 0 (if ct = CheckTypeResponseWeight then set (map snd (scrapes p task))
                   else snd ` set (observations ct (concat (map fst (scrapes p task))))))\<rparr>)"

lemma last_check:
  assumes "isTargetWhitelistCheckType ct"
  shows "map_option (\<lambda>c. \<lparr>cm_Limit = chk_Limit c, cm_Current = chk_Current c\<rparr>)
      (find (\<lambda>c. chk_Type c = ct) (rev (spec_checks (Some (effectiveWhitelists p task)) (effectiveLimits p)
         (concat (map fst (scrapes p task))) (map snd (scrapes p task))))) = measured p task ct"
  using assms
  by (auto simp: measured_def spec_checks_def metric_check_types_def spec_check_def spec_weight_check_def
      isTargetWhitelistCheckType_def defaultLimit_def)

lemma Process_checks:
  assumes "Process p task = Inr (rep, tgs)"
  shows "d_Checks (rep_Details rep) =
    spec_checks (Some (effectiveWhitelists p task)) (effectiveLimits p) (concat (map fst (scrapes p task))) (map snd (scrapes p task))"
  unfolding Process_report [OF assms] finishReport_simps buildCheckResults_newReport ..

lemma Process_key:
  assumes "Process p task = Inr (rep, tgs)"
  shows "report_key (reportRow rep t) = (st_TargetGroup task, st_Env task, st_Cluster task)"
  using header_frame [OF refl, where s = "newReport task" and h = "(st_TargetGroup task, st_Env task, st_Cluster task, st_TeamName task)"]
  by (simp add: Process_report [OF assms] finishReport_def Let_def report_key_def reportRow_def newReport_def)

text \<open>
  C15. What a scrape measured is what the API shows: when a batch with the report of a task is saved,
  asking for its target group answers with the violations of that report and, unless every check is
  disabled, for each check that is not disabled with the limit and the largest value over everything
  that was scraped, and for a disabled check with nothing.
\<close>

theorem scraped_report_shown:
  assumes "Process p task = Inr (report, tgs)" and "scrape_fits p task" and "LimitsConfig_fits (effectiveLimits p)"
    and "SaveReports lk st protoMarshal newUUID createdAt reports (sv_db s) = (Inr u, db')"
    and "distinct (map report_key (db_reports (sv_db s)))"
    and "filter (\<lambda>g. gr_id g = gid) (db_target_groups (sv_db s)) = [tg]" and "0 < gid"
    and "report \<in> set reports" and "group_key tg = (st_TargetGroup task, st_Env task, st_Cluster task)"
    and "\<And>r. r \<in> set reports \<Longrightarrow> report_key (reportRow r createdAt) = group_key tg \<Longrightarrow> r = report"
    and "links (sv_calls s) = good_link"
  shows "case GetTargetGroup_rpc (server_service links collate cronParse svc) gid (s\<lparr>sv_db := db'\<rparr>) of
      (Inl _, _) \<Rightarrow> False
    | (Inr d, _) \<Rightarrow> sm_Id (tgd_Summary d) = gid \<and> tgd_Violations d = toViolationDetails (rep_Details report) \<and>
        tgd_ReportCreatedAt d = toTimestamp (Some createdAt) \<and>
        ((\<exists>ct. isTargetWhitelistCheckType ct \<and> measured p task ct \<noteq> None) \<longrightarrow>
         (\<exists>m. vd_Checks (tgd_Violations d) = Some m \<and>
              (\<forall>ct. isTargetWhitelistCheckType ct \<longrightarrow> check_metric m ct = measured p task ct)))"
proof -
  have key: "report_key (reportRow report createdAt) = group_key tg"
    using Process_key [OF assms(1)] assms(9) by simp
  note checks = Process_checks [OF assms(1)]
  have some: "d_Checks (rep_Details report) \<noteq> []" if "isTargetWhitelistCheckType ct" "measured p task ct \<noteq> None" for ct
    using that last_check [OF that(1), of p task] checks by auto
  show ?thesis
    using saved_report_shown [where links = links and collate = collate and cronParse = cronParse and svc = svc,
        OF assms(4,5,6,7,8) key assms(10) Process_Details_fits [OF assms(1,2,3)] assms(11)] some
    by (auto simp: checks last_check split: sum.splits option.splits prod.splits if_splits)
qed

lemma enqueue_good: "\<exists>n' db'. enqueueOutboxEvents good_link events n db = (Inr (), n', db')"
  by (induction events arbitrary: n db) (auto simp: good_link_def)

text \<open>With a database that answers and a serializer that accepts every fact, saving succeeds.\<close>

lemma SaveReports_good:
  assumes "\<And>fact. isOk (protoMarshal fact)"
  shows "\<exists>db'. SaveReports good_link s protoMarshal newUUID createdAt reports db = (Inr (), db')"
proof -
  have "\<exists>evs. buildViolationOutboxEvents s protoMarshal uid report createdAt = Inr evs" for uid report
  proof -
    obtain g where "protoMarshal fact = Inr (g fact)" for fact using assms unfolding isOk_iff by metis
    then have "event_of s protoMarshal uid report createdAt ic = Inr \<lparr>ev_Topic = outboxTopic s, ev_Key = uid (fst ic),
        ev_Body = g (violationFact report createdAt (snd ic)), ev_CreatedAt = createdAt\<rparr>" for ic
      by (simp add: event_of_def)
    from mapM_Inr_map [where f = "event_of s protoMarshal uid report createdAt", OF this] show ?thesis
      unfolding buildViolationOutboxEvents_mapM by (rule exI)
  qed
  then have "\<exists>db'. saveReportsLoop good_link s protoMarshal newUUID createdAt i n reports db = (Inr (), db')" for i n db
  proof (induction reports arbitrary: i n db)
    case (Cons report reports)
    obtain evs where evs: "buildViolationOutboxEvents s protoMarshal (newUUID i) report createdAt = Inr evs"
      using Cons.prems by blast
    obtain n' db' where "enqueueOutboxEvents good_link evs (Suc n) (saveReport (reportRow report createdAt) db) = (Inr (), n', db')"
      using enqueue_good by blast
    with evs Cons show ?case by (simp add: good_link_def Let_def)
  qed simp
  then obtain db' where "saveReportsLoop good_link s protoMarshal newUUID createdAt 0 0 reports db = (Inr (), db')" by blast
  then show ?thesis by (cases "reports = []") (auto simp: SaveReports_def good_link_def)
qed

definition sample_groups_server :: Server where
  "sample_groups_server = sample_server\<lparr>sv_db := sample_groups_db\<rparr>"

theorem scraped_report_shown_witness:
  "\<exists>db'. case GetTargetGroup_rpc sample_api 1 (sample_groups_server\<lparr>sv_db := db'\<rparr>) of
     (Inl _, _) \<Rightarrow> False
   | (Inr d, _) \<Rightarrow> sm_Id (tgd_Summary d) = 1 \<and> tgd_ReportCreatedAt d = toTimestamp (Some 7) \<and>
       (\<exists>m. vd_Checks (tgd_Violations d) = Some m \<and>
          cms_MetricNameLength m = Some \<lparr>cm_Limit = 4, cm_Current = 2\<rparr>)"
proof -
  have db: "sv_db sample_groups_server = sample_groups_db" "sv_calls sample_groups_server = 0"
    by (simp_all add: sample_groups_server_def sample_server_def)
  have rows: "filter (\<lambda>g. gr_id g = 1) (db_target_groups sample_groups_db) = [sample_group_row]" "db_reports sample_groups_db = []"
    by (simp_all add: sample_groups_db_def sample_group_row_def empty_db_def)
  have key: "group_key sample_group_row = (st_TargetGroup sample_scrape_task, st_Env sample_scrape_task, st_Cluster sample_scrape_task)"
    by (simp add: group_key_def sample_group_row_def sample_scrape_task_def example_task_def)
  have shown: "measured sample_processor sample_scrape_task CheckTypeMetricNameLength = Some \<lparr>cm_Limit = 4, cm_Current = 2\<rparr>"
    by code_simp
  have type: "isTargetWhitelistCheckType CheckTypeMetricNameLength" by code_simp
  obtain tgs where run: "Process sample_processor sample_scrape_task = Inr (scraped_report, tgs)"
    using sample_processed by blast
  obtain db' where save: "SaveReports good_link \<lparr>outboxTopic = ''topic''\<rparr> (\<lambda>_. Inr ''body'') (\<lambda>_ _. ''uuid'') 7 [scraped_report]
      (sv_db sample_groups_server) = (Inr (), db')"
    using SaveReports_good [of "\<lambda>_. Inr ''body''"] by (simp add: isOk_iff) blast
  note scraped_report_shown [OF run sample_fits save, of 1 sample_group_row "\<lambda>_. good_link" "\<lambda>s. s" sample_parse sample_service]
  then show ?thesis
    using shown type unfolding sample_api_def
    by (auto simp: db rows key check_metric_def split: sum.splits prod.splits intro!: exI [of _ db'])
qed

end
