(* ===== verification/Consumer.thy ===== *)
theory Consumer
  imports Processing Task_Storage
begin

text \<open>
  The task consumer (\<open>internal/scraper/task_consumer.go\<close>): its loop collects the results of the
  worker pool in three batches and writes them to the storage, and fetches tasks for the pool.

  The loop is a function of the events its \<open>select\<close> takes. A storage call's error is given by
  the argument \<open>env\<close> for the n-th call made; the calls are kept in a trace, with whether they
  succeeded, so that theorems can speak of what has been written.
\<close>

section \<open>The loop\<close>

definition batchSizeLimit :: nat where "batchSizeLimit = 1000"
definition tasksPerRequest :: int where "tasksPerRequest = 10"

record workerResult =
  wr_taskID :: int
  wr_stat :: "Report option"
  wr_targetGroups :: "TargetGroup list"
  wr_err :: "goerr option"

record TaskConsumer =
  statBatch :: "Report list"
  statusBatch :: "TaskStatusUpdate list"
  targetGroupBatch :: "TargetGroup list"
  isLeader :: bool
  stopCh_closed :: bool

text \<open>What the consumer asks of its collaborators.\<close>

datatype call =
    CallSaveReports "Report list"
  | CallUpdateTaskStatuses "TaskStatusUpdate list"
  | CallSaveOrUpdateTargetGroups "TargetGroup list"
  | CallGetScrapeTasks int
  | CallSubmit ScrapeTask
  | CallPoolStop

type_synonym trace = "(call \<times> bool) list"

definition NewTaskConsumer :: "bool \<Rightarrow> TaskConsumer" where
  "NewTaskConsumer leader = \<lparr>statBatch = [], statusBatch = [], targetGroupBatch = [], isLeader = leader,
     stopCh_closed = False\<rparr>"

definition SetLeader :: "bool \<Rightarrow> TaskConsumer \<Rightarrow> TaskConsumer" where
  "SetLeader v c = c\<lparr>isLeader := v\<rparr>"

definition IsLeader :: "TaskConsumer \<Rightarrow> bool" where
  "IsLeader c = isLeader c"

text \<open>\<open>Stop\<close>: closing a closed channel would panic, hence the test.\<close>

definition Stop :: "TaskConsumer \<Rightarrow> TaskConsumer" where
  "Stop c = (if stopCh_closed c then c else c\<lparr>stopCh_closed := True\<rparr>)"

text \<open>One storage call: it is recorded, with success when the environment gives no error.\<close>

definition perform :: "(nat \<Rightarrow> goerr option) \<Rightarrow> call \<Rightarrow> trace \<Rightarrow> bool \<times> trace" where
  "perform env cl tr = (let ok = (env (length tr) = None) in (ok, tr @ [(cl, ok)]))"

definition flushStats :: "(nat \<Rightarrow> goerr option) \<Rightarrow> nat \<Rightarrow> TaskConsumer \<times> trace \<Rightarrow> TaskConsumer \<times> trace" where
  "flushStats env least = (\<lambda>(c, tr).
     if length (statBatch c) \<ge> least then
       (case perform env (CallSaveReports (statBatch c)) tr of
          (ok, tr) \<Rightarrow> (if ok then c\<lparr>statBatch := []\<rparr> else c, tr))
     else (c, tr))"

definition flushStatuses :: "(nat \<Rightarrow> goerr option) \<Rightarrow> nat \<Rightarrow> TaskConsumer \<times> trace \<Rightarrow> TaskConsumer \<times> trace" where
  "flushStatuses env least = (\<lambda>(c, tr).
     if length (statusBatch c) \<ge> least then
       (case perform env (CallUpdateTaskStatuses (statusBatch c)) tr of
          (ok, tr) \<Rightarrow> (if ok then c\<lparr>statusBatch := []\<rparr> else c, tr))
     else (c, tr))"

definition flushTargetGroups :: "(nat \<Rightarrow> goerr option) \<Rightarrow> nat \<Rightarrow> TaskConsumer \<times> trace \<Rightarrow> TaskConsumer \<times> trace" where
  "flushTargetGroups env least = (\<lambda>(c, tr).
     if length (targetGroupBatch c) \<ge> least then
       (case perform env (CallSaveOrUpdateTargetGroups (targetGroupBatch c)) tr of
          (ok, tr) \<Rightarrow> (if ok then c\<lparr>targetGroupBatch := []\<rparr> else c, tr))
     else (c, tr))"

text \<open>The three flushes, in the order of the source; \<open>least\<close> is the size that triggers one.\<close>

definition flushBatches :: "(nat \<Rightarrow> goerr option) \<Rightarrow> nat \<Rightarrow> TaskConsumer \<times> trace \<Rightarrow> TaskConsumer \<times> trace" where
  "flushBatches env least s = flushTargetGroups env least (flushStatuses env least (flushStats env least s))"

definition addResult :: "workerResult \<Rightarrow> TaskConsumer \<Rightarrow> TaskConsumer" where
  "addResult res c =
     (case wr_err res of
        Some e \<Rightarrow> c\<lparr>statusBatch := statusBatch c @ [\<lparr>tu_ID = wr_taskID res, tu_Status = TaskStatusError\<rparr>]\<rparr>
      | None \<Rightarrow>
          c\<lparr>statusBatch := statusBatch c @ [\<lparr>tu_ID = wr_taskID res, tu_Status = TaskStatusComplete\<rparr>],
            statBatch := statBatch c @ (case wr_stat res of None \<Rightarrow> [] | Some stat \<Rightarrow> [stat]),
            targetGroupBatch := targetGroupBatch c @ wr_targetGroups res\<rparr>)"

definition handleResult :: "(nat \<Rightarrow> goerr option) \<Rightarrow> workerResult \<Rightarrow> TaskConsumer \<times> trace \<Rightarrow> TaskConsumer \<times> trace" where
  "handleResult env res = (\<lambda>(c, tr). flushBatches env batchSizeLimit (addResult res c, tr))"

text \<open>A tick of the task timer; \<open>tasks\<close> is what \<open>GetScrapeTasks\<close> returns if it succeeds.\<close>

definition handleTaskTick :: "(nat \<Rightarrow> goerr option) \<Rightarrow> ScrapeTask list \<Rightarrow> TaskConsumer \<times> trace \<Rightarrow> TaskConsumer \<times> trace" where
  "handleTaskTick env tasks = (\<lambda>(c, tr).
     if isLeader c then (c, tr)
     else case perform env (CallGetScrapeTasks tasksPerRequest) tr of
       (ok, tr) \<Rightarrow> if \<not> ok then (c, tr) else (c, tr @ map (\<lambda>task. (CallSubmit task, True)) tasks))"

datatype event =
    CtxCancelled
  | StopSignal
  | Result workerResult
  | ResultsClosed
  | FlushTick
  | TaskTick "ScrapeTask list"
  | LeaderChange bool
  | StopCalled

text \<open>
  The loop, and after it the deferred flush. \<open>LeaderChange\<close> and \<open>StopCalled\<close> are calls of
  \<open>SetLeader\<close> and \<open>Stop\<close> by other goroutines between two iterations; the \<open>select\<close> takes
  \<open>StopSignal\<close> only when the channel has been closed. The deferred flush ends the lifetime of the
  batches, so the source does not clear them there; the model does, which makes the batches of
  a final state those that were not written.
\<close>

fun consumer_loop :: "(nat \<Rightarrow> goerr option) \<Rightarrow> event list \<Rightarrow> TaskConsumer \<times> trace \<Rightarrow> TaskConsumer \<times> trace" where
  "consumer_loop env [] s = s"
| "consumer_loop env (CtxCancelled # evs) s = flushBatches env 1 (case s of (c, tr) \<Rightarrow> (c, tr @ [(CallPoolStop, True)]))"
| "consumer_loop env (StopSignal # evs) s =
     (if stopCh_closed (fst s) then flushBatches env 1 (case s of (c, tr) \<Rightarrow> (c, tr @ [(CallPoolStop, True)]))
      else consumer_loop env evs s)"
| "consumer_loop env (ResultsClosed # evs) s = flushBatches env 1 s"
| "consumer_loop env (Result res # evs) s = consumer_loop env evs (handleResult env res s)"
| "consumer_loop env (FlushTick # evs) s = consumer_loop env evs (flushBatches env 1 s)"
| "consumer_loop env (TaskTick tasks # evs) s = consumer_loop env evs (handleTaskTick env tasks s)"
| "consumer_loop env (LeaderChange v # evs) s = consumer_loop env evs (case s of (c, tr) \<Rightarrow> (SetLeader v c, tr))"
| "consumer_loop env (StopCalled # evs) s = consumer_loop env evs (case s of (c, tr) \<Rightarrow> (Stop c, tr))"

section \<open>Nothing is lost, nothing is written twice\<close>

text \<open>What the storage has acknowledged, in order.\<close>

definition saved_reports :: "trace \<Rightarrow> Report list" where
  "saved_reports tr = concat (map (\<lambda>(cl, ok). case cl of CallSaveReports b \<Rightarrow> if ok then b else [] | _ \<Rightarrow> []) tr)"

definition saved_statuses :: "trace \<Rightarrow> TaskStatusUpdate list" where
  "saved_statuses tr = concat (map (\<lambda>(cl, ok). case cl of CallUpdateTaskStatuses b \<Rightarrow> if ok then b else [] | _ \<Rightarrow> []) tr)"

definition saved_groups :: "trace \<Rightarrow> TargetGroup list" where
  "saved_groups tr = concat (map (\<lambda>(cl, ok). case cl of CallSaveOrUpdateTargetGroups b \<Rightarrow> if ok then b else [] | _ \<Rightarrow> []) tr)"

lemmas saved_defs = saved_reports_def saved_statuses_def saved_groups_def

text \<open>The results the loop receives before it ends; the flag is whether \<open>Stop\<close> has been called.\<close>

fun received :: "bool \<Rightarrow> event list \<Rightarrow> workerResult list" where
  "received closed [] = []"
| "received closed (CtxCancelled # evs) = []"
| "received closed (StopSignal # evs) = (if closed then [] else received closed evs)"
| "received closed (ResultsClosed # evs) = []"
| "received closed (StopCalled # evs) = received True evs"
| "received closed (Result res # evs) = res # received closed evs"
| "received closed (_ # evs) = received closed evs"

definition reports_of :: "workerResult list \<Rightarrow> Report list" where
  "reports_of rs = concat (map (\<lambda>r. if wr_err r = None then (case wr_stat r of None \<Rightarrow> [] | Some st \<Rightarrow> [st]) else []) rs)"

definition statuses_of :: "workerResult list \<Rightarrow> TaskStatusUpdate list" where
  "statuses_of rs = map (\<lambda>r. \<lparr>tu_ID = wr_taskID r,
     tu_Status = (if wr_err r = None then TaskStatusComplete else TaskStatusError)\<rparr>) rs"

definition groups_of :: "workerResult list \<Rightarrow> TargetGroup list" where
  "groups_of rs = concat (map (\<lambda>r. if wr_err r = None then wr_targetGroups r else []) rs)"

text \<open>Everything of one kind that has come in: acknowledged, then waiting.\<close>

definition all_reports :: "TaskConsumer \<times> trace \<Rightarrow> Report list" where
  "all_reports s = saved_reports (snd s) @ statBatch (fst s)"

definition all_statuses :: "TaskConsumer \<times> trace \<Rightarrow> TaskStatusUpdate list" where
  "all_statuses s = saved_statuses (snd s) @ statusBatch (fst s)"

definition all_groups :: "TaskConsumer \<times> trace \<Rightarrow> TargetGroup list" where
  "all_groups s = saved_groups (snd s) @ targetGroupBatch (fst s)"

lemmas all_defs = all_reports_def all_statuses_def all_groups_def

lemma flushStats_keeps [simp]:
  "all_reports (flushStats env n s) = all_reports s" "all_statuses (flushStats env n s) = all_statuses s"
  "all_groups (flushStats env n s) = all_groups s"
  by (auto simp: all_defs saved_defs flushStats_def perform_def Let_def split: prod.splits)

lemma flushStatuses_keeps [simp]:
  "all_reports (flushStatuses env n s) = all_reports s" "all_statuses (flushStatuses env n s) = all_statuses s"
  "all_groups (flushStatuses env n s) = all_groups s"
  by (auto simp: all_defs saved_defs flushStatuses_def perform_def Let_def split: prod.splits)

lemma flushTargetGroups_keeps [simp]:
  "all_reports (flushTargetGroups env n s) = all_reports s" "all_statuses (flushTargetGroups env n s) = all_statuses s"
  "all_groups (flushTargetGroups env n s) = all_groups s"
  by (auto simp: all_defs saved_defs flushTargetGroups_def perform_def Let_def split: prod.splits)

lemma flushBatches_keeps [simp]:
  "all_reports (flushBatches env n s) = all_reports s" "all_statuses (flushBatches env n s) = all_statuses s"
  "all_groups (flushBatches env n s) = all_groups s"
  by (simp_all add: flushBatches_def)

lemma concat_map_Nil: "concat (map (\<lambda>x. []) xs) = []"
  by (induction xs) auto

lemma handleTaskTick_keeps [simp]:
  "all_reports (handleTaskTick env ts s) = all_reports s" "all_statuses (handleTaskTick env ts s) = all_statuses s"
  "all_groups (handleTaskTick env ts s) = all_groups s"
  by (auto simp: all_defs saved_defs handleTaskTick_def perform_def Let_def comp_def concat_map_Nil split: prod.splits)

lemma handleResult_adds:
  "all_reports (handleResult env r s) = all_reports s @ reports_of [r]"
  "all_statuses (handleResult env r s) = all_statuses s @ statuses_of [r]"
  "all_groups (handleResult env r s) = all_groups s @ groups_of [r]"
  by (cases s; simp add: handleResult_def, simp add: all_defs addResult_def reports_of_def statuses_of_def
      groups_of_def split: option.splits)+

lemma of_results_Cons:
  "reports_of (r # rs) = reports_of [r] @ reports_of rs"
  "statuses_of (r # rs) = statuses_of [r] @ statuses_of rs"
  "groups_of (r # rs) = groups_of [r] @ groups_of rs"
  by (simp_all add: reports_of_def statuses_of_def groups_of_def)

lemma other_calls_keep [simp]:
  "all_reports (c, tr @ [(CallPoolStop, True)]) = all_reports (c, tr)"
  "all_statuses (c, tr @ [(CallPoolStop, True)]) = all_statuses (c, tr)"
  "all_groups (c, tr @ [(CallPoolStop, True)]) = all_groups (c, tr)"
  "all_reports (SetLeader v c, tr) = all_reports (c, tr)" "all_statuses (SetLeader v c, tr) = all_statuses (c, tr)"
  "all_groups (SetLeader v c, tr) = all_groups (c, tr)"
  "all_reports (Stop c, tr) = all_reports (c, tr)" "all_statuses (Stop c, tr) = all_statuses (c, tr)"
  "all_groups (Stop c, tr) = all_groups (c, tr)"
  by (simp_all add: all_defs saved_defs SetLeader_def Stop_def)

lemma stopCh_closed_keeps [simp]:
  "stopCh_closed (fst (flushBatches env n s)) = stopCh_closed (fst s)"
  "stopCh_closed (fst (handleResult env r s)) = stopCh_closed (fst s)"
  "stopCh_closed (fst (handleTaskTick env ts s)) = stopCh_closed (fst s)"
  "stopCh_closed (SetLeader v c) = stopCh_closed c" "stopCh_closed (Stop c)"
  by (auto simp: flushBatches_def flushStats_def flushStatuses_def flushTargetGroups_def perform_def Let_def
      handleResult_def addResult_def handleTaskTick_def SetLeader_def Stop_def split: prod.splits option.splits)

lemma of_results_Nil [simp]: "reports_of [] = []" "statuses_of [] = []" "groups_of [] = []"
  by (simp_all add: reports_of_def statuses_of_def groups_of_def)

lemma consumer_loop_conserves:
  "all_reports (consumer_loop env evs s) = all_reports s @ reports_of (received (stopCh_closed (fst s)) evs)"
  "all_statuses (consumer_loop env evs s) = all_statuses s @ statuses_of (received (stopCh_closed (fst s)) evs)"
  "all_groups (consumer_loop env evs s) = all_groups s @ groups_of (received (stopCh_closed (fst s)) evs)"
  by (induction env evs s rule: consumer_loop.induct)
    (auto simp: handleResult_adds of_results_Cons [of _ "received _ _"] split: prod.splits)

text \<open>
  C6. The consumer neither loses nor repeats a result, however often the storage fails: after any
  sequence of events, what the storage has acknowledged followed by what still waits in the
  batches is exactly what the received results ask for, in order: one status per result, and the
  report and the target groups of each result without an error.
\<close>

theorem consumer_conserves_results:
  "case consumer_loop env evs (NewTaskConsumer leader, []) of (c, tr) \<Rightarrow>
     saved_reports tr @ statBatch c = reports_of (received False evs) \<and>
     saved_statuses tr @ statusBatch c = statuses_of (received False evs) \<and>
     saved_groups tr @ targetGroupBatch c = groups_of (received False evs)"
  using consumer_loop_conserves [of env evs "(NewTaskConsumer leader, [])"]
  by (auto simp: all_defs saved_defs NewTaskConsumer_def split: prod.splits)

end
