(* ===== verification/Worker_Pool.thy ===== *)
theory Worker_Pool
  imports Consumer "HOL-Library.Multiset"
begin

text \<open>
  The worker pool (\<open>internal/scraper/worker_pool.go\<close>) and the consumer that feeds and drains it,
  as they interleave. One \<open>action\<close> is one communication or one internal step of a goroutine; a
  state's possible next states are those of its enabled actions.

  The channel \<open>jobs\<close> is unbuffered, so a submission is a rendezvous with an idle worker. The
  channel \<open>results\<close> holds as many results as there are workers. The consumer is one goroutine: it
  receives results only while it is not inside the loop that submits tasks.

  \<open>pl_taken\<close>, \<open>pl_received\<close> and \<open>pl_dropped\<close> are history: every task the consumer got, every
  result it has received, and every task given up because the context was cancelled.

  \<open>Stop\<close> is two actions: \<open>StopPool\<close> cancels the context and closes \<open>jobs\<close>, \<open>StopReturns\<close> is the end
  of \<open>wg.Wait\<close>, possible when every worker has returned, and the closing of \<open>results\<close>. A worker that
  finds \<open>jobs\<close> closed also finds the context cancelled, so both ways out are \<open>WorkerExit\<close>.
\<close>

section \<open>States and actions\<close>

datatype worker = Idle | Busy ScrapeTask | Holding workerResult | Exited

record WorkerPool =
  pl_cancelled :: bool
  pl_stopped :: bool
  pl_closed :: bool
  pl_workers :: "worker list"
  pl_results :: "workerResult list"
  pl_submitting :: "ScrapeTask list"
  pl_taken :: "int list"
  pl_received :: "int list"
  pl_dropped :: "int list"

definition NewWorkerPool :: "nat \<Rightarrow> WorkerPool" where
  "NewWorkerPool workers =
     \<lparr>pl_cancelled = False, pl_stopped = False, pl_closed = False, pl_workers = replicate workers Idle, pl_results = [],
      pl_submitting = [], pl_taken = [], pl_received = [], pl_dropped = []\<rparr>"

text \<open>The result a worker makes of a task.\<close>

definition process_task :: "Processor \<Rightarrow> ScrapeTask \<Rightarrow> workerResult" where
  "process_task p task =
     (case Process p task of
        Inl e \<Rightarrow> \<lparr>wr_taskID = st_ID task, wr_stat = None, wr_targetGroups = [], wr_err = Some e\<rparr>
      | Inr (stat, groups) \<Rightarrow>
          \<lparr>wr_taskID = st_ID task, wr_stat = Some stat, wr_targetGroups = groups, wr_err = None\<rparr>)"

datatype action =
    GetTasks "ScrapeTask list"
  | Submit nat
  | SubmitCancelled
  | WorkOn nat
  | Deliver nat
  | DeliverCancelled nat
  | WorkerExit nat
  | Receive
  | CancelParent
  | StopPool
  | StopReturns

definition worker_at :: "WorkerPool \<Rightarrow> nat \<Rightarrow> worker option" where
  "worker_at s i = (if i < length (pl_workers s) then Some (pl_workers s ! i) else None)"

definition set_worker :: "nat \<Rightarrow> worker \<Rightarrow> WorkerPool \<Rightarrow> WorkerPool" where
  "set_worker i w s = s\<lparr>pl_workers := (pl_workers s)[i := w]\<rparr>"

text \<open>The consumer's loop is at its \<open>select\<close>.\<close>

definition selecting :: "WorkerPool \<Rightarrow> bool" where
  "selecting s \<longleftrightarrow> pl_submitting s = [] \<and> \<not> pl_stopped s"

fun act :: "Processor \<Rightarrow> action \<Rightarrow> WorkerPool \<Rightarrow> WorkerPool option" where
  "act p (GetTasks tasks) s =
     (if selecting s \<and> int (length tasks) \<le> tasksPerRequest
      then Some (s\<lparr>pl_submitting := tasks, pl_taken := pl_taken s @ map st_ID tasks\<rparr>) else None)"
| "act p (Submit i) s =
     (case pl_submitting s of
        task # rest \<Rightarrow> if worker_at s i = Some Idle
                       then Some (set_worker i (Busy task) (s\<lparr>pl_submitting := rest\<rparr>)) else None
      | [] \<Rightarrow> None)"
| "act p SubmitCancelled s =
     (case pl_submitting s of
        task # rest \<Rightarrow> if pl_cancelled s
                       then Some (s\<lparr>pl_submitting := rest, pl_dropped := pl_dropped s @ [st_ID task]\<rparr>) else None
      | [] \<Rightarrow> None)"
| "act p (WorkOn i) s =
     (case worker_at s i of Some (Busy task) \<Rightarrow> Some (set_worker i (Holding (process_task p task)) s) | _ \<Rightarrow> None)"
| "act p (Deliver i) s =
     (case worker_at s i of
        Some (Holding res) \<Rightarrow> if length (pl_results s) < length (pl_workers s)
                              then Some (set_worker i Idle (s\<lparr>pl_results := pl_results s @ [res]\<rparr>)) else None
      | _ \<Rightarrow> None)"
| "act p (DeliverCancelled i) s =
     (case worker_at s i of
        Some (Holding res) \<Rightarrow> if pl_cancelled s
                              then Some (set_worker i Exited (s\<lparr>pl_dropped := pl_dropped s @ [wr_taskID res]\<rparr>)) else None
      | _ \<Rightarrow> None)"
| "act p (WorkerExit i) s =
     (if worker_at s i = Some Idle \<and> pl_cancelled s then Some (set_worker i Exited s) else None)"
| "act p Receive s =
     (case pl_results s of
        res # rest \<Rightarrow> if selecting s
                      then Some (s\<lparr>pl_results := rest, pl_received := pl_received s @ [wr_taskID res]\<rparr>) else None
      | [] \<Rightarrow> None)"
| "act p CancelParent s = (if pl_cancelled s then None else Some (s\<lparr>pl_cancelled := True\<rparr>))"
| "act p StopPool s = (if selecting s then Some (s\<lparr>pl_cancelled := True, pl_stopped := True\<rparr>) else None)"
| "act p StopReturns s =
     (if pl_stopped s \<and> \<not> pl_closed s \<and> list_all (\<lambda>w. w = Exited) (pl_workers s)
      then Some (s\<lparr>pl_closed := True\<rparr>) else None)"

inductive pool_step :: "Processor \<Rightarrow> WorkerPool \<Rightarrow> WorkerPool \<Rightarrow> bool" for p where
  step: "act p a s = Some s' \<Longrightarrow> pool_step p s s'"

inductive reachable :: "Processor \<Rightarrow> nat \<Rightarrow> WorkerPool \<Rightarrow> bool" for p n where
  init: "reachable p n (NewWorkerPool n)"
| next_step: "reachable p n s \<Longrightarrow> pool_step p s s' \<Longrightarrow> reachable p n s'"

inductive_cases pool_stepE: "pool_step p s s'"

fun perform_all :: "Processor \<Rightarrow> action list \<Rightarrow> WorkerPool \<Rightarrow> WorkerPool option" where
  "perform_all p [] s = Some s"
| "perform_all p (a # as) s = (case act p a s of None \<Rightarrow> None | Some s' \<Rightarrow> perform_all p as s')"

lemma perform_all_reachable: "reachable p n s \<Longrightarrow> perform_all p as s = Some s' \<Longrightarrow> reachable p n s'"
proof (induction as arbitrary: s)
  case (Cons a as)
  then obtain s1 where s1: "act p a s = Some s1" "perform_all p as s1 = Some s'" by (auto split: option.splits)
  with Cons.prems(1) have "reachable p n s1" by (blast intro: next_step pool_step.intros)
  with s1 Cons.IH show ?case by blast
qed simp

section \<open>No task is lost\<close>

fun worker_ids :: "worker \<Rightarrow> int multiset" where
  "worker_ids (Busy task) = {#st_ID task#}"
| "worker_ids (Holding res) = {#wr_taskID res#}"
| "worker_ids _ = {#}"

text \<open>The tasks on their way: to a worker, in a worker, in the channel.\<close>

definition in_flight :: "WorkerPool \<Rightarrow> int multiset" where
  "in_flight s = mset (map st_ID (pl_submitting s)) + sum_list (map worker_ids (pl_workers s)) +
     mset (map wr_taskID (pl_results s))"

definition pool_ok :: "nat \<Rightarrow> WorkerPool \<Rightarrow> bool" where
  "pool_ok n s \<longleftrightarrow>
     length (pl_workers s) = n \<and> length (pl_results s) \<le> n \<and>
     mset (pl_taken s) = in_flight s + mset (pl_received s) + mset (pl_dropped s) \<and>
     (pl_cancelled s \<or> (pl_dropped s = [] \<and> list_all (\<lambda>w. w \<noteq> Exited) (pl_workers s)))"

lemma wr_taskID_process [simp]: "wr_taskID (process_task p task) = st_ID task"
  by (simp add: process_task_def split: sum.splits)

lemma sum_workers_update:
  "i < length ws \<Longrightarrow> sum_list (map worker_ids (ws[i := w])) + worker_ids (ws ! i) = sum_list (map worker_ids ws) + worker_ids w"
proof (induction ws arbitrary: i)
  case (Cons x ws)
  show ?case
  proof (cases i)
    case (Suc j)
    with Cons show ?thesis by (simp add: add.assoc add.left_commute)
  qed (simp add: add.commute)
qed simp

lemma workers_update:
  assumes "worker_at s i = Some v"
  shows "sum_list (map worker_ids ((pl_workers s)[i := w])) + worker_ids v = sum_list (map worker_ids (pl_workers s)) + worker_ids w"
    and "i < length (pl_workers s)" "pl_workers s ! i = v"
  using assms sum_workers_update [of i "pl_workers s" w] by (auto simp: worker_at_def split: if_splits)

lemma list_all_update: "list_all P ws \<Longrightarrow> P w \<Longrightarrow> list_all P (ws[i := w])"
  by (auto simp: list_all_iff dest!: set_update_subset_insert [THEN subsetD])

lemma act_ok:
  assumes "pool_ok n s" and "act p a s = Some s'"
  shows "pool_ok n s'"
proof (cases a)
  case (GetTasks tasks)
  with assms show ?thesis
    by (auto simp: pool_ok_def in_flight_def selecting_def split: if_splits)
next
  case (Submit i)
  then obtain task rest where t: "pl_submitting s = task # rest" "worker_at s i = Some Idle"
    "s' = set_worker i (Busy task) (s\<lparr>pl_submitting := rest\<rparr>)"
    using assms(2) by (auto split: list.splits if_splits)
  with workers_update(1) [OF t(2), of "Busy task"] assms(1) show ?thesis
    by (auto simp: pool_ok_def in_flight_def set_worker_def list_all_update)
next
  case SubmitCancelled
  then show ?thesis using assms by (auto simp: pool_ok_def in_flight_def split: list.splits if_splits)
next
  case (WorkOn i)
  then obtain task where t: "worker_at s i = Some (Busy task)" "s' = set_worker i (Holding (process_task p task)) s"
    using assms(2) by (auto split: option.splits worker.splits)
  with workers_update(1) [OF t(1), of "Holding (process_task p task)"] assms(1) show ?thesis
    by (auto simp: pool_ok_def in_flight_def set_worker_def list_all_update)
next
  case (Deliver i)
  then obtain res where t: "worker_at s i = Some (Holding res)" "length (pl_results s) < length (pl_workers s)"
    "s' = set_worker i Idle (s\<lparr>pl_results := pl_results s @ [res]\<rparr>)"
    using assms(2) by (auto split: option.splits worker.splits if_splits)
  with workers_update(1) [OF t(1), of Idle] assms(1) show ?thesis
    by (auto simp: pool_ok_def in_flight_def set_worker_def list_all_update)
next
  case (DeliverCancelled i)
  then obtain res where t: "worker_at s i = Some (Holding res)" "pl_cancelled s"
    "s' = set_worker i Exited (s\<lparr>pl_dropped := pl_dropped s @ [wr_taskID res]\<rparr>)"
    using assms(2) by (auto split: option.splits worker.splits if_splits)
  with workers_update(1) [OF t(1), of Exited] assms(1) show ?thesis
    by (auto simp: pool_ok_def in_flight_def set_worker_def)
next
  case (WorkerExit i)
  then have t: "worker_at s i = Some Idle" "pl_cancelled s" "s' = set_worker i Exited s"
    using assms(2) by (auto split: if_splits)
  with workers_update(1) [OF t(1), of Exited] assms(1) show ?thesis
    by (auto simp: pool_ok_def in_flight_def set_worker_def)
next
  case Receive
  then show ?thesis using assms by (auto simp: pool_ok_def in_flight_def split: list.splits if_splits)
next
  case CancelParent
  then show ?thesis using assms by (auto simp: pool_ok_def in_flight_def split: if_splits)
next
  case StopPool
  then show ?thesis using assms by (auto simp: pool_ok_def in_flight_def split: if_splits)
next
  case StopReturns
  then show ?thesis using assms by (auto simp: pool_ok_def in_flight_def split: if_splits)
qed

lemma reachable_ok: "reachable p n s \<Longrightarrow> pool_ok n s"
proof (induction rule: reachable.induct)
  case init
  have "sum_list (map worker_ids (replicate n Idle)) = {#}" by (induction n) auto
  then show ?case by (simp add: pool_ok_def NewWorkerPool_def in_flight_def list_all_iff)
next
  case (next_step s s')
  then show ?case by (auto elim!: pool_stepE intro: act_ok)
qed

text \<open>
  C23. In every interleaving the pool keeps its tasks: each task the consumer took is exactly once
  on its way (being submitted, in a worker, in the results channel), received, or given up; and
  none is given up, and no worker leaves, while the context is not cancelled. The results channel
  never holds more than one result per worker.
\<close>

theorem pool_conserves_tasks:
  assumes "reachable p n s"
  shows "mset (pl_taken s) = in_flight s + mset (pl_received s) + mset (pl_dropped s) \<and>
     length (pl_results s) \<le> n \<and> length (pl_workers s) = n \<and>
     (pl_cancelled s \<or> (pl_dropped s = [] \<and> list_all (\<lambda>w. w \<noteq> Exited) (pl_workers s)))"
  using reachable_ok [OF assms] by (simp add: pool_ok_def)

text \<open>A processor whose client never answers, and a pool of one worker with one task in it.\<close>

definition failing_processor :: Processor where
  "failing_processor = \<lparr>p_client = (\<lambda>_. Inl (ErrNew ''timeout'')), p_defaultLimits = \<lparr>MaxMetricNameLen = 1, MaxLabelNameLen = 1,
     MaxLabelValueLen = 1, MaxMetricCardinality = 1, MaxHistogramBuckets = 1, MaxBytesWeight = 1\<rparr>,
     p_limitsProvider = None, p_whitelistProvider = None\<rparr>"

definition one_task_pool :: WorkerPool where
  "one_task_pool = set_worker 0 (Busy (sample_task 1)) ((NewWorkerPool 1)\<lparr>pl_taken := [1]\<rparr>)"

lemma one_task_run:
  "perform_all failing_processor [GetTasks [sample_task 1], Submit 0] (NewWorkerPool 1) = Some one_task_pool"
  by (simp add: NewWorkerPool_def selecting_def tasksPerRequest_def worker_at_def set_worker_def one_task_pool_def sample_task_def)

lemma one_task_reachable: "reachable failing_processor 1 one_task_pool"
  by (rule perform_all_reachable [OF reachable.init one_task_run])

theorem pool_conserves_tasks_witness:
  "reachable failing_processor 1 one_task_pool \<and>
   mset [1] = in_flight one_task_pool + mset (pl_received one_task_pool) + mset (pl_dropped one_task_pool)"
  using pool_conserves_tasks [OF one_task_reachable] one_task_reachable
  by (simp add: one_task_pool_def set_worker_def)

section \<open>Progress and its limit\<close>

text \<open>An action that moves a task on; the others bring in work or shut the pool down.\<close>

fun moves :: "action \<Rightarrow> bool" where
  "moves (Submit i) = True"
| "moves (WorkOn i) = True"
| "moves (Deliver i) = True"
| "moves Receive = True"
| "moves _ = False"

definition can_move :: "Processor \<Rightarrow> WorkerPool \<Rightarrow> bool" where
  "can_move p s \<longleftrightarrow> (\<exists>a. moves a \<and> act p a s \<noteq> None)"

lemma can_moveI: "moves a \<Longrightarrow> act p a s = Some s' \<Longrightarrow> can_move p s"
  by (auto simp: can_move_def)

lemma busy_can_move:
  assumes "i < length (pl_workers s)" and "pl_workers s ! i = Busy task"
  shows "can_move p s"
  using assms by (intro can_moveI [of "WorkOn i"]) (auto simp: worker_at_def)

lemma holding_can_move:
  assumes "i < length (pl_workers s)" and "pl_workers s ! i = Holding res" and "length (pl_results s) < length (pl_workers s)"
  shows "can_move p s"
  using assms by (intro can_moveI [of "Deliver i"]) (auto simp: worker_at_def)

lemma results_can_move:
  assumes "pl_results s \<noteq> []" and "selecting s"
  shows "can_move p s"
  using assms by (cases "pl_results s") (auto intro!: can_moveI [of Receive])

lemma some_worker_loaded: "sum_list (map worker_ids ws) \<noteq> {#} \<Longrightarrow> \<exists>w \<in> set ws. worker_ids w \<noteq> {#}"
  by (induction ws) auto

text \<open>
  While the consumer is at its \<open>select\<close>, the pool cannot get stuck: as long as a task is on its
  way, some worker can go on or some result can be received.
\<close>

lemma pool_progress:
  assumes "reachable p n s" and "selecting s" and "in_flight s \<noteq> {#}"
  shows "can_move p s"
proof (cases "pl_results s = []")
  case False
  with assms(2) show ?thesis by (intro results_can_move)
next
  case True
  with assms(2,3) have "sum_list (map worker_ids (pl_workers s)) \<noteq> {#}"
    by (simp add: in_flight_def selecting_def)
  then obtain w where w: "w \<in> set (pl_workers s)" "worker_ids w \<noteq> {#}"
    using some_worker_loaded by blast
  then obtain i where i: "i < length (pl_workers s)" "pl_workers s ! i = w" by (auto simp: in_set_conv_nth)
  show ?thesis
  proof (cases w)
    case (Busy task)
    with i show ?thesis by (intro busy_can_move) auto
  next
    case (Holding res)
    with i True show ?thesis by (intro holding_can_move) auto
  qed (use w in auto)
qed

text \<open>
  The consumer submits in the same goroutine that receives, so it can block on its own workers.
  The pool of \<open>cmd/main.go\<close> has five workers: the first ten tasks are submitted while five
  results fill the channel, each worker then holds a second result, and the next tick, if it is
  taken before a result is received, finds no worker idle.
\<close>

definition pool_workers :: nat where "pool_workers = 5"

definition blocking_schedule :: "ScrapeTask list \<Rightarrow> ScrapeTask list \<Rightarrow> action list" where
  "blocking_schedule tasks extra =
     GetTasks tasks #
     concat (map (\<lambda>i. [Submit i, WorkOn i, Deliver i]) [0, 1, 2, 3, 4]) @
     concat (map (\<lambda>i. [Submit i, WorkOn i]) [0, 1, 2, 3, 4]) @ [GetTasks extra]"

definition blocked :: "Processor \<Rightarrow> WorkerPool \<Rightarrow> bool" where
  "blocked p s \<longleftrightarrow> (\<forall>a s'. act p a s = Some s' \<longrightarrow> a = CancelParent)"

lemma blocked_full:
  assumes "pl_submitting s \<noteq> []" and "\<not> pl_stopped s" and "\<not> pl_cancelled s" and "length (pl_results s) = length (pl_workers s)"
    and "\<forall>w \<in> set (pl_workers s). \<exists>res. w = Holding res"
  shows "blocked p s"
  unfolding blocked_def
proof (intro allI impI)
  fix a s' assume a: "act p a s = Some s'"
  have hold: "worker_at s i = None \<or> (\<exists>res. worker_at s i = Some (Holding res))" for i
    using assms(5) by (auto simp: worker_at_def)
  show "a = CancelParent"
  proof (cases a)
    case (Submit i)
    with a hold [of i] show ?thesis by (auto split: list.splits if_splits)
  next
    case (WorkOn i)
    with a hold [of i] show ?thesis by (auto split: option.splits worker.splits)
  next
    case (Deliver i)
    with a assms(4) show ?thesis by (auto split: option.splits worker.splits if_splits)
  next
    case (DeliverCancelled i)
    with a assms(3) show ?thesis by (auto split: option.splits worker.splits if_splits)
  next
    case (WorkerExit i)
    with a assms(3) show ?thesis by (auto split: if_splits)
  qed (use a assms(1,2,3) in \<open>auto simp: selecting_def split: list.splits if_splits\<close>)
qed

text \<open>
  C7. The consumer can block for good: with the program's five workers, whatever the tasks are and
  however they end, a state is reachable in which tasks are being submitted, five results wait in
  the channel and five in the workers, and nothing but a cancellation of the context can happen.
\<close>

theorem pool_can_block:
  assumes "length tasks = 10" and "length extra = 1"
  shows "\<exists>s. perform_all p (blocking_schedule tasks extra) (NewWorkerPool pool_workers) = Some s \<and>
     reachable p pool_workers s \<and> blocked p s \<and> \<not> pl_cancelled s \<and> size (in_flight s) = 11"
proof -
  obtain t0 t1 t2 t3 t4 t5 t6 t7 t8 t9 m where tasks: "tasks = [t0, t1, t2, t3, t4, t5, t6, t7, t8, t9]" "extra = [m]"
    using assms by (auto simp: numeral_eq_Suc length_Suc_conv)
  let ?r = "process_task p"
  define s where "s = \<lparr>pl_cancelled = False, pl_stopped = False, pl_closed = False,
    pl_workers = map (\<lambda>t. Holding (?r t)) [t5, t6, t7, t8, t9], pl_results = map ?r [t0, t1, t2, t3, t4],
    pl_submitting = [m], pl_taken = map st_ID (tasks @ extra), pl_received = [], pl_dropped = []\<rparr>"
  have run: "perform_all p (blocking_schedule tasks extra) (NewWorkerPool pool_workers) = Some s"
    by (simp add: blocking_schedule_def NewWorkerPool_def pool_workers_def tasks selecting_def tasksPerRequest_def
        worker_at_def set_worker_def s_def numeral_eq_Suc)
  moreover have "blocked p s" by (rule blocked_full) (auto simp: s_def)
  moreover have "reachable p pool_workers s" using perform_all_reachable [OF reachable.init run] .
  moreover have "\<not> pl_cancelled s" "size (in_flight s) = 11" by (simp_all add: s_def in_flight_def)
  ultimately show ?thesis by blast
qed

theorem pool_can_block_witness:
  "\<exists>s. perform_all failing_processor (blocking_schedule (map sample_task [1..10]) [sample_task 11]) (NewWorkerPool pool_workers) = Some s \<and>
     reachable failing_processor pool_workers s \<and> blocked failing_processor s \<and> \<not> pl_cancelled s \<and> size (in_flight s) = 11"
  by (rule pool_can_block) simp_all

section \<open>Stopping\<close>

text \<open>
  How many more actions a stopped pool can make: a busy worker has three steps to its exit, one
  that holds a result two, an idle one one; the last action is the return of \<open>Stop\<close>.
\<close>

fun worker_steps :: "worker \<Rightarrow> nat" where
  "worker_steps (Busy task) = 3"
| "worker_steps (Holding res) = 2"
| "worker_steps Idle = 1"
| "worker_steps Exited = 0"

definition stop_steps :: "WorkerPool \<Rightarrow> nat" where
  "stop_steps s = sum_list (map worker_steps (pl_workers s)) + (if pl_closed s then 0 else 1)"

definition stopping :: "WorkerPool \<Rightarrow> bool" where
  "stopping s \<longleftrightarrow> pl_stopped s \<and> pl_cancelled s \<and> pl_submitting s = []"

lemma steps_update:
  "i < length ws \<Longrightarrow> sum_list (map worker_steps (ws[i := w])) + worker_steps (ws ! i) = sum_list (map worker_steps ws) + worker_steps w"
proof (induction ws arbitrary: i)
  case (Cons x ws)
  then show ?case by (cases i) (auto simp: add.left_commute)
qed simp

lemma set_worker_steps:
  assumes "worker_at s i = Some v" and "worker_steps w < worker_steps v"
  shows "stop_steps (set_worker i w s) < stop_steps s"
  using assms steps_update [of i "pl_workers s" w]
  by (auto simp: stop_steps_def set_worker_def worker_at_def split: if_splits)

lemma set_worker_fields [simp]:
  "pl_stopped (set_worker i w s) = pl_stopped s" "pl_cancelled (set_worker i w s) = pl_cancelled s"
  "pl_submitting (set_worker i w s) = pl_submitting s"
  by (simp_all add: set_worker_def)

lemma other_fields [simp]:
  "stop_steps (s\<lparr>pl_results := rs\<rparr>) = stop_steps s" "stop_steps (s\<lparr>pl_dropped := ds\<rparr>) = stop_steps s"
  "worker_at (s\<lparr>pl_results := rs\<rparr>) i = worker_at s i" "worker_at (s\<lparr>pl_dropped := ds\<rparr>) i = worker_at s i"
  by (simp_all add: stop_steps_def worker_at_def)

lemma stopping_step:
  assumes "stopping s" and "act p a s = Some s'"
  shows "stopping s' \<and> stop_steps s' < stop_steps s"
proof (cases a)
  case (WorkOn i)
  then obtain task where t: "worker_at s i = Some (Busy task)" "s' = set_worker i (Holding (process_task p task)) s"
    using assms(2) by (auto split: option.splits worker.splits)
  with assms(1) show ?thesis by (auto simp: stopping_def intro: set_worker_steps)
next
  case (Deliver i)
  then obtain res where t: "worker_at s i = Some (Holding res)" "s' = set_worker i Idle (s\<lparr>pl_results := pl_results s @ [res]\<rparr>)"
    using assms(2) by (auto split: option.splits worker.splits if_splits)
  have "stop_steps s' < stop_steps (s\<lparr>pl_results := pl_results s @ [res]\<rparr>)"
    unfolding t(2) by (rule set_worker_steps [of _ _ "Holding res"]) (simp_all add: t(1))
  with t assms(1) show ?thesis by (simp add: stopping_def)
next
  case (DeliverCancelled i)
  then obtain res where t: "worker_at s i = Some (Holding res)" "s' = set_worker i Exited (s\<lparr>pl_dropped := pl_dropped s @ [wr_taskID res]\<rparr>)"
    using assms(2) by (auto split: option.splits worker.splits if_splits)
  have "stop_steps s' < stop_steps (s\<lparr>pl_dropped := pl_dropped s @ [wr_taskID res]\<rparr>)"
    unfolding t(2) by (rule set_worker_steps [of _ _ "Holding res"]) (simp_all add: t(1))
  with t assms(1) show ?thesis by (simp add: stopping_def)
next
  case (WorkerExit i)
  then have t: "worker_at s i = Some Idle" "s' = set_worker i Exited s"
    using assms(2) by (auto split: if_splits)
  with assms(1) show ?thesis by (auto simp: stopping_def intro: set_worker_steps)
next
  case StopReturns
  with assms show ?thesis by (auto simp: stopping_def stop_steps_def split: if_splits)
qed (use assms in \<open>auto simp: stopping_def selecting_def split: list.splits if_splits\<close>)

lemma stopping_enabled:
  assumes "stopping s" and "\<not> pl_closed s"
  shows "\<exists>a. act p a s \<noteq> None"
proof (cases "list_all (\<lambda>w. w = Exited) (pl_workers s)")
  case True
  with assms have "act p StopReturns s \<noteq> None" by (simp add: stopping_def)
  then show ?thesis by blast
next
  case False
  then obtain i where i: "i < length (pl_workers s)" "pl_workers s ! i \<noteq> Exited" by (auto simp: list_all_length)
  have "act p (WorkOn i) s \<noteq> None \<or> act p (DeliverCancelled i) s \<noteq> None \<or> act p (WorkerExit i) s \<noteq> None"
    using i assms by (cases "pl_workers s ! i") (auto simp: worker_at_def stopping_def)
  then show ?thesis by blast
qed

lemma reachable_stopped: "reachable p n s \<Longrightarrow> pl_stopped s \<Longrightarrow> stopping s"
proof (induction rule: reachable.induct)
  case init
  then show ?case by (simp add: NewWorkerPool_def)
next
  case (next_step s s')
  from \<open>pool_step p s s'\<close> obtain a where a: "act p a s = Some s'" by (auto elim: pool_stepE)
  show ?case
  proof (cases "pl_stopped s")
    case True
    with next_step.IH stopping_step [OF _ a] show ?thesis by blast
  next
    case False
    with a \<open>pl_stopped s'\<close> show ?thesis
      by (cases a) (auto simp: stopping_def selecting_def split: list.splits option.splits worker.splits if_splits)
  qed
qed

lemma stopping_run:
  "stopping s \<Longrightarrow> perform_all p as s = Some s' \<Longrightarrow> stopping s' \<and> length as + stop_steps s' \<le> stop_steps s"
proof (induction as arbitrary: s)
  case (Cons a as)
  then obtain s1 where s1: "act p a s = Some s1" "perform_all p as s1 = Some s'" by (auto split: option.splits)
  with Cons.IH [of s1] Cons.prems(1) stopping_step [OF Cons.prems(1) s1(1)] show ?case by auto
qed simp

text \<open>
  C24. \<open>Stop\<close> returns. From any reachable state in which the pool has been stopped, every
  interleaving is finite, of at most three actions per worker and one more, and it can only end
  with the results channel closed.
\<close>

theorem pool_stop_returns:
  assumes "reachable p n s" and "pl_stopped s" and "perform_all p as s = Some s'"
  shows "length as \<le> 3 * n + 1 \<and> (pl_closed s' \<or> (\<exists>a. act p a s' \<noteq> None))"
proof -
  have st: "stopping s" using reachable_stopped assms(1,2) by blast
  have bound: "sum_list (map worker_steps ws) \<le> 3 * length ws" for ws
  proof (induction ws)
    case (Cons w ws)
    then show ?case by (cases w) auto
  qed simp
  have "length (pl_workers s) = n" using reachable_ok [OF assms(1)] by (simp add: pool_ok_def)
  with bound [of "pl_workers s"] have "stop_steps s \<le> 3 * n + 1" by (simp add: stop_steps_def)
  with stopping_run [OF st assms(3)] have "length as \<le> 3 * n + 1" "stopping s'" by auto
  with stopping_enabled [of s' p] show ?thesis by blast
qed

definition stopped_pool :: WorkerPool where
  "stopped_pool = one_task_pool\<lparr>pl_cancelled := True, pl_stopped := True\<rparr>"

theorem pool_stop_returns_witness:
  "reachable failing_processor 1 stopped_pool \<and>
   (\<exists>s'. perform_all failing_processor [WorkOn 0, DeliverCancelled 0, StopReturns] stopped_pool = Some s' \<and>
     length [WorkOn 0, DeliverCancelled 0, StopReturns] \<le> 3 * 1 + 1 \<and> (pl_closed s' \<or> (\<exists>a. act failing_processor a s' \<noteq> None)))"
proof -
  have "act failing_processor StopPool one_task_pool = Some stopped_pool"
    by (simp add: stopped_pool_def one_task_pool_def set_worker_def NewWorkerPool_def selecting_def)
  then have r: "reachable failing_processor 1 stopped_pool"
    using one_task_reachable by (blast intro: next_step pool_step.intros)
  obtain s' where run: "perform_all failing_processor [WorkOn 0, DeliverCancelled 0, StopReturns] stopped_pool = Some s'"
    by (simp add: stopped_pool_def one_task_pool_def set_worker_def NewWorkerPool_def worker_at_def)
  have "pl_stopped stopped_pool" by (simp add: stopped_pool_def)
  from pool_stop_returns [OF r this run] r run show ?thesis by blast
qed

end
