(* ===== verification/Cluster.thy ===== *)
theory Cluster
  imports Worker_Pool Target_Groups
begin

text \<open>
  Several nodes on one database: the producer of the leader (\<open>scrapetask/producer_job.go\<close>), the
  consumers with their worker pools (\<open>scraper/task_consumer.go\<close>, \<open>worker_pool.go\<close>) and the statements
  of the storage (\<open>storage/postgres\<close>), composed as a step relation over all interleavings.

  A step is one statement or one transaction, so everything that can happen between two storage
  calls of a node can happen between two steps. Every storage call may fail, with or without effect; a
  node may give up tasks, as a pool that is stopped does, and it may crash and start again with
  nothing. The steps allow more than the loop of the consumer does: a batch may be flushed at any time,
  a result may come in at any time.

  \<open>cl_handed\<close> and \<open>cl_done\<close> record what happened, for the statements: every task that
  \<open>GetScrapeTasks\<close> returned to a node, and every task whose result a consumer received, with the
  processor that ran it (its limits and whitelists change over time).
\<close>

section \<open>The system\<close>

record ScraperNode =
  sn_consumer :: "TaskConsumer \<times> trace"
  sn_pool :: "ScrapeTask list"

record Cluster =
  cl_db :: DB
  cl_nodes :: "ScraperNode list"
  cl_handed :: "ScrapeTask list"
  cl_done :: "(ScrapeTask \<times> Processor) list"

definition startNode :: "bool \<Rightarrow> ScraperNode" where
  "startNode leader = \<lparr>sn_consumer = (NewTaskConsumer leader, []), sn_pool = []\<rparr>"

definition set_node :: "nat \<Rightarrow> ScraperNode \<Rightarrow> Cluster \<Rightarrow> Cluster" where
  "set_node i n s = s\<lparr>cl_nodes := (cl_nodes s)[i := n]\<rparr>"

text \<open>How a storage call that ends with \<open>r\<close> looks to the consumer.\<close>

definition failure :: "'a result \<Rightarrow> nat \<Rightarrow> goerr option" where
  "failure r = (\<lambda>_. case r of Inl e \<Rightarrow> Some e | Inr _ \<Rightarrow> None)"

definition taken :: "ScrapeTask list result \<Rightarrow> ScrapeTask list" where
  "taken r = (case r of Inl _ \<Rightarrow> [] | Inr tasks \<Rightarrow> tasks)"

definition sent_batch :: "('a \<Rightarrow> DB \<Rightarrow> DB) \<Rightarrow> 'a list \<Rightarrow> bool \<Rightarrow> DB \<Rightarrow> DB" where
  "sent_batch save batch applied db =
     (if applied then apply_batch save batch db else rollback db (apply_batch save batch db))"

inductive cluster_step :: "Cluster \<Rightarrow> Cluster \<Rightarrow> bool" where
  cleanup:
    "exec lk (cleanupScrapeTasks before) (cl_db s) = (r, db) \<Longrightarrow> cluster_step s (s\<lparr>cl_db := db\<rparr>)"
| produce:
    "list_all (\<lambda>t. st_Status t = TaskStatusPending) batch \<Longrightarrow> sendBatch attempts (length batch) 0 = Some (err, applied) \<Longrightarrow>
     cluster_step s (s\<lparr>cl_db := sent_batch saveScrapeTask batch applied (cl_db s)\<rparr>)"
| tick:
    "i < length (cl_nodes s) \<Longrightarrow> n = cl_nodes s ! i \<Longrightarrow> \<not> IsLeader (fst (sn_consumer n)) \<Longrightarrow>
     GetScrapeTasks lk locked rank tasksPerRequest (cl_db s) = (r, db) \<Longrightarrow>
     cluster_step s (set_node i
       (n\<lparr>sn_consumer := handleTaskTick (failure r) (taken r) (sn_consumer n), sn_pool := sn_pool n @ taken r\<rparr>)
       (s\<lparr>cl_db := db, cl_handed := cl_handed s @ taken r\<rparr>))"
| receive:
    "i < length (cl_nodes s) \<Longrightarrow> n = cl_nodes s ! i \<Longrightarrow> sn_pool n = xs @ task # ys \<Longrightarrow>
     cluster_step s (set_node i
       (n\<lparr>sn_consumer := (addResult (process_task p task) (fst (sn_consumer n)), snd (sn_consumer n)), sn_pool := xs @ ys\<rparr>)
       (s\<lparr>cl_done := cl_done s @ [(task, p)]\<rparr>))"
| give_up:
    "i < length (cl_nodes s) \<Longrightarrow> n = cl_nodes s ! i \<Longrightarrow> sn_pool n = xs @ task # ys \<Longrightarrow>
     cluster_step s (set_node i (n\<lparr>sn_pool := xs @ ys\<rparr>) s)"
| save_reports:
    "i < length (cl_nodes s) \<Longrightarrow> n = cl_nodes s ! i \<Longrightarrow> 1 \<le> least \<Longrightarrow> least \<le> length (statBatch (fst (sn_consumer n))) \<Longrightarrow>
     SaveReports lk st protoMarshal newUUID now (statBatch (fst (sn_consumer n))) (cl_db s) = (r, db) \<Longrightarrow>
     cluster_step s (set_node i (n\<lparr>sn_consumer := flushStats (failure r) least (sn_consumer n)\<rparr>) (s\<lparr>cl_db := db\<rparr>))"
| save_statuses:
    "i < length (cl_nodes s) \<Longrightarrow> n = cl_nodes s ! i \<Longrightarrow> 1 \<le> least \<Longrightarrow> least \<le> length (statusBatch (fst (sn_consumer n))) \<Longrightarrow>
     UpdateTaskStatuses lk pref (statusBatch (fst (sn_consumer n))) (cl_db s) = (r, db) \<Longrightarrow>
     cluster_step s (set_node i (n\<lparr>sn_consumer := flushStatuses (failure r) least (sn_consumer n)\<rparr>) (s\<lparr>cl_db := db\<rparr>))"
| save_groups:
    "i < length (cl_nodes s) \<Longrightarrow> n = cl_nodes s ! i \<Longrightarrow> 1 \<le> least \<Longrightarrow> least \<le> length (targetGroupBatch (fst (sn_consumer n))) \<Longrightarrow>
     SaveOrUpdateTargetGroups lk attempts now (targetGroupBatch (fst (sn_consumer n))) (cl_db s) = Some (r, db) \<Longrightarrow>
     cluster_step s (set_node i (n\<lparr>sn_consumer := flushTargetGroups (failure r) least (sn_consumer n)\<rparr>) (s\<lparr>cl_db := db\<rparr>))"
| leadership:
    "i < length (cl_nodes s) \<Longrightarrow> n = cl_nodes s ! i \<Longrightarrow>
     cluster_step s (set_node i (n\<lparr>sn_consumer := (SetLeader v (fst (sn_consumer n)), snd (sn_consumer n))\<rparr>) s)"
| crash:
    "i < length (cl_nodes s) \<Longrightarrow> cluster_step s (set_node i (startNode v) s)"
| elsewhere:
    "db_scrape_tasks db = db_scrape_tasks (cl_db s) \<Longrightarrow> db_scrape_tasks_seq db = db_scrape_tasks_seq (cl_db s) \<Longrightarrow>
     db_reports db = db_reports (cl_db s) \<Longrightarrow> cluster_step s (s\<lparr>cl_db := db\<rparr>)"

definition startCluster :: "bool list \<Rightarrow> Cluster" where
  "startCluster leaders = \<lparr>cl_db = empty_db, cl_nodes = map startNode leaders, cl_handed = [], cl_done = []\<rparr>"

abbreviation cluster_steps :: "Cluster \<Rightarrow> Cluster \<Rightarrow> bool" where
  "cluster_steps \<equiv> cluster_step\<^sup>*\<^sup>*"

definition cluster_reachable :: "Cluster \<Rightarrow> bool" where
  "cluster_reachable s \<longleftrightarrow> (\<exists>leaders. cluster_steps (startCluster leaders) s)"

section \<open>What the storage calls do to the tasks and the reports\<close>

definition task_table :: "DB \<Rightarrow> ScrapeTask list \<times> int" where
  "task_table db = (db_scrape_tasks db, db_scrape_tasks_seq db)"

lemma task_table_rollback: "task_table w = task_table db \<Longrightarrow> task_table (rollback db w) = task_table db"
  by (simp add: task_table_def)

lemma apply_batch_keeps: "(\<And>x db. P (save x db) = P db) \<Longrightarrow> P (apply_batch save xs db) = P db"
  unfolding apply_batch_def by (rule foldl_frame) simp

lemma saveInBatches_keeps:
  assumes save: "\<And>x db. P (save x db) = P db" and undo: "\<And>db w. P w = P db \<Longrightarrow> P (rollback db w) = P db"
  shows "saveInBatches save attempts n b k batch xs db = Some (r, db') \<Longrightarrow> P db' = P db"
proof (induction xs arbitrary: b k batch db)
  case (Cons x xs)
  let ?batch = "batch @ [x]"
  have kept: "P (sent_batch save ?batch applied db) = P db" for applied
    by (simp add: sent_batch_def apply_batch_keeps [where P = P and save = save, OF save] undo)
  show ?case
  proof (cases "rowsPerBatch \<le> length ?batch \<or> Suc k = n")
    case True
    then obtain err applied where sent: "sendBatch (attempts b) (length ?batch) 0 = Some (err, applied)"
      using Cons.prems by (cases "sendBatch (attempts b) (length ?batch) 0") auto
    show ?thesis
    proof (cases err)
      case None
      with True sent Cons.prems
      have "saveInBatches save attempts n (Suc b) (Suc k) [] xs (sent_batch save ?batch applied db) = Some (r, db')"
        by (simp add: Let_def sent_batch_def)
      from Cons.IH [OF this] show ?thesis by (simp add: kept)
    next
      case (Some e)
      with True sent Cons.prems have "db' = sent_batch save ?batch applied db" by (simp add: Let_def sent_batch_def)
      then show ?thesis by (simp add: kept)
    qed
  next
    case False
    with Cons.prems have "saveInBatches save attempts n b (Suc k) ?batch xs db = Some (r, db')" by (simp add: Let_def)
    from Cons.IH [OF this] show ?thesis .
  qed
qed simp

lemma SaveOrUpdateTargetGroups_keeps:
  assumes "SaveOrUpdateTargetGroups lk attempts now groups db = Some (r, db')"
  shows "task_table db' = task_table db" and "db_reports db' = db_reports db"
proof -
  have keeps: "P db' = P db"
    if "\<And>g d. P (saveOrUpdateTargetGroup now g d) = P d" "\<And>d w. P w = P d \<Longrightarrow> P (rollback d w) = P d" for P :: "DB \<Rightarrow> 'x"
    using assms saveInBatches_keeps [where P = P and save = "saveOrUpdateTargetGroup now", OF that]
    by (auto simp: SaveOrUpdateTargetGroups_def split: option.splits)
  show "task_table db' = task_table db"
    by (rule keeps) (simp_all add: saveOrUpdateTargetGroup_def task_table_def)
  show "db_reports db' = db_reports db"
    by (rule keeps) (simp_all add: saveOrUpdateTargetGroup_def)
qed

lemma enqueue_keeps_tasks: "enqueueOutboxEvents lk events n db = (r, n', db') \<Longrightarrow> task_table db' = task_table db"
  by (induction events arbitrary: n db) (auto simp: saveOutboxMessage_def task_table_def split: option.splits)

lemma saveReportsLoop_keeps_tasks:
  "saveReportsLoop lk st pm uid t i n reports db = (r, db') \<Longrightarrow> task_table db' = task_table db"
proof (induction reports arbitrary: i n db)
  case (Cons rep reports)
  have "task_table (saveReport row d) = task_table d" for row d by (simp add: saveReport_def task_table_def)
  with Cons.prems Cons.IH show ?case
    by (auto simp: Let_def split: option.splits sum.splits prod.splits dest!: enqueue_keeps_tasks)
qed simp

lemma SaveReports_keeps_tasks:
  assumes "SaveReports lk st pm uid t reports db = (r, db')"
  shows "task_table db' = task_table db"
proof (cases "reports = [] \<or> lk_acquire lk \<noteq> None \<or> lk_begin lk \<noteq> None")
  case False
  obtain r1 w where loop: "saveReportsLoop lk st pm uid t 0 0 reports db = (r1, w)" by (meson surj_pair)
  note w = saveReportsLoop_keeps_tasks [OF loop]
  from assms False loop task_table_rollback [OF w] w show ?thesis
    by (cases "lk_end lk") (auto simp: SaveReports_def split: sum.splits)
qed (use assms in \<open>auto simp: SaveReports_def split: option.splits if_splits\<close>)

lemma saved_rows_from: "set (saved_rows t reports rows) \<subseteq> set rows \<union> (\<lambda>rep. reportRow rep t) ` set reports"
proof -
  have "set (upsert report_key mergeReport row rows) \<subseteq> insert row (set rows)" for row rows
    by (auto simp: upsert_def mergeReport_new split: if_splits)
  then show ?thesis
    unfolding saved_rows_def by (induction reports arbitrary: rows) (simp, fastforce)
qed

lemma SaveReports_from:
  assumes "SaveReports lk st pm uid t reports db = (r, db')"
  shows "set (db_reports db') \<subseteq> set (db_reports db) \<union> (\<lambda>rep. reportRow rep t) ` set reports"
  using SaveReports_all_or_nothing [where lk = lk and s = st and protoMarshal = pm and newUUID = uid and createdAt = t
      and reports = reports and db = db] assms saved_rows_from [of t reports "db_reports db"]
  by (auto simp: saved_def tables_def split: sum.splits)

section \<open>The invariant\<close>

text \<open>Ids are unique and below the sequence; a task that was handed out is not pending any more.\<close>

definition tasks_ok :: "Cluster \<Rightarrow> bool" where
  "tasks_ok s \<longleftrightarrow> task_ids_ok (cl_db s) \<and>
     (\<forall>t \<in> set (db_scrape_tasks (cl_db s)) \<union> set (cl_handed s). st_ID t < db_scrape_tasks_seq (cl_db s)) \<and>
     distinct (map st_ID (cl_handed s)) \<and>
     (\<forall>t \<in> set (db_scrape_tasks (cl_db s)). st_Status t = TaskStatusPending \<longrightarrow> st_ID t \<notin> st_ID ` set (cl_handed s))"

text \<open>Every task that was handed out is in at most one pool, or its result has come in once.\<close>

definition pools_ok :: "Cluster \<Rightarrow> bool" where
  "pools_ok s \<longleftrightarrow> mset (concat (map sn_pool (cl_nodes s))) + mset (map fst (cl_done s)) \<subseteq># mset (cl_handed s)"

definition outcome_of :: "(ScrapeTask \<times> Processor) list \<Rightarrow> int \<Rightarrow> TaskStatus \<Rightarrow> bool" where
  "outcome_of finished i status \<longleftrightarrow>
     (\<exists>(task, p) \<in> set finished. st_ID task = i \<and>
        status = (if isOk (Process p task) then TaskStatusComplete else TaskStatusError))"

definition report_of :: "(ScrapeTask \<times> Processor) list \<Rightarrow> Report \<Rightarrow> bool" where
  "report_of finished rep \<longleftrightarrow> (\<exists>(task, p) \<in> set finished. \<exists>groups. Process p task = Inr (rep, groups))"

text \<open>What waits in the batches and what is stored are outcomes of tasks that ran.\<close>

definition batch_ok :: "(ScrapeTask \<times> Processor) list \<Rightarrow> TaskConsumer \<Rightarrow> bool" where
  "batch_ok finished c \<longleftrightarrow> list_all (\<lambda>u. outcome_of finished (tu_ID u) (tu_Status u)) (statusBatch c) \<and>
     list_all (report_of finished) (statBatch c)"

definition stored_ok :: "(ScrapeTask \<times> Processor) list \<Rightarrow> DB \<Rightarrow> bool" where
  "stored_ok finished db \<longleftrightarrow>
     (\<forall>t \<in> set (db_scrape_tasks db). st_Status t \<in> {TaskStatusPending, TaskStatusRunning} \<or> outcome_of finished (st_ID t) (st_Status t)) \<and>
     (\<forall>row \<in> set (db_reports db). \<exists>rep now. row = reportRow rep now \<and> report_of finished rep)"

definition outcomes_ok :: "Cluster \<Rightarrow> bool" where
  "outcomes_ok s \<longleftrightarrow> list_all (\<lambda>n. batch_ok (cl_done s) (fst (sn_consumer n))) (cl_nodes s) \<and> stored_ok (cl_done s) (cl_db s)"

subsection \<open>Tasks\<close>

text \<open>The rows after a statement other than an insert: some are gone, some have another status, none is pending again.\<close>

definition rows_advance :: "ScrapeTask list \<Rightarrow> ScrapeTask list \<Rightarrow> bool" where
  "rows_advance rows rows' \<longleftrightarrow>
     (\<exists>keep f. rows' = map (\<lambda>t. t\<lparr>st_Status := f t\<rparr>) (filter keep rows) \<and>
        (\<forall>t. f t = TaskStatusPending \<longrightarrow> st_Status t = TaskStatusPending))"

lemma rows_advance_refl: "rows_advance rows rows"
  unfolding rows_advance_def by (rule exI [of _ "\<lambda>_. True"], rule exI [of _ st_Status]) simp

lemma rows_advance_ids: "rows_advance rows rows' \<Longrightarrow> distinct (map st_ID rows) \<Longrightarrow> distinct (map st_ID rows')"
  by (auto simp: rows_advance_def comp_def distinct_map_filter)

lemma rows_advance_member:
  assumes "rows_advance rows rows'" and "t' \<in> set rows'"
  obtains t where "t \<in> set rows" and "st_ID t = st_ID t'" and "st_Status t' = TaskStatusPending \<Longrightarrow> st_Status t = TaskStatusPending"
  using assms by (auto simp: rows_advance_def)

lemma set_node_simps [simp]:
  "cl_db (set_node i n s) = cl_db s" "cl_handed (set_node i n s) = cl_handed s" "cl_done (set_node i n s) = cl_done s"
  "cl_nodes (set_node i n s) = (cl_nodes s)[i := n]"
  by (simp_all add: set_node_def)

lemma tasks_ok_frame:
  assumes "cl_handed s' = cl_handed s" and adv: "rows_advance (db_scrape_tasks (cl_db s)) (db_scrape_tasks (cl_db s'))"
    and "db_scrape_tasks_seq (cl_db s') = db_scrape_tasks_seq (cl_db s)" and ok: "tasks_ok s"
  shows "tasks_ok s'"
proof -
  have "st_ID t' < db_scrape_tasks_seq (cl_db s)"
    "st_Status t' = TaskStatusPending \<longrightarrow> st_ID t' \<notin> st_ID ` set (cl_handed s)" if "t' \<in> set (db_scrape_tasks (cl_db s'))" for t'
  proof -
    from adv that obtain t where "t \<in> set (db_scrape_tasks (cl_db s))" "st_ID t = st_ID t'"
      "st_Status t' = TaskStatusPending \<longrightarrow> st_Status t = TaskStatusPending" by (metis rows_advance_member)
    then show "st_ID t' < db_scrape_tasks_seq (cl_db s)"
      "st_Status t' = TaskStatusPending \<longrightarrow> st_ID t' \<notin> st_ID ` set (cl_handed s)"
      using ok unfolding tasks_ok_def by (metis UnCI)+
  qed
  then show ?thesis
    using assms rows_advance_ids [OF adv] unfolding tasks_ok_def task_ids_ok_def by auto
qed

lemma exec_advance:
  assumes "exec lk f db = (r, db')" and "rows_advance (db_scrape_tasks db) (db_scrape_tasks (f db))"
    and "db_scrape_tasks_seq (f db) = db_scrape_tasks_seq db"
  shows "rows_advance (db_scrape_tasks db) (db_scrape_tasks db')" "db_scrape_tasks_seq db' = db_scrape_tasks_seq db"
  using assms by (cases rule: exec_cases [of lk f db]; auto simp: rows_advance_refl)+

lemma cleanup_advance: "rows_advance (db_scrape_tasks db) (db_scrape_tasks (cleanupScrapeTasks before db))"
  unfolding rows_advance_def cleanupScrapeTasks_def
  by (intro exI [of _ "\<lambda>t. \<not> (st_Status t \<noteq> TaskStatusPending \<and> st_CreatedAt t < before)"] exI [of _ st_Status]) simp

lemma updated_status_cases: "updated_status pref updates t = st_Status t \<or>
   (\<exists>u \<in> set updates. tu_ID u = st_ID t \<and> tu_Status u = updated_status pref updates t)"
proof (cases "filter (\<lambda>u. tu_ID u = st_ID t) updates")
  case (Cons u us)
  let ?us = "u # us" and ?k = "pref (st_ID t) mod length (u # us)"
  have "?us ! ?k \<in> set ?us" by (rule nth_mem) simp
  then have "?us ! ?k \<in> set updates" "tu_ID (?us ! ?k) = st_ID t" unfolding Cons [symmetric] by simp_all
  moreover have "updated_status pref updates t = tu_Status (?us ! ?k)" by (simp add: updated_status_def Cons)
  ultimately show ?thesis by metis
qed (simp add: updated_status_def)

lemma update_advance:
  assumes "UpdateTaskStatuses lk pref updates db = (r, db')" and "\<forall>u \<in> set updates. tu_Status u \<noteq> TaskStatusPending"
  shows "rows_advance (db_scrape_tasks db) (db_scrape_tasks db')" "db_scrape_tasks_seq db' = db_scrape_tasks_seq db"
proof -
  let ?f = "\<lambda>db. db\<lparr>db_scrape_tasks := map (\<lambda>t. t\<lparr>st_Status := updated_status pref updates t\<rparr>) (db_scrape_tasks db)\<rparr>"
  have "rows_advance (db_scrape_tasks db) (db_scrape_tasks (?f db))"
    unfolding rows_advance_def using updated_status_cases [of pref updates] assms(2)
    by (intro exI [of _ "\<lambda>_. True"] exI [of _ "updated_status pref updates"]) (auto, metis)
  then show "rows_advance (db_scrape_tasks db) (db_scrape_tasks db')" "db_scrape_tasks_seq db' = db_scrape_tasks_seq db"
    using assms(1) exec_advance [of lk ?f db r db'] rows_advance_refl
    by (auto simp: UpdateTaskStatuses_def split: if_splits)
qed

lemma get_advance:
  assumes "GetScrapeTasks lk locked rank limit db = (r, db')"
  shows "rows_advance (db_scrape_tasks db) (db_scrape_tasks db')" "db_scrape_tasks_seq db' = db_scrape_tasks_seq db"
proof -
  have "map (start_task ids) rows = map (\<lambda>t. t\<lparr>st_Status := (if st_ID t \<in> ids then TaskStatusRunning else st_Status t)\<rparr>) rows" for ids rows
    by (simp add: start_task_def)
  then have "rows_advance rows (map (start_task ids) rows)" for ids rows
    unfolding rows_advance_def
    by (intro exI [of _ "\<lambda>_. True"] exI [of _ "\<lambda>t. if st_ID t \<in> ids then TaskStatusRunning else st_Status t"])
      (auto simp: TaskStatus_defs)
  with assms show "rows_advance (db_scrape_tasks db) (db_scrape_tasks db')" "db_scrape_tasks_seq db' = db_scrape_tasks_seq db"
    by (cases "lk_acquire lk"; cases "lk_end lk";
        auto simp: GetScrapeTasks_def query_def getScrapeTasks_stmt_def Let_def rows_advance_refl)+
qed

lemma GetScrapeTasks_distinct:
  assumes "GetScrapeTasks lk locked rank limit db = (Inr tasks, db')" and "task_ids_ok db"
  shows "distinct (map st_ID tasks)"
proof -
  have "distinct (map st_ID (sort_key k (filter P (map (start_task ids) (db_scrape_tasks db)))))" for k :: "ScrapeTask \<Rightarrow> nat" and P ids
  proof -
    have "st_ID \<circ> start_task ids = st_ID" by (auto simp: start_task_def)
    then have "distinct (map st_ID (map (start_task ids) (db_scrape_tasks db)))" using assms(2) by (simp add: task_ids_ok_def)
    then have "distinct (map st_ID (filter P (map (start_task ids) (db_scrape_tasks db))))" by (rule distinct_map_filter)
    then show ?thesis by (simp add: distinct_map)
  qed
  with assms(1) show ?thesis
    by (cases "lk_acquire lk"; cases "lk_end lk"; auto simp: GetScrapeTasks_def query_def getScrapeTasks_stmt_def Let_def)
qed

lemma tasks_ok_tick:
  assumes ok: "tasks_ok s" and get: "GetScrapeTasks lk locked rank limit (cl_db s) = (r, db)"
    and s': "cl_db s' = db" "cl_handed s' = cl_handed s @ taken r"
  shows "tasks_ok s'"
proof (cases r)
  case (Inl e)
  with s' get_advance [OF get] show ?thesis by (intro tasks_ok_frame [OF _ _ _ ok]) (simp_all add: taken_def)
next
  case (Inr tasks)
  let ?ids = "started_ids locked limit (cl_db s)"
  note g = GetScrapeTasks_Inr [OF get [unfolded Inr]]
  have ids: "task_ids_ok (cl_db s)" using ok by (simp add: tasks_ok_def)
  have "tasks_ok (s\<lparr>cl_db := db\<rparr>)" using get_advance [OF get] by (intro tasks_ok_frame [OF _ _ _ ok]) simp_all
  moreover have "st_ID ` set (cl_handed s) \<inter> st_ID ` set tasks = {}"
  proof -
    have "st_ID t \<notin> st_ID ` set (cl_handed s)" if "t \<in> set tasks" for t
    proof -
      from that obtain t0 where t0: "t0 \<in> set (db_scrape_tasks (cl_db s))" "st_ID t = st_ID t0" "st_ID t0 \<in> ?ids"
        unfolding g(2) by (auto simp: g(1) start_task_def split: if_splits)
      with ok started_pending(1) [OF ids t0(1,3)] show ?thesis by (simp add: tasks_ok_def)
    qed
    then show ?thesis by (fastforce simp: image_iff)
  qed
  moreover have "st_ID t \<notin> st_ID ` set tasks" if "t \<in> set (db_scrape_tasks db)" "st_Status t = TaskStatusPending" for t
  proof -
    have "st_ID t \<notin> ?ids" using that by (auto simp: g(1) start_task_def TaskStatus_defs split: if_splits)
    then show ?thesis unfolding g(2) by auto
  qed
  moreover have "set tasks \<subseteq> set (db_scrape_tasks db)" unfolding g(2) by blast
  ultimately show ?thesis
    using s' Inr GetScrapeTasks_distinct [OF get [unfolded Inr] ids]
    by (auto simp: tasks_ok_def taken_def)
qed

lemma tasks_ok_produce:
  assumes ok: "tasks_ok s" and s': "cl_db s' = sent_batch saveScrapeTask batch applied (cl_db s)" "cl_handed s' = cl_handed s"
  shows "tasks_ok s'"
proof -
  let ?seq = "db_scrape_tasks_seq (cl_db s)"
  have seq: "db_scrape_tasks_seq (cl_db s') = ?seq + int (length batch)"
    by (simp add: s' sent_batch_def apply_saveScrapeTask)
  have rows: "db_scrape_tasks (cl_db s') = db_scrape_tasks (cl_db s) @ (if applied then numbered ?seq batch else [])"
    by (simp add: s' sent_batch_def apply_saveScrapeTask)
  have new: "map st_ID (numbered ?seq batch) = map (\<lambda>i. ?seq + int i) [0..<length batch]"
    by (rule nth_equalityI) (simp_all add: numbered_def nth_enumerate_eq)
  have fresh: "?seq \<le> st_ID t \<and> st_ID t < ?seq + int (length batch)" if "t \<in> set (numbered ?seq batch)" for t
  proof -
    have "st_ID t \<in> set (map st_ID (numbered ?seq batch))" using that by simp
    then show ?thesis unfolding new by auto
  qed
  have old: "st_ID t < ?seq" if "t \<in> set (db_scrape_tasks (cl_db s)) \<union> set (cl_handed s)" for t
    using ok that by (simp add: tasks_ok_def)
  have "distinct (map st_ID (numbered ?seq batch))" unfolding new by (simp add: distinct_map inj_on_def)
  moreover have "st_ID ` set (db_scrape_tasks (cl_db s)) \<inter> st_ID ` set (numbered ?seq batch) = {}"
    using old fresh by fastforce
  ultimately have "task_ids_ok (cl_db s')" using ok by (auto simp: task_ids_ok_def tasks_ok_def rows)
  moreover have "st_ID t < ?seq + int (length batch)"
    if "t \<in> set (db_scrape_tasks (cl_db s')) \<union> set (cl_handed s')" for t
  proof -
    from that consider "t \<in> set (db_scrape_tasks (cl_db s)) \<union> set (cl_handed s)" | "t \<in> set (numbered ?seq batch)"
      by (auto simp: rows s'(2) split: if_splits)
    then show ?thesis using old [of t] fresh [of t] by cases auto
  qed
  moreover have "st_ID t \<notin> st_ID ` set (cl_handed s)" if "t \<in> set (numbered ?seq batch)" for t
    using fresh [OF that] old by fastforce
  ultimately show ?thesis using ok seq by (auto simp: tasks_ok_def s'(2) rows split: if_splits)
qed

subsection \<open>Pools\<close>

lemma pools_update:
  assumes "i < length ns"
  shows "mset (concat (map sn_pool (ns[i := n]))) + mset (sn_pool (ns ! i)) = mset (concat (map sn_pool ns)) + mset (sn_pool n)"
proof -
  have "ns = take i ns @ ns ! i # drop (Suc i) ns" using assms by (rule id_take_nth_drop)
  then have "mset (concat (map sn_pool ns)) = mset (concat (map sn_pool (take i ns))) + mset (sn_pool (ns ! i)) + mset (concat (map sn_pool (drop (Suc i) ns)))"
    by (metis (no_types, lifting) concat.simps(2) concat_append list.simps(9) map_append mset_append add.assoc)
  then show ?thesis using assms by (simp add: upd_conv_take_nth_drop)
qed

lemma pools_ok_node:
  assumes ok: "pools_ok s" and i: "i < length (cl_nodes s)" and s0: "cl_nodes s0 = cl_nodes s"
    and new: "cl_handed s0 = cl_handed s @ new" "cl_done s0 = cl_done s @ fin"
    and pool: "mset (sn_pool n) + mset (map fst fin) \<subseteq># mset (sn_pool (cl_nodes s ! i)) + mset new"
  shows "pools_ok (set_node i n s0)"
proof -
  let ?P = "\<lambda>ns. mset (concat (map sn_pool ns))"
  have "?P ((cl_nodes s)[i := n]) + mset (map fst fin) + mset (sn_pool (cl_nodes s ! i)) = ?P (cl_nodes s) + (mset (sn_pool n) + mset (map fst fin))"
    using pools_update [OF i, of n] by (simp add: ac_simps)
  also have "\<dots> \<subseteq># ?P (cl_nodes s) + (mset (sn_pool (cl_nodes s ! i)) + mset new)"
    by (rule subset_mset.add_left_mono [OF pool])
  finally have "?P ((cl_nodes s)[i := n]) + mset (map fst fin) \<subseteq># ?P (cl_nodes s) + mset new"
    by (simp add: ac_simps)
  then have "?P ((cl_nodes s)[i := n]) + mset (map fst fin) + mset (map fst (cl_done s)) \<subseteq># ?P (cl_nodes s) + mset new + mset (map fst (cl_done s))"
    by (rule subset_mset.add_right_mono)
  also have "\<dots> \<subseteq># mset (cl_handed s) + mset new"
    using ok unfolding pools_ok_def by (simp add: ac_simps)
  finally show ?thesis by (simp add: pools_ok_def new s0 ac_simps)
qed

lemma cluster_step_pools: "cluster_step s s' \<Longrightarrow> pools_ok s \<Longrightarrow> pools_ok s'"
proof (induction rule: cluster_step.induct)
  case (tick i s n lk locked rank r db)
  show ?case
    by (rule pools_ok_node [where new = "taken r" and fin = "[]", OF tick.prems tick.hyps(1)])
      (simp_all flip: tick.hyps(2))
next
  case (receive i s n xs task ys p)
  show ?case
    by (rule pools_ok_node [where new = "[]" and fin = "[(task, p)]", OF receive.prems receive.hyps(1)])
      (simp_all add: receive.hyps(3) flip: receive.hyps(2))
next
  case (give_up i s n xs task ys)
  show ?case
    by (rule pools_ok_node [where new = "[]" and fin = "[]", OF give_up.prems give_up.hyps(1)])
      (simp_all add: give_up.hyps(3) flip: give_up.hyps(2))
qed (simp add: pools_ok_def; fail | rule pools_ok_node [where new = "[]" and fin = "[]"], assumption, assumption, simp_all add: startNode_def)+

subsection \<open>Outcomes\<close>

lemma outcome_mono:
  "set fin \<subseteq> set fin' \<Longrightarrow> outcome_of fin i st \<Longrightarrow> outcome_of fin' i st"
  "set fin \<subseteq> set fin' \<Longrightarrow> report_of fin rep \<Longrightarrow> report_of fin' rep"
  by (auto simp: outcome_of_def report_of_def)

lemma batch_ok_mono: "set fin \<subseteq> set fin' \<Longrightarrow> batch_ok fin c \<Longrightarrow> batch_ok fin' c"
  unfolding batch_ok_def by (auto simp: list_all_iff intro: outcome_mono)

lemma stored_ok_mono: "set fin \<subseteq> set fin' \<Longrightarrow> stored_ok fin db \<Longrightarrow> stored_ok fin' db"
  unfolding stored_ok_def by (meson outcome_mono)

lemma outcome_not_pending: "outcome_of fin i st \<Longrightarrow> st \<noteq> TaskStatusPending"
  by (auto simp: outcome_of_def TaskStatus_defs split: if_splits)

lemma batch_ok_flush:
  assumes "batch_ok fin (fst c)"
  shows "batch_ok fin (fst (flushStats env least c))" "batch_ok fin (fst (flushStatuses env least c))"
    "batch_ok fin (fst (flushTargetGroups env least c))" "batch_ok fin (fst (handleTaskTick env ts c))"
  using assms
  by (auto simp: batch_ok_def flushStats_def flushStatuses_def flushTargetGroups_def handleTaskTick_def perform_def Let_def
      split: prod.splits)

lemma batch_ok_addResult:
  assumes "batch_ok fin c"
  shows "batch_ok (fin @ [(task, p)]) (addResult (process_task p task) c)"
proof -
  have old: "batch_ok (fin @ [(task, p)]) c" using assms by (rule batch_ok_mono [rotated]) auto
  have "outcome_of (fin @ [(task, p)]) (st_ID task) (if isOk (Process p task) then TaskStatusComplete else TaskStatusError)"
    by (auto simp: outcome_of_def)
  moreover have "report_of (fin @ [(task, p)]) rep" if "Process p task = Inr (rep, groups)" for rep groups
    using that by (auto simp: report_of_def)
  ultimately show ?thesis
    using old by (cases "Process p task") (auto simp: batch_ok_def addResult_def process_task_def split: prod.splits)
qed

text \<open>A change of the rows that only brings states that are not final, or outcomes.\<close>

lemma stored_ok_change:
  assumes "stored_ok fin db"
    and "\<And>t'. t' \<in> set (db_scrape_tasks db') \<Longrightarrow> t' \<in> set (db_scrape_tasks db) \<or>
       st_Status t' \<in> {TaskStatusPending, TaskStatusRunning} \<or> outcome_of fin (st_ID t') (st_Status t')"
    and "\<And>row. row \<in> set (db_reports db') \<Longrightarrow> row \<in> set (db_reports db) \<or> (\<exists>rep now. row = reportRow rep now \<and> report_of fin rep)"
  shows "stored_ok fin db'"
  using assms unfolding stored_ok_def by blast

lemma stored_ok_exec:
  assumes "stored_ok fin db" and "exec lk f db = (r, db')" and "stored_ok fin (f db)"
  shows "stored_ok fin db'"
proof -
  have "stored_ok fin (rollback db (f db))" using assms(1) by (simp add: stored_ok_def)
  with assms show ?thesis by (cases rule: exec_cases [of lk f db]) auto
qed

lemma stored_ok_update:
  assumes ok: "stored_ok fin db" and upd: "UpdateTaskStatuses lk pref updates db = (r, db')"
    and fin: "list_all (\<lambda>u. outcome_of fin (tu_ID u) (tu_Status u)) updates"
  shows "stored_ok fin db'"
proof (cases "updates = []")
  case True
  with upd ok show ?thesis by (simp add: UpdateTaskStatuses_def)
next
  case False
  show ?thesis
  proof (rule stored_ok_exec [OF ok])
    show "exec lk (\<lambda>db. db\<lparr>db_scrape_tasks := map (\<lambda>t. t\<lparr>st_Status := updated_status pref updates t\<rparr>) (db_scrape_tasks db)\<rparr>) db = (r, db')"
      using upd False by (simp add: UpdateTaskStatuses_def)
    show "stored_ok fin (db\<lparr>db_scrape_tasks := map (\<lambda>t. t\<lparr>st_Status := updated_status pref updates t\<rparr>) (db_scrape_tasks db)\<rparr>)"
    proof (rule stored_ok_change [OF ok])
      fix t' assume "t' \<in> set (db_scrape_tasks (db\<lparr>db_scrape_tasks := map (\<lambda>t. t\<lparr>st_Status := updated_status pref updates t\<rparr>) (db_scrape_tasks db)\<rparr>))"
      then obtain t where t: "t \<in> set (db_scrape_tasks db)" "t' = t\<lparr>st_Status := updated_status pref updates t\<rparr>" by auto
      show "t' \<in> set (db_scrape_tasks db) \<or> st_Status t' \<in> {TaskStatusPending, TaskStatusRunning} \<or> outcome_of fin (st_ID t') (st_Status t')"
        using updated_status_cases [of pref updates t] t fin by (auto simp: list_all_iff)
    qed simp
  qed
qed

lemma stored_ok_get:
  assumes ok: "stored_ok fin db" and get: "GetScrapeTasks lk locked rank limit db = (r, db')"
  shows "stored_ok fin db'"
proof -
  have "stored_ok fin (db\<lparr>db_scrape_tasks := map (start_task ids) (db_scrape_tasks db)\<rparr>)" for ids
    by (rule stored_ok_change [OF ok]) (auto simp: start_task_def)
  moreover have "stored_ok fin (rollback db w)" for w using ok by (simp add: stored_ok_def)
  ultimately show ?thesis using get ok
    by (cases "lk_acquire lk"; cases "lk_end lk"; auto simp: GetScrapeTasks_def query_def getScrapeTasks_stmt_def Let_def)
qed

lemma stored_ok_produce:
  assumes ok: "stored_ok fin db" and pending: "list_all (\<lambda>t. st_Status t = TaskStatusPending) batch"
  shows "stored_ok fin (sent_batch saveScrapeTask batch applied db)"
proof (rule stored_ok_change [OF ok])
  have "st_Status t = TaskStatusPending" if "t \<in> set (numbered k batch)" for t k
    using that pending by (auto simp: numbered_def list_all_iff in_set_enumerate_eq)
  then show "t' \<in> set (db_scrape_tasks db) \<or> st_Status t' \<in> {TaskStatusPending, TaskStatusRunning} \<or> outcome_of fin (st_ID t') (st_Status t')"
    if "t' \<in> set (db_scrape_tasks (sent_batch saveScrapeTask batch applied db))" for t'
    using that by (auto simp: sent_batch_def apply_saveScrapeTask split: if_splits)
qed (auto simp: sent_batch_def apply_saveScrapeTask split: if_splits)

lemma stored_ok_cleanup:
  assumes "stored_ok fin db" and "exec lk (cleanupScrapeTasks before) db = (r, db')"
  shows "stored_ok fin db'"
  by (rule stored_ok_exec [OF assms], rule stored_ok_change [OF assms(1)]) (auto simp: cleanupScrapeTasks_def)

lemma stored_ok_reports:
  assumes ok: "stored_ok fin db" and save: "SaveReports lk st pm uid now reports db = (r, db')"
    and fin: "list_all (report_of fin) reports"
  shows "stored_ok fin db'"
  by (rule stored_ok_change [OF ok])
    (use SaveReports_keeps_tasks [OF save] SaveReports_from [OF save] fin in \<open>auto simp: task_table_def list_all_iff\<close>)

lemma stored_ok_groups:
  assumes ok: "stored_ok fin db" and save: "SaveOrUpdateTargetGroups lk attempts now groups db = Some (r, db')"
  shows "stored_ok fin db'"
  by (rule stored_ok_change [OF ok]) (use SaveOrUpdateTargetGroups_keeps [OF save] in \<open>simp_all add: task_table_def\<close>)

lemma outcomes_ok_node:
  assumes "outcomes_ok s" and "cl_nodes s0 = cl_nodes s" and "set (cl_done s) \<subseteq> set (cl_done s0)"
    and "batch_ok (cl_done s0) (fst (sn_consumer n))" and "stored_ok (cl_done s0) (cl_db s0)"
  shows "outcomes_ok (set_node i n s0)"
  using assms batch_ok_mono [OF assms(3)] set_update_subset_insert [of "cl_nodes s" i n]
  by (fastforce simp: outcomes_ok_def list_all_iff)

lemma outcomes_ok_parts:
  assumes "outcomes_ok s"
  shows "stored_ok (cl_done s) (cl_db s)" "i < length (cl_nodes s) \<Longrightarrow> batch_ok (cl_done s) (fst (sn_consumer (cl_nodes s ! i)))"
  using assms by (auto simp: outcomes_ok_def list_all_length)

lemma cluster_step_outcomes: "cluster_step s s' \<Longrightarrow> outcomes_ok s \<Longrightarrow> outcomes_ok s'"
proof (induction rule: cluster_step.induct)
  case (cleanup lk before s r db)
  then show ?case using stored_ok_cleanup by (auto simp: outcomes_ok_def)
next
  case (produce batch attempts err applied s)
  then show ?case using stored_ok_produce by (auto simp: outcomes_ok_def)
next
  case (tick i s n lk locked rank r db)
  note parts = outcomes_ok_parts [OF tick.prems]
  show ?case
    by (rule outcomes_ok_node [OF tick.prems])
      (use stored_ok_get [OF parts(1) tick.hyps(4)] batch_ok_flush(4) [OF parts(2) [OF tick.hyps(1)]] tick.hyps(2) in simp_all)
next
  case (receive i s n xs task ys p)
  note parts = outcomes_ok_parts [OF receive.prems]
  have "stored_ok (cl_done s @ [(task, p)]) (cl_db s)" using parts(1) by (rule stored_ok_mono [rotated]) auto
  then show ?case
    by (intro outcomes_ok_node [OF receive.prems])
      (use batch_ok_addResult [OF parts(2) [OF receive.hyps(1)]] receive.hyps(2) in auto)
next
  case (save_reports i s n least lk st pm uid now r db)
  note parts = outcomes_ok_parts [OF save_reports.prems]
  note batch = parts(2) [OF save_reports.hyps(1)]
  show ?case
    by (rule outcomes_ok_node [OF save_reports.prems])
      (use stored_ok_reports [OF parts(1) save_reports.hyps(5)] batch_ok_flush(1) [OF batch] batch save_reports.hyps(2)
        in \<open>simp_all add: batch_ok_def\<close>)
next
  case (save_statuses i s n least lk pref r db)
  note parts = outcomes_ok_parts [OF save_statuses.prems]
  note batch = parts(2) [OF save_statuses.hyps(1)]
  show ?case
    by (rule outcomes_ok_node [OF save_statuses.prems])
      (use stored_ok_update [OF parts(1) save_statuses.hyps(5)] batch_ok_flush(2) [OF batch] batch save_statuses.hyps(2)
        in \<open>simp_all add: batch_ok_def\<close>)
next
  case (save_groups i s n least lk attempts now r db)
  note parts = outcomes_ok_parts [OF save_groups.prems]
  show ?case
    by (rule outcomes_ok_node [OF save_groups.prems])
      (use stored_ok_groups [OF parts(1) save_groups.hyps(5)] batch_ok_flush(3) [OF parts(2) [OF save_groups.hyps(1)]]
        save_groups.hyps(2) in simp_all)
next
  case (elsewhere db s)
  then show ?case by (simp add: outcomes_ok_def stored_ok_def)
qed (rule outcomes_ok_node, assumption,
    use outcomes_ok_parts in \<open>auto simp: SetLeader_def startNode_def NewTaskConsumer_def batch_ok_def\<close>)+

subsection \<open>All reachable states\<close>

definition cluster_ok :: "Cluster \<Rightarrow> bool" where
  "cluster_ok s \<longleftrightarrow> tasks_ok s \<and> pools_ok s \<and> outcomes_ok s"

lemma cluster_okD: "cluster_ok s \<Longrightarrow> tasks_ok s" "cluster_ok s \<Longrightarrow> pools_ok s" "cluster_ok s \<Longrightarrow> outcomes_ok s"
  by (simp_all add: cluster_ok_def)

lemma cluster_step_tasks: "cluster_step s s' \<Longrightarrow> cluster_ok s \<Longrightarrow> tasks_ok s'"
proof (induction rule: cluster_step.induct)
  case (cleanup lk before s r db)
  show ?case
    by (rule tasks_ok_frame [where s = s])
      (use cleanup exec_advance [OF cleanup.hyps cleanup_advance] in \<open>simp_all add: cleanupScrapeTasks_def cluster_ok_def\<close>)
next
  case (produce batch attempts err applied s)
  from cluster_okD(1) [OF produce.prems] show ?case by (rule tasks_ok_produce [where batch = batch and applied = applied]) simp_all
next
  case (tick i s n lk locked rank r db)
  from cluster_okD(1) [OF tick.prems] show ?case by (rule tasks_ok_tick [OF _ tick.hyps(4)]) simp_all
next
  case (save_statuses i s n least lk pref r db)
  have "batch_ok (cl_done s) (fst (sn_consumer n))"
    using save_statuses outcomes_ok_parts(2) by (simp add: cluster_ok_def)
  then have "\<forall>u \<in> set (statusBatch (fst (sn_consumer n))). tu_Status u \<noteq> TaskStatusPending"
    by (auto simp: batch_ok_def list_all_iff dest: outcome_not_pending)
  note adv = update_advance [OF save_statuses.hyps(5) this]
  from cluster_okD(1) [OF save_statuses.prems] show ?case by (rule tasks_ok_frame [rotated 3]) (simp_all add: adv)
next
  case (save_reports i s n least lk st pm uid now r db)
  note keeps = SaveReports_keeps_tasks [OF save_reports.hyps(5), unfolded task_table_def prod.inject]
  from cluster_okD(1) [OF save_reports.prems] show ?case by (rule tasks_ok_frame [rotated 3]) (simp_all add: keeps rows_advance_refl)
next
  case (save_groups i s n least lk attempts now r db)
  note keeps = SaveOrUpdateTargetGroups_keeps(1) [OF save_groups.hyps(5), unfolded task_table_def prod.inject]
  from cluster_okD(1) [OF save_groups.prems] show ?case by (rule tasks_ok_frame [rotated 3]) (simp_all add: keeps rows_advance_refl)
qed (erule tasks_ok_frame [rotated 3, OF cluster_okD(1)]; simp add: rows_advance_refl)+

lemma cluster_step_ok: "cluster_step s s' \<Longrightarrow> cluster_ok s \<Longrightarrow> cluster_ok s'"
  using cluster_step_tasks cluster_step_pools cluster_step_outcomes by (simp add: cluster_ok_def)

lemma cluster_start_ok: "cluster_ok (startCluster leaders)"
  by (simp add: cluster_ok_def tasks_ok_def pools_ok_def outcomes_ok_def stored_ok_def startCluster_def startNode_def
      NewTaskConsumer_def batch_ok_def empty_db_def task_ids_ok_def list_all_iff comp_def concat_map_Nil)

lemma cluster_reachable_ok: "cluster_reachable s \<Longrightarrow> cluster_ok s"
  unfolding cluster_reachable_def
  by (elim exE, erule rtranclp_induct) (auto intro: cluster_start_ok cluster_step_ok)

lemma submset_distinct_ids:
  assumes "mset xs \<subseteq># mset ys" and "distinct (map st_ID ys)"
  shows "distinct (map st_ID xs)"
proof -
  obtain zs where "mset ys = mset (xs @ zs)"
    using assms(1) by (metis ex_mset mset_append subset_mset.le_iff_add)
  then have "mset (map st_ID ys) = mset (map st_ID (xs @ zs))" by (metis mset_map)
  then show ?thesis using assms(2) mset_eq_imp_distinct_iff by fastforce
qed

lemma ids_distinct:
  assumes "cluster_ok s"
  shows "distinct (map st_ID (map fst (cl_done s)))" "distinct (map st_ID (concat (map sn_pool (cl_nodes s))))"
proof -
  note ok = cluster_okD(1,2) [OF assms]
  have sub: "mset (concat (map sn_pool (cl_nodes s)) @ map fst (cl_done s)) \<subseteq># mset (cl_handed s)"
    using ok(2) by (simp add: pools_ok_def)
  have "distinct (map st_ID (concat (map sn_pool (cl_nodes s)) @ map fst (cl_done s)))"
    by (rule submset_distinct_ids [OF sub]) (use ok(1) in \<open>simp add: tasks_ok_def\<close>)
  then show "distinct (map st_ID (map fst (cl_done s)))" "distinct (map st_ID (concat (map sn_pool (cl_nodes s))))"
    by (simp_all add: comp_def)
qed

section \<open>Each task runs at most once\<close>

text \<open>
  C11. However the nodes interleave and whatever fails, crashes or is lost, no task is handed to two
  nodes or twice to one, no two results are received for one task, and a task whose row is pending
  has never been handed out.
\<close>

theorem tasks_run_at_most_once:
  assumes "cluster_reachable s"
  shows "distinct (map st_ID (cl_handed s)) \<and> distinct (map (\<lambda>(task, p). st_ID task) (cl_done s)) \<and>
    distinct (map st_ID (concat (map sn_pool (cl_nodes s)))) \<and>
    (\<forall>t \<in> set (db_scrape_tasks (cl_db s)). st_Status t = TaskStatusPending \<longrightarrow> st_ID t \<notin> st_ID ` set (cl_handed s))"
proof -
  note ok = cluster_reachable_ok [OF assms]
  have "map (\<lambda>(task, p). st_ID task) (cl_done s) = map st_ID (map fst (cl_done s))" by (simp add: comp_def split_beta)
  with ids_distinct [OF ok] have "distinct (map (\<lambda>(task, p). st_ID task) (cl_done s))" by (simp only:)
  then show ?thesis using ids_distinct(2) [OF ok] cluster_okD(1) [OF ok] by (simp add: tasks_ok_def)
qed

text \<open>
  C12. What is stored is what happened: the status of a task is one of the four, a task is stored as
  complete or failed only when a node has run it with that outcome, and every stored report is the
  report of a task that ran.
\<close>

theorem stored_outcomes_true:
  assumes "cluster_reachable s"
  shows "(\<forall>t \<in> set (db_scrape_tasks (cl_db s)).
       st_Status t \<in> {TaskStatusPending, TaskStatusRunning, TaskStatusComplete, TaskStatusError} \<and>
       (st_Status t = TaskStatusComplete \<longrightarrow> (\<exists>(task, p) \<in> set (cl_done s). st_ID task = st_ID t \<and> isOk (Process p task))) \<and>
       (st_Status t = TaskStatusError \<longrightarrow> (\<exists>(task, p) \<in> set (cl_done s). st_ID task = st_ID t \<and> \<not> isOk (Process p task)))) \<and>
    (\<forall>row \<in> set (db_reports (cl_db s)). \<exists>rep now. row = reportRow rep now \<and>
       (\<exists>(task, p) \<in> set (cl_done s). \<exists>groups. Process p task = Inr (rep, groups)))"
proof -
  have ok: "stored_ok (cl_done s) (cl_db s)"
    using cluster_okD(3) [OF cluster_reachable_ok [OF assms]] by (rule outcomes_ok_parts(1))
  have "st_Status t \<in> {TaskStatusPending, TaskStatusRunning, TaskStatusComplete, TaskStatusError} \<and>
      (st_Status t = TaskStatusComplete \<longrightarrow> (\<exists>(task, p) \<in> set (cl_done s). st_ID task = st_ID t \<and> isOk (Process p task))) \<and>
      (st_Status t = TaskStatusError \<longrightarrow> (\<exists>(task, p) \<in> set (cl_done s). st_ID task = st_ID t \<and> \<not> isOk (Process p task)))"
    if "t \<in> set (db_scrape_tasks (cl_db s))" for t
  proof -
    from ok that consider "st_Status t \<in> {TaskStatusPending, TaskStatusRunning}" | "outcome_of (cl_done s) (st_ID t) (st_Status t)"
      by (auto simp: stored_ok_def)
    then show ?thesis by cases (auto simp: outcome_of_def TaskStatus_defs split: if_splits)
  qed
  with ok show ?thesis by (simp add: stored_ok_def report_of_def)
qed

section \<open>The producer's call as steps\<close>

lemma saveInBatches_steps:
  "saveInBatches saveScrapeTask attempts n b k batch xs (cl_db s) = Some (r, db') \<Longrightarrow>
   list_all (\<lambda>t. st_Status t = TaskStatusPending) (batch @ xs) \<Longrightarrow> cluster_steps s (s\<lparr>cl_db := db'\<rparr>)"
proof (induction xs arbitrary: b k batch s)
  case (Cons x xs)
  let ?batch = "batch @ [x]"
  show ?case
  proof (cases "rowsPerBatch \<le> length ?batch \<or> Suc k = n")
    case True
    then obtain err applied where sent: "sendBatch (attempts b) (length ?batch) 0 = Some (err, applied)"
      using Cons.prems(1) by (cases "sendBatch (attempts b) (length ?batch) 0") auto
    let ?s = "s\<lparr>cl_db := sent_batch saveScrapeTask ?batch applied (cl_db s)\<rparr>"
    have step: "cluster_step s ?s" using Cons.prems(2) by (intro produce [OF _ sent]) simp
    show ?thesis
    proof (cases err)
      case None
      with True sent Cons.prems(1)
      have "saveInBatches saveScrapeTask attempts n (Suc b) (Suc k) [] xs (cl_db ?s) = Some (r, db')"
        by (simp add: Let_def sent_batch_def)
      from Cons.IH [OF this] Cons.prems(2) have "cluster_steps ?s (s\<lparr>cl_db := db'\<rparr>)" by simp
      with step show ?thesis by (rule converse_rtranclp_into_rtranclp)
    next
      case (Some e)
      with True sent Cons.prems(1) have "db' = sent_batch saveScrapeTask ?batch applied (cl_db s)"
        by (simp add: Let_def sent_batch_def)
      with step show ?thesis by auto
    qed
  next
    case False
    with Cons.prems(1) have "saveInBatches saveScrapeTask attempts n b (Suc k) ?batch xs (cl_db s) = Some (r, db')"
      by (simp add: Let_def)
    from Cons.IH [OF this] Cons.prems(2) show ?thesis by simp
  qed
qed auto

lemma buildScrapeTasks_pending: "list_all (\<lambda>t. st_Status t = TaskStatusPending) (buildScrapeTasks clock sd)"
  by (auto simp: buildScrapeTasks_eq list_all_iff makeTask_def)

text \<open>A run of the producer is a sequence of steps, between which the other nodes can act.\<close>

lemma SaveScrapeTasks_steps:
  assumes save: "SaveScrapeTasks lk attempts now (buildScrapeTasks clock sd) (cl_db s) = Some (r, db')"
  shows "cluster_steps s (s\<lparr>cl_db := db'\<rparr>)"
proof -
  let ?clean = "cleanupScrapeTasks (now - scrapeTaskCleanupRetention)"
  obtain r1 db1 where clean: "exec lk ?clean (cl_db s) = (r1, db1)" by (meson surj_pair)
  have step: "cluster_step s (s\<lparr>cl_db := db1\<rparr>)" by (rule cleanup [OF clean])
  from save clean consider "db' = db1"
    | "saveInBatches saveScrapeTask attempts (length (buildScrapeTasks clock sd)) 0 0 [] (buildScrapeTasks clock sd) (cl_db (s\<lparr>cl_db := db1\<rparr>)) = Some (r, db')"
    by (auto simp: SaveScrapeTasks_def split: sum.splits if_splits)
  then show ?thesis
  proof cases
    case 2
    from saveInBatches_steps [OF this] buildScrapeTasks_pending have "cluster_steps (s\<lparr>cl_db := db1\<rparr>) (s\<lparr>cl_db := db'\<rparr>)" by simp
    with step show ?thesis by (rule converse_rtranclp_into_rtranclp)
  qed (use step in auto)
qed

section \<open>Tasks that are lost\<close>

text \<open>
  A task that is in no pool, whose result has not come in and whose row (if it is still there) is
  running: its node has crashed or given it up, or the connection was lost when it was handed out.
\<close>

definition running_row :: "int \<Rightarrow> DB \<Rightarrow> bool" where
  "running_row k db \<longleftrightarrow> k < db_scrape_tasks_seq db \<and> (\<forall>t \<in> set (db_scrape_tasks db). st_ID t = k \<longrightarrow> st_Status t = TaskStatusRunning)"

definition stranded :: "int \<Rightarrow> Cluster \<Rightarrow> bool" where
  "stranded k s \<longleftrightarrow> running_row k (cl_db s) \<and> (\<forall>n \<in> set (cl_nodes s). k \<notin> st_ID ` set (sn_pool n)) \<and>
     k \<notin> (\<lambda>(task, p). st_ID task) ` set (cl_done s)"

lemma running_row_table: "task_table db' = task_table db \<Longrightarrow> running_row k db' = running_row k db"
  by (simp add: task_table_def running_row_def)

lemma running_row_exec: "exec lk f db = (r, db') \<Longrightarrow> running_row k db \<Longrightarrow> running_row k (f db) \<Longrightarrow> running_row k db'"
  by (cases rule: exec_cases [of lk f db]) (auto simp: running_row_def)

lemma running_row_update:
  assumes "running_row k db" and "UpdateTaskStatuses lk pref updates db = (r, db')" and "\<forall>u \<in> set updates. tu_ID u \<noteq> k"
  shows "running_row k db'"
proof (cases "updates = []")
  case False
  with assms(2) have "exec lk (\<lambda>db. db\<lparr>db_scrape_tasks := map (\<lambda>t. t\<lparr>st_Status := updated_status pref updates t\<rparr>) (db_scrape_tasks db)\<rparr>) db = (r, db')"
    by (simp add: UpdateTaskStatuses_def)
  then show ?thesis
  proof (rule running_row_exec [OF _ assms(1)])
    have "updated_status pref updates t = TaskStatusRunning" if "t \<in> set (db_scrape_tasks db)" "st_ID t = k" for t
      using that assms(1,3) updated_status_cases [of pref updates t] by (auto simp: running_row_def)
    then show "running_row k (db\<lparr>db_scrape_tasks := map (\<lambda>t. t\<lparr>st_Status := updated_status pref updates t\<rparr>) (db_scrape_tasks db)\<rparr>)"
      using assms(1) by (auto simp: running_row_def)
  qed
qed (use assms in \<open>simp add: UpdateTaskStatuses_def\<close>)

lemma running_row_get:
  assumes "running_row k db" and "GetScrapeTasks lk locked rank limit db = (r, db')" and "task_ids_ok db"
  shows "running_row k db'" and "k \<notin> st_ID ` set (taken r)"
proof -
  have "running_row k (db\<lparr>db_scrape_tasks := map (start_task ids) (db_scrape_tasks db)\<rparr>)" "running_row k (rollback db w)"
    if "db_scrape_tasks_seq w = db_scrape_tasks_seq db" for ids w
    using assms(1) that by (auto simp: running_row_def start_task_def)
  with assms(1,2) show "running_row k db'"
    by (cases "lk_acquire lk"; cases "lk_end lk"; auto simp: GetScrapeTasks_def query_def getScrapeTasks_stmt_def Let_def)
  show "k \<notin> st_ID ` set (taken r)"
  proof (cases r)
    case (Inr tasks)
    note g = GetScrapeTasks_Inr [OF assms(2) [unfolded Inr]]
    have "st_ID t \<noteq> k" if "t \<in> set tasks" for t
    proof -
      from that obtain t0 where t0: "t0 \<in> set (db_scrape_tasks db)" "st_ID t = st_ID t0" "st_ID t0 \<in> started_ids locked limit db"
        unfolding g(2) by (auto simp: g(1) start_task_def split: if_splits)
      with started_pending(1) [OF assms(3) t0(1,3)] assms(1) show ?thesis by (auto simp: running_row_def TaskStatus_defs)
    qed
    with Inr show ?thesis by (auto simp: taken_def)
  qed (simp add: taken_def)
qed

lemma running_row_produce: "running_row k db \<Longrightarrow> running_row k (sent_batch saveScrapeTask batch applied db)"
  by (auto simp: running_row_def sent_batch_def apply_saveScrapeTask numbered_def in_set_enumerate_eq)

lemma stranded_node:
  assumes "stranded k s" and "cl_nodes s0 = cl_nodes s" and "running_row k (cl_db s0)"
    and "k \<notin> st_ID ` set (sn_pool n)" and "k \<notin> (\<lambda>(task, p). st_ID task) ` set (cl_done s0)"
  shows "stranded k (set_node i n s0)"
  using assms set_update_subset_insert [of "cl_nodes s" i n] by (fastforce simp: stranded_def)

lemma strandedD:
  assumes "stranded k s"
  shows "running_row k (cl_db s)" "i < length (cl_nodes s) \<Longrightarrow> k \<notin> st_ID ` set (sn_pool (cl_nodes s ! i))"
    "k \<notin> (\<lambda>(task, p). st_ID task) ` set (cl_done s)"
  using assms by (auto simp: stranded_def)

lemma outcome_ran: "outcome_of fin i st \<Longrightarrow> i \<in> (\<lambda>(task, p). st_ID task) ` set fin"
  unfolding outcome_of_def by force

lemma stranded_step: "cluster_step s s' \<Longrightarrow> cluster_ok s \<Longrightarrow> stranded k s \<Longrightarrow> stranded k s'"
proof (induction rule: cluster_step.induct)
  case (cleanup lk before s r db)
  note parts = strandedD [OF cleanup.prems(2)]
  have "running_row k db"
    by (rule running_row_exec [OF cleanup.hyps parts(1)]) (use parts(1) in \<open>auto simp: running_row_def cleanupScrapeTasks_def\<close>)
  with cleanup.prems(2) show ?case by (simp add: stranded_def)
next
  case (produce batch attempts err applied s)
  then show ?case using running_row_produce by (simp add: stranded_def)
next
  case (tick i s n lk locked rank r db)
  note parts = strandedD [OF tick.prems(2)]
  have ids: "task_ids_ok (cl_db s)" using tick.prems(1) by (simp add: cluster_ok_def tasks_ok_def)
  note got = running_row_get [OF parts(1) tick.hyps(4) ids]
  show ?case
    by (rule stranded_node [OF tick.prems(2)]) (use got parts(2) [OF tick.hyps(1)] parts(3) tick.hyps(2) in auto)
next
  case (receive i s n xs task ys p)
  note parts = strandedD [OF receive.prems(2)]
  show ?case
    by (rule stranded_node [OF receive.prems(2)])
      (use parts(1,3) parts(2) [OF receive.hyps(1)] receive.hyps(3) receive.hyps(2) in auto)
next
  case (give_up i s n xs task ys)
  note parts = strandedD [OF give_up.prems(2)]
  show ?case
    by (rule stranded_node [OF give_up.prems(2)])
      (use parts(1,3) parts(2) [OF give_up.hyps(1)] give_up.hyps(3) give_up.hyps(2) in auto)
next
  case (save_reports i s n least lk st pm uid now r db)
  note parts = strandedD [OF save_reports.prems(2)]
  have "running_row k db" using running_row_table [OF SaveReports_keeps_tasks [OF save_reports.hyps(5)]] parts(1) by simp
  then show ?case
    by (intro stranded_node [OF save_reports.prems(2)]) (use parts(3) parts(2) [OF save_reports.hyps(1)] save_reports.hyps(2) in auto)
next
  case (save_statuses i s n least lk pref r db)
  note parts = strandedD [OF save_statuses.prems(2)]
  have "batch_ok (cl_done s) (fst (sn_consumer n))"
    using save_statuses outcomes_ok_parts(2) by (simp add: cluster_ok_def)
  then have "\<forall>u \<in> set (statusBatch (fst (sn_consumer n))). tu_ID u \<noteq> k"
    using parts(3) outcome_ran by (auto simp: batch_ok_def list_all_iff simp del: image_iff)
  note upd = running_row_update [OF parts(1) save_statuses.hyps(5) this]
  show ?case
    by (rule stranded_node [OF save_statuses.prems(2)]) (use upd parts(3) parts(2) [OF save_statuses.hyps(1)] save_statuses.hyps(2) in auto)
next
  case (save_groups i s n least lk attempts now r db)
  note parts = strandedD [OF save_groups.prems(2)]
  have "running_row k db" using running_row_table [OF SaveOrUpdateTargetGroups_keeps(1) [OF save_groups.hyps(5)]] parts(1) by simp
  then show ?case
    by (intro stranded_node [OF save_groups.prems(2)]) (use parts(3) parts(2) [OF save_groups.hyps(1)] save_groups.hyps(2) in auto)
next
  case (leadership i s n v)
  note parts = strandedD [OF leadership.prems(2)]
  show ?case
    by (rule stranded_node [OF leadership.prems(2)]) (use parts(1,3) parts(2) [OF leadership.hyps(1)] leadership.hyps(2) in auto)
next
  case (crash i s v)
  note parts = strandedD [OF crash.prems(2)]
  show ?case by (rule stranded_node [OF crash.prems(2)]) (use parts(1,3) in \<open>auto simp: startNode_def\<close>)
next
  case (elsewhere db s)
  then show ?case by (simp add: stranded_def running_row_def)
qed

text \<open>Such a task never runs again: its row stays running until the cleanup of the producer deletes it.\<close>

lemma stranded_forever:
  assumes "cluster_reachable s" and "stranded k s" and "cluster_steps s s'"
  shows "stranded k s'"
proof -
  from assms(3) have "stranded k s' \<and> cluster_ok s'"
    by (induction rule: rtranclp_induct) (use assms(1,2) cluster_reachable_ok stranded_step cluster_step_ok in blast)+
  then show ?thesis ..
qed

text \<open>A task of a node has no other trace than its running row, so without its node it is stranded.\<close>

lemma pool_task_strands:
  assumes ok: "cluster_ok s" and i: "i < length (cl_nodes s)" and task: "task \<in> set (sn_pool (cl_nodes s ! i))"
  shows "stranded (st_ID task) (set_node i (startNode v) s)"
proof -
  let ?k = "st_ID task" and ?pools = "\<lambda>ns. map st_ID (concat (map sn_pool ns))"
  let ?before = "take i (cl_nodes s)" and ?after = "drop (Suc i) (cl_nodes s)"
  have split: "cl_nodes s = ?before @ (cl_nodes s ! i) # ?after" by (rule id_take_nth_drop [OF i])
  have held: "mset (concat (map sn_pool (cl_nodes s)) @ map fst (cl_done s)) \<subseteq># mset (cl_handed s)"
    using cluster_okD(2) [OF ok] by (simp add: pools_ok_def)
  have "distinct (?pools (cl_nodes s) @ map (\<lambda>x. st_ID (fst x)) (cl_done s))"
    using submset_distinct_ids [OF held] cluster_okD(1) [OF ok] by (simp add: tasks_ok_def comp_def)
  then have "distinct (?pools (?before @ (cl_nodes s ! i) # ?after) @ map (\<lambda>x. st_ID (fst x)) (cl_done s))"
    using split by argo
  moreover have "?k \<in> set (map st_ID (sn_pool (cl_nodes s ! i)))" using task by simp
  ultimately have apart: "?k \<notin> set (?pools ?before)" "?k \<notin> set (?pools ?after)" "?k \<notin> (\<lambda>x. st_ID (fst x)) ` set (cl_done s)"
    by (auto simp del: set_concat)
  have new: "cl_nodes (set_node i (startNode v) s) = ?before @ startNode v # ?after"
    using i by (simp add: set_node_def upd_conv_take_nth_drop)
  have "task \<in> set (concat (map sn_pool (cl_nodes s)))" using i task by auto
  then have handed: "task \<in> set (cl_handed s)" using mset_subset_eqD [OF held, of task] by simp
  have "st_Status t = TaskStatusRunning" if t: "t \<in> set (db_scrape_tasks (cl_db s))" "st_ID t = ?k" for t
  proof -
    have "st_Status t \<noteq> TaskStatusPending" using cluster_okD(1) [OF ok] t handed by (force simp: tasks_ok_def)
    moreover have "\<not> outcome_of (cl_done s) ?k (st_Status t)" using apart(3) outcome_ran by (force simp: split_beta)
    ultimately show ?thesis
      using outcomes_ok_parts(1) [OF cluster_okD(3) [OF ok]] t by (auto simp: stored_ok_def)
  qed
  then have "running_row ?k (cl_db s)" using cluster_okD(1) [OF ok] handed by (auto simp: running_row_def tasks_ok_def)
  moreover have "\<forall>n \<in> set (cl_nodes (set_node i (startNode v) s)). ?k \<notin> st_ID ` set (sn_pool n)"
    using apart(1,2) unfolding new by (auto simp: startNode_def)
  ultimately show ?thesis using apart(3) by (simp add: stranded_def split_beta)
qed

text \<open>
  C14. A crash loses the tasks of the node for good: a task that was in its pool when it died is never in
  a pool again, no result for it ever comes in, and its row stays running until the cleanup deletes it,
  whatever the other nodes and the restarted one do afterwards.
\<close>

theorem crashed_tasks_lost:
  assumes "cluster_reachable s" and "i < length (cl_nodes s)" and "task \<in> set (sn_pool (cl_nodes s ! i))"
    and "cluster_steps (set_node i (startNode v) s) s'"
  shows "(\<forall>n \<in> set (cl_nodes s'). st_ID task \<notin> st_ID ` set (sn_pool n)) \<and>
    st_ID task \<notin> (\<lambda>(task, p). st_ID task) ` set (cl_done s') \<and>
    (\<forall>t \<in> set (db_scrape_tasks (cl_db s')). st_ID t = st_ID task \<longrightarrow> st_Status t = TaskStatusRunning)"
proof -
  have "cluster_step s (set_node i (startNode v) s)" by (rule crash [OF assms(2)])
  with assms(1) have "cluster_reachable (set_node i (startNode v) s)"
    unfolding cluster_reachable_def by (meson rtranclp.rtrancl_into_rtrancl)
  from stranded_forever [OF this pool_task_strands [OF cluster_reachable_ok [OF assms(1)] assms(2,3)] assms(4)]
  show ?thesis by (simp add: stranded_def running_row_def)
qed

section \<open>A small run\<close>

abbreviation started :: "ScrapeTask \<Rightarrow> ScrapeTask" where
  "started t \<equiv> t\<lparr>st_Status := TaskStatusRunning\<rparr>"

text \<open>One node, one task: it is stored, taken, run by a processor whose client never answers, and marked as failed.\<close>

definition created_task :: ScrapeTask where
  "created_task = (sample_task 0)\<lparr>st_ID := 1\<rparr>"

definition produced_cluster :: Cluster where
  "produced_cluster = (startCluster [False])\<lparr>cl_db := empty_db\<lparr>db_scrape_tasks := [created_task], db_scrape_tasks_seq := 2\<rparr>\<rparr>"

definition taking_cluster :: Cluster where
  "taking_cluster = \<lparr>cl_db = empty_db\<lparr>db_scrape_tasks := [started created_task], db_scrape_tasks_seq := 2\<rparr>,
     cl_nodes = [\<lparr>sn_consumer = handleTaskTick (failure (Inr [started created_task])) [started created_task] (NewTaskConsumer False, []),
       sn_pool = [started created_task]\<rparr>], cl_handed = [started created_task], cl_done = []\<rparr>"

definition failed_cluster :: Cluster where
  "failed_cluster = taking_cluster\<lparr>
     cl_nodes := [(cl_nodes taking_cluster ! 0)\<lparr>sn_pool := [],
       sn_consumer := (addResult (process_task failing_processor (started created_task)) (fst (sn_consumer (cl_nodes taking_cluster ! 0))),
         snd (sn_consumer (cl_nodes taking_cluster ! 0)))\<rparr>],
     cl_done := [(started created_task, failing_processor)]\<rparr>"

definition stored_cluster :: Cluster where
  "stored_cluster = failed_cluster\<lparr>
     cl_nodes := [(cl_nodes failed_cluster ! 0)\<lparr>sn_consumer := flushStatuses (failure (Inr ())) 1 (sn_consumer (cl_nodes failed_cluster ! 0))\<rparr>],
     cl_db := empty_db\<lparr>db_scrape_tasks := [created_task\<lparr>st_Status := TaskStatusError\<rparr>], db_scrape_tasks_seq := 2\<rparr>\<rparr>"

lemma failing_Process: "Process failing_processor (started created_task) = Inl (ErrNew ''failed to get target metrics'')"
  by (simp add: Process_def processAddress_def failing_processor_def created_task_def sample_task_def Let_def)

lemmas created_simps = created_task_def sample_task_def

lemma produced_step: "cluster_step (startCluster [False]) produced_cluster"
proof -
  have sent: "sendBatch (quiet 0) (length [sample_task 0]) 0 = Some (None, True)"
    by (subst sendBatch.simps) (simp add: quiet_def)
  have "produced_cluster = (startCluster [False])\<lparr>cl_db := sent_batch saveScrapeTask [sample_task 0] True (cl_db (startCluster [False]))\<rparr>"
    by (simp add: produced_cluster_def sent_batch_def startCluster_def apply_batch_def saveScrapeTask_def created_task_def empty_db_def)
  moreover have "list_all (\<lambda>t. st_Status t = TaskStatusPending) [sample_task 0]" by (simp add: sample_task_def)
  ultimately show ?thesis using cluster_step.produce [OF _ sent] by metis
qed

lemma taking_step: "cluster_step produced_cluster taking_cluster"
proof -
  have get: "GetScrapeTasks good_link {} (\<lambda>_. 0) tasksPerRequest (cl_db produced_cluster)
      = (Inr [started created_task], empty_db\<lparr>db_scrape_tasks := [started created_task], db_scrape_tasks_seq := 2\<rparr>)"
    by (simp add: GetScrapeTasks_def getScrapeTasks_stmt_def picked_tasks_def start_task_def Let_def produced_cluster_def
        created_simps tasksPerRequest_def)
  have "\<not> IsLeader (fst (sn_consumer (cl_nodes produced_cluster ! 0)))" and "0 < length (cl_nodes produced_cluster)"
    by (simp_all add: produced_cluster_def startCluster_def startNode_def NewTaskConsumer_def IsLeader_def)
  from cluster_step.tick [OF this(2) refl this(1) get] show ?thesis
    by (simp add: produced_cluster_def taking_cluster_def startCluster_def startNode_def set_node_def taken_def)
qed

lemma failed_step: "cluster_step taking_cluster failed_cluster"
proof -
  have "sn_pool (cl_nodes taking_cluster ! 0) = [] @ started created_task # []" and "0 < length (cl_nodes taking_cluster)"
    by (simp_all add: taking_cluster_def)
  from cluster_step.receive [OF this(2) refl this(1), of failing_processor] show ?thesis
    by (simp add: failed_cluster_def set_node_def taking_cluster_def)
qed

lemma failed_statuses: "statusBatch (fst (sn_consumer (cl_nodes failed_cluster ! 0))) = [\<lparr>tu_ID = 1, tu_Status = TaskStatusError\<rparr>]"
proof -
  have "process_task failing_processor (started created_task) =
      \<lparr>wr_taskID = 1, wr_stat = None, wr_targetGroups = [], wr_err = Some (ErrNew ''failed to get target metrics'')\<rparr>"
    by (simp add: process_task_def failing_Process) (simp add: created_task_def)
  then show ?thesis
    by (simp add: failed_cluster_def taking_cluster_def handleTaskTick_def addResult_def NewTaskConsumer_def split_beta)
qed

lemma stored_step: "cluster_step failed_cluster stored_cluster"
proof -
  have upd: "UpdateTaskStatuses good_link (\<lambda>_. 0) (statusBatch (fst (sn_consumer (cl_nodes failed_cluster ! 0)))) (cl_db failed_cluster)
      = (Inr (), cl_db stored_cluster)"
    unfolding failed_statuses
    by (simp add: UpdateTaskStatuses_def updated_status_def) (simp add: stored_cluster_def failed_cluster_def taking_cluster_def
        created_task_def)
  have "0 < length (cl_nodes failed_cluster)" "1 \<le> length (statusBatch (fst (sn_consumer (cl_nodes failed_cluster ! 0))))"
    unfolding failed_statuses by (simp_all add: failed_cluster_def)
  from cluster_step.save_statuses [OF this(1) refl order_refl this(2) upd] show ?thesis
    by (simp add: stored_cluster_def set_node_def) (simp add: failed_cluster_def taking_cluster_def)
qed

lemma reachable_step: "cluster_reachable s \<Longrightarrow> cluster_step s s' \<Longrightarrow> cluster_reachable s'"
  unfolding cluster_reachable_def by (meson rtranclp.rtrancl_into_rtrancl)

lemma sample_reachable:
  "cluster_reachable produced_cluster" "cluster_reachable failed_cluster" "cluster_reachable stored_cluster"
proof -
  have "cluster_reachable (startCluster [False])" unfolding cluster_reachable_def by blast
  from reachable_step [OF this produced_step] show first: "cluster_reachable produced_cluster" .
  from reachable_step [OF reachable_step [OF first taking_step] failed_step] show second: "cluster_reachable failed_cluster" .
  from reachable_step [OF second stored_step] show "cluster_reachable stored_cluster" .
qed

lemma taking_reachable: "cluster_reachable taking_cluster"
  by (rule reachable_step [OF sample_reachable(1) taking_step])

theorem tasks_run_at_most_once_witness:
  "cluster_reachable failed_cluster \<and> distinct (map st_ID (cl_handed failed_cluster)) \<and> cl_done failed_cluster \<noteq> []"
  using tasks_run_at_most_once [OF sample_reachable(2)] sample_reachable(2) by (simp add: failed_cluster_def)

theorem stored_outcomes_true_witness:
  "cluster_reachable stored_cluster \<and> created_task\<lparr>st_Status := TaskStatusError\<rparr> \<in> set (db_scrape_tasks (cl_db stored_cluster)) \<and>
   (\<exists>(task, p) \<in> set (cl_done stored_cluster). st_ID task = 1 \<and> \<not> isOk (Process p task))"
proof -
  have row: "created_task\<lparr>st_Status := TaskStatusError\<rparr> \<in> set (db_scrape_tasks (cl_db stored_cluster))"
    by (simp add: stored_cluster_def)
  from bspec [OF conjunct1 [OF stored_outcomes_true [OF sample_reachable(3)]] this]
  have "\<exists>(task, p) \<in> set (cl_done stored_cluster). st_ID task = 1 \<and> \<not> isOk (Process p task)"
    by (simp add: created_task_def)
  with row sample_reachable(3) show ?thesis by blast
qed

theorem crashed_tasks_lost_witness:
  "sn_pool (cl_nodes taking_cluster ! 0) = [started created_task] \<and>
   (\<exists>s'. cluster_steps (set_node 0 (startNode False) taking_cluster) s' \<and> cl_nodes s' = [startNode True] \<and>
     db_scrape_tasks (cl_db s') = [started created_task] \<and> (\<forall>t \<in> set (db_scrape_tasks (cl_db s')). st_Status t = TaskStatusRunning))"
proof -
  let ?s = "set_node 0 (startNode False) taking_cluster" and ?s' = "set_node 0 (startNode True) (set_node 0 (startNode False) taking_cluster)"
  have pool: "sn_pool (cl_nodes taking_cluster ! 0) = [started created_task]" "0 < length (cl_nodes taking_cluster)"
    by (simp_all add: taking_cluster_def)
  have "cluster_step ?s ?s'" by (rule cluster_step.crash) (simp add: taking_cluster_def set_node_def)
  then have run: "cluster_steps ?s ?s'" by blast
  have "started created_task \<in> set (sn_pool (cl_nodes taking_cluster ! 0))" by (simp add: pool(1))
  note lost = crashed_tasks_lost [OF taking_reachable pool(2) this run]
  have shape: "cl_nodes ?s' = [startNode True]" "db_scrape_tasks (cl_db ?s') = [started created_task]"
    by (simp_all add: set_node_def taking_cluster_def)
  have "\<forall>t \<in> set (db_scrape_tasks (cl_db ?s')). st_Status t = TaskStatusRunning"
    using lost shape(2) by simp
  with pool(1) run shape show ?thesis by blast
qed

end
