(* ===== verification/Delivery.thy ===== *)
theory Delivery
  imports Reports
begin

text \<open>
  From a report to the broker: what \<open>SaveReports\<close> (\<open>storage/postgres/reports.go\<close>) puts into the outbox,
  the relay (\<open>outbox/relay.go\<close>) delivers, whatever else waits in the outbox. A flush takes at most a
  batch, oldest first, so the number of flushes depends on the backlog.
\<close>

section \<open>What a run keeps\<close>

context outbox_store
begin

lemma relay_messages_content:
  assumes "relay_ok rl s" and "\<forall>m \<in> set ms. (msg_ID m, kafkaMessage m) \<in> content s"
  shows "content (foldl (relay_message ops rl) s ms) = content s"
  using assms
proof (induction ms arbitrary: s)
  case (Cons m ms)
  with relay_message_ok [of rl s m] show ?case by simp
qed simp

lemma flush_content:
  assumes ok: "relay_ok rl s"
  shows "content (flush ops rl s) = content s"
proof -
  obtain r s1 where f: "op_fetch ops (batchSize rl) s = (r, s1)" by force
  from ok have "inv s" by (simp add: relay_ok_def)
  note f' = fetch [OF f this]
  show ?thesis
  proof (cases r)
    case (Inr ms)
    with ok f' have s1: "relay_ok rl s1" by (auto simp: relay_ok_def subset_iff)
    from Inr f f' fetched [of "batchSize rl" s ms s1] \<open>inv s\<close>
    have "\<forall>m \<in> set ms. (msg_ID m, kafkaMessage m) \<in> content s1" by auto
    from relay_messages_content [OF s1 this] f' Inr f show ?thesis by (simp add: flush_def)
  qed (use f f' in \<open>simp add: flush_def\<close>)
qed

lemma Run_content: "relay_ok rl s \<Longrightarrow> content (Run ops rl evs s) = content s"
proof (induction evs arbitrary: s)
  case (Cons ev evs)
  then show ?case by (cases ev) (simp_all add: flush_ok flush_content)
qed simp

end

section \<open>What no failure can do to a row\<close>

lemma Run_rows:
  assumes claim: "\<And>now ids r. Q r \<Longrightarrow> Q (claim now ids r)"
    and sent: "\<And>now r. Q r \<Longrightarrow> Q (r\<lparr>ob_status := OutboxStatusSent, ob_last_error := [], ob_updated_at := now\<rparr>)"
    and failed: "\<And>now err r. Q r \<Longrightarrow> Q (markFailed_row now err (maxRetries rl) r)"
  shows "list_all Q (db_outbox (w_db w)) \<Longrightarrow> list_all Q (db_outbox (w_db (Run (pg_ops en) rl evs w)))"
proof (induction evs arbitrary: w)
  case (Cons ev evs)
  have exec: "list_all Q (db_outbox (snd (exec lk (on_row i f) db)))"
    if "list_all Q (db_outbox db)" "\<And>r. Q r \<Longrightarrow> Q (f r)" for lk i f db
    using that exec_on_row [of lk i f db] by (cases "exec lk (on_row i f) db") (auto simp: on_row_def list_all_iff)
  have step: "list_all Q (db_outbox (w_db (relay_message (pg_ops en) rl w m)))" if "list_all Q (db_outbox (w_db w))" for w m
    using that
    by (auto simp: relay_message_def pg_ops_def WriteMessages_def on_db_def Let_def MarkOutboxMessageSent_def
        MarkOutboxMessageFailed_def split: sum.splits prod.splits)
      (metis exec sent failed snd_conv)+
  then have steps: "list_all Q (db_outbox (w_db (foldl (relay_message (pg_ops en) rl) w ms)))" if "list_all Q (db_outbox (w_db w))" for w ms
    using that by (rule foldl_invariant [where I = "\<lambda>w. list_all Q (db_outbox (w_db w))", rotated])
  have "list_all Q (db_outbox (w_db (flush (pg_ops en) rl w)))"
  proof -
    obtain r db' where f: "FetchPendingOutboxMessages (en_link en (w_calls w)) (en_now en (w_calls w)) (en_locked en (w_calls w))
        (en_rank en (w_calls w)) (batchSize rl) (w_db w) = (r, db')" by force
    then have "list_all Q (db_outbox db')"
      by (cases rule: Fetch_cases) (use Cons.prems claim in \<open>auto simp: fetch_stmt_eq Let_def list_all_iff\<close>)
    with f steps show ?thesis by (cases r) (simp_all add: flush_def pg_ops_def on_db_def)
  qed
  with Cons show ?case by (cases ev) simp_all
qed simp

text \<open>A row is live, sent, or was given up after its last allowed failure.\<close>

definition row_tracked :: "int \<Rightarrow> OutboxRow \<Rightarrow> bool" where
  "row_tracked maxTries r \<longleftrightarrow> row_live r \<or> ob_status r = OutboxStatusSent \<or>
     (ob_status r = OutboxStatusFailed \<and> maxTries \<le> ob_retry_count r)"

lemma Run_tracked:
  assumes "list_all (\<lambda>r. ob_id r = i \<longrightarrow> row_tracked (maxRetries rl) r) (db_outbox (w_db w))"
  shows "list_all (\<lambda>r. ob_id r = i \<longrightarrow> row_tracked (maxRetries rl) r) (db_outbox (w_db (Run (pg_ops en) rl evs w)))"
  by (rule Run_rows [OF _ _ _ assms]) (auto simp: row_tracked_def row_live_def claim_def markFailed_row_def)

section \<open>Flushes make progress\<close>

definition backlog :: "DB \<Rightarrow> nat" where
  "backlog db = length (filter row_live (db_outbox db))"

lemma backlog_statuses:
  "backlog db = length (filter (\<lambda>(i, st). st = OutboxStatusPending \<or> st = OutboxStatusProcessing) (map row_status (db_outbox db)))"
  by (simp add: backlog_def filter_map comp_def row_status_def row_live_def [abs_def])

text \<open>The row is sent; the row is sent or can be fetched at any time from now on.\<close>

definition row_sent :: "int \<Rightarrow> DB \<Rightarrow> bool" where
  "row_sent i db \<longleftrightarrow> list_all (\<lambda>r. ob_id r = i \<longrightarrow> ob_status r = OutboxStatusSent) (db_outbox db)"

definition row_ready :: "Env \<Rightarrow> int \<Rightarrow> DB \<Rightarrow> bool" where
  "row_ready en i db \<longleftrightarrow> list_all (\<lambda>r. ob_id r = i \<longrightarrow>
     ob_status r = OutboxStatusSent \<or> (\<forall>c. outbox_due (en_now en c) r)) (db_outbox db)"

lemma row_sent_statuses: "row_sent i db \<longleftrightarrow> list_all (\<lambda>(j, st). j = i \<longrightarrow> st = OutboxStatusSent) (map row_status (db_outbox db))"
  by (simp add: row_sent_def list.pred_map comp_def row_status_def)

lemma backlog_0_sent: "backlog db = 0 \<Longrightarrow> row_ready en i db \<Longrightarrow> row_sent i db"
  using due_live by (fastforce simp: backlog_def row_ready_def row_sent_def list_all_iff filter_empty_conv)

text \<open>Rows that a reliable flush does not claim stay exactly as they are.\<close>

lemma relay_messages_others:
  assumes "reliable en" and "msg_ID ` set ms \<subseteq> ids"
  shows "filter (\<lambda>r. ob_id r \<notin> ids) (db_outbox (w_db (foldl (relay_message (pg_ops en) rl) w ms))) =
    filter (\<lambda>r. ob_id r \<notin> ids) (db_outbox (w_db w))"
  using assms(2)
proof (induction ms arbitrary: w)
  case (Cons m ms)
  have other: "filter (\<lambda>r. ob_id r \<notin> ids) (map (\<lambda>r. if ob_id r = i then f r else r) rows) = filter (\<lambda>r. ob_id r \<notin> ids) rows"
    if "i \<in> ids" "\<And>r. ob_id (f r) = ob_id r" for i f and rows :: "OutboxRow list"
    using that by (induction rows) auto
  have "filter (\<lambda>r. ob_id r \<notin> ids) (db_outbox (w_db (relay_message (pg_ops en) rl w m))) = filter (\<lambda>r. ob_id r \<notin> ids) (db_outbox (w_db w))"
    using assms(1) Cons.prems
    by (simp add: reliable_def relay_message_def pg_ops_def WriteMessages_def Let_def on_db_def MarkOutboxMessageSent_def on_row_def other)
  with Cons show ?case by simp
qed simp

lemma flush_others:
  assumes rel: "reliable en" and "0 < batchSize rl"
    and ids: "ids = claimed_ids (en_now en (w_calls w)) {} (batchSize rl) (w_db w)"
  shows "filter (\<lambda>r. ob_id r \<notin> ids) (db_outbox (w_db (flush (pg_ops en) rl w))) = filter (\<lambda>r. ob_id r \<notin> ids) (db_outbox (w_db w))"
proof -
  let ?now = "en_now en (w_calls w)" and ?db = "w_db w"
  let ?stmt = "fetchPendingOutboxMessages_stmt ?now {} (en_rank en (w_calls w)) (batchSize rl) ?db"
  define ms where "ms = map message_of (sort_key (\<lambda>r. en_rank en (w_calls w) (ob_id r))
    (map (claim ?now ids) (claimed_rows ?now {} (batchSize rl) ?db)))"
  have ms: "fst ?stmt = Inr ms" "msg_ID ` set ms \<subseteq> ids"
    unfolding ms_def ids fetched_messages by (auto simp: claimed_rows_def message_of_def claim_def)
  define w1 where "w1 = w\<lparr>w_db := snd ?stmt, w_calls := Suc (w_calls w)\<rparr>"
  have "flush (pg_ops en) rl w = foldl (relay_message (pg_ops en) rl) w1 ms"
    using rel ms(1) \<open>0 < batchSize rl\<close>
    by (cases ?stmt) (simp add: flush_def pg_ops_def on_db_def FetchPendingOutboxMessages_def reliable_def w1_def)
  moreover have "filter (\<lambda>r. ob_id r \<notin> ids) (map (claim ?now ids) rows) = filter (\<lambda>r. ob_id r \<notin> ids) rows" for rows
    by (induction rows) (auto simp: claim_def)
  ultimately show ?thesis
    using relay_messages_others [OF rel ms(2), of rl w1] by (simp add: w1_def fetch_stmt_eq Let_def ids)
qed

lemma flush_ready:
  assumes "reliable en" and "0 < batchSize rl" and ready: "row_ready en i (w_db w)"
  shows "row_ready en i (w_db (flush (pg_ops en) rl w))"
  unfolding row_ready_def list_all_iff
proof (intro ballI impI)
  fix r assume r: "r \<in> set (db_outbox (w_db (flush (pg_ops en) rl w)))" "ob_id r = i"
  let ?ids = "claimed_ids (en_now en (w_calls w)) {} (batchSize rl) (w_db w)"
  show "ob_status r = OutboxStatusSent \<or> (\<forall>c. outbox_due (en_now en c) r)"
  proof (cases "ob_id r \<in> ?ids")
    case True
    have "row_status r \<in> set (map row_status (db_outbox (w_db (flush (pg_ops en) rl w))))" using r(1) by simp
    then show ?thesis unfolding flush_statuses [OF assms(1,2) refl] using True by (auto simp: row_status_def)
  next
    case False
    with r(1) have "r \<in> set (filter (\<lambda>r. ob_id r \<notin> ?ids) (db_outbox (w_db (flush (pg_ops en) rl w))))" by simp
    then have "r \<in> set (db_outbox (w_db w))" unfolding flush_others [OF assms(1,2) refl] by simp
    with ready r(2) show ?thesis by (auto simp: row_ready_def list_all_iff)
  qed
qed

lemma flush_sent:
  assumes "reliable en" and "0 < batchSize rl" and "row_sent i (w_db w)"
  shows "row_sent i (w_db (flush (pg_ops en) rl w))"
  unfolding row_sent_statuses flush_statuses [OF assms(1,2) refl]
  using assms(3) by (auto simp: row_sent_def list_all_iff)

lemma flush_progress:
  assumes rel: "reliable en" and ok: "outbox_ids_ok (w_db w)" and batch: "0 < batchSize rl"
    and ready: "row_ready en i (w_db w)"
  shows "row_sent i (w_db (flush (pg_ops en) rl w)) \<or>
    backlog (w_db (flush (pg_ops en) rl w)) + nat (batchSize rl) \<le> backlog (w_db w)"
proof -
  let ?now = "en_now en (w_calls w)" and ?db = "w_db w" and ?n = "nat (batchSize rl)"
  define ids where "ids = claimed_ids ?now {} (batchSize rl) ?db"
  note after = flush_statuses [OF rel batch ids_def]
  let ?taken = "filter (\<lambda>r. ob_id r \<in> ids) (db_outbox ?db)"
  have taken: "mset ?taken = mset (outbox_picked ?now {} ?n (db_outbox ?db))"
    using mset_claimed_rows [OF ok] by (simp add: claimed_rows_def ids_def)
  show ?thesis
  proof (cases "length (filter (outbox_due ?now) (db_outbox ?db)) \<le> ?n")
    case True
    then have rows: "claimed_rows ?now {} (batchSize rl) ?db = filter (outbox_due ?now) (db_outbox ?db)"
      by (rule claimed_rows_all [OF ok])
    have "ob_id r \<in> ids" if "r \<in> set (db_outbox ?db)" "ob_id r = i" "ob_status r \<noteq> OutboxStatusSent" for r
    proof -
      have "r \<in> set (claimed_rows ?now {} (batchSize rl) ?db)"
        unfolding rows using that ready by (auto simp: row_ready_def list_all_iff)
      then show ?thesis by (simp add: claimed_rows_def ids_def)
    qed
    then show ?thesis by (auto simp: row_sent_statuses after list_all_iff)
  next
    case False
    then have "length (outbox_picked ?now {} ?n (db_outbox ?db)) = ?n" by (simp add: outbox_picked_def)
    with taken have len: "length ?taken = ?n" by (metis size_mset)
    have "row_live r" if "r \<in> set ?taken" for r
    proof -
      have "r \<in> set (outbox_picked ?now {} ?n (db_outbox ?db))" using that taken by (metis set_mset_mset)
      then show ?thesis using picked_subset due_live by blast
    qed
    then have "filter (\<lambda>r. row_live r \<and> ob_id r \<in> ids) (db_outbox ?db) = ?taken" by (auto intro: filter_cong)
    moreover have "length (filter (\<lambda>r. row_live r \<and> ob_id r \<in> ids) rows) + length (filter (\<lambda>r. row_live r \<and> ob_id r \<notin> ids) rows)
        = length (filter row_live rows)" for rows by (induction rows) auto
    ultimately have "length (filter (\<lambda>r. row_live r \<and> ob_id r \<notin> ids) (db_outbox ?db)) + ?n = backlog ?db"
      using len unfolding backlog_def by (metis add.commute)
    moreover have "backlog (w_db (flush (pg_ops en) rl w)) = length (filter (\<lambda>r. row_live r \<and> ob_id r \<notin> ids) (db_outbox ?db))"
      unfolding backlog_statuses after by (simp add: filter_map comp_def row_live_def) (metis (mono_tags, lifting) OutboxStatus_distinct)
    ultimately show ?thesis by simp
  qed
qed

lemma Run_sent:
  assumes "reliable en" and "0 < batchSize rl"
  shows "outbox_ok rl w \<Longrightarrow> row_ready en i (w_db w) \<Longrightarrow> row_sent i (w_db w) \<or> backlog (w_db w) \<le> k * nat (batchSize rl) \<Longrightarrow>
    row_sent i (w_db (Run (pg_ops en) rl (replicate k Tick) w))"
proof (induction k arbitrary: w)
  case 0
  then show ?case using backlog_0_sent by auto
next
  case (Suc k)
  let ?w = "flush (pg_ops en) rl w"
  have ids: "outbox_ids_ok (w_db w)" using Suc.prems(1) by (simp add: outbox_ok_def)
  have ok: "outbox_ok rl ?w" using Suc.prems(1) pg.flush_ok unfolding outbox_ok_iff by blast
  have "row_sent i (w_db ?w) \<or> backlog (w_db ?w) \<le> k * nat (batchSize rl)"
    using flush_progress [OF assms(1) ids assms(2) Suc.prems(2)] flush_sent [OF assms] Suc.prems(3) by auto
  from Suc.IH [OF ok flush_ready [OF assms Suc.prems(2)] this] show ?case by simp
qed

lemma Run_delivers:
  assumes "reliable en" and "0 < batchSize rl" and "outbox_ok rl w" and "backlog (w_db w) \<le> k * nat (batchSize rl)"
    and row: "r \<in> set (db_outbox (w_db w))" "row_ready en (ob_id r) (w_db w)"
  shows "kafkaMessage (message_of r) \<in> set (w_kafka (Run (pg_ops en) rl (replicate k Tick) w))"
proof -
  let ?w' = "Run (pg_ops en) rl (replicate k Tick) w"
  have ok: "pg.relay_ok rl w" using assms(3) by (simp add: outbox_ok_iff)
  have "row_content r \<in> db_content (w_db ?w')" using pg.Run_content [OF ok] row(1) by (auto simp: db_content_def)
  then obtain r' where r': "r' \<in> set (db_outbox (w_db ?w'))" "ob_id r' = ob_id r"
    "kafkaMessage (message_of r') = kafkaMessage (message_of r)" by (auto simp: db_content_def row_content_def)
  have "row_sent (ob_id r) (w_db ?w')" using Run_sent [OF assms(1-3) row(2)] assms(4) by simp
  with r'(1,2) have "ob_status r' = OutboxStatusSent" by (auto simp: row_sent_def list_all_iff)
  moreover have "outbox_ok rl ?w'" using pg.Run_ok [OF ok] by (simp add: outbox_ok_iff)
  ultimately show ?thesis using r'(1,3) by (auto simp: outbox_ok_def list_all_iff)
qed

text \<open>
  After an outage: whatever happened to a pending row in a run with any failures, when everything
  answers again its message gets delivered, unless the row was given up.
\<close>

lemma outage_delivers:
  assumes rel: "reliable en'" and pos: "0 < batchSize rl" and ok: "outbox_ok rl w" and w1: "w1 = Run (pg_ops en) rl evs w"
    and late: "\<forall>r \<in> set (db_outbox (w_db w1)). ob_status r = OutboxStatusProcessing \<longrightarrow> (\<forall>c. ob_updated_at r < en_now en' c - minute)"
    and room: "backlog (w_db w1) \<le> k * nat (batchSize rl)"
    and row: "r \<in> set (db_outbox (w_db w))" "ob_status r = OutboxStatusPending"
  shows "kafkaMessage (message_of r) \<in> set (w_kafka (Run (pg_ops en') rl (replicate k Tick) w1)) \<or>
    (\<exists>r' \<in> set (db_outbox (w_db w1)). kafkaMessage (message_of r') = kafkaMessage (message_of r) \<and>
       ob_status r' = OutboxStatusFailed \<and> maxRetries rl \<le> ob_retry_count r')"
proof -
  have pg: "pg.relay_ok rl w" using ok by (simp add: outbox_ok_iff)
  have ok1: "outbox_ok rl w1" using pg.Run_ok [OF pg] by (simp add: w1 outbox_ok_iff)
  have "row_content r \<in> db_content (w_db w1)" using pg.Run_content [OF pg] row(1) by (auto simp: w1 db_content_def)
  then obtain r1 where r1: "r1 \<in> set (db_outbox (w_db w1))" "ob_id r1 = ob_id r"
    "kafkaMessage (message_of r1) = kafkaMessage (message_of r)" by (auto simp: db_content_def row_content_def)
  have ids: "outbox_ids_ok (w_db w)" "outbox_ids_ok (w_db w1)" using ok ok1 by (simp_all add: outbox_ok_def)
  have "list_all (\<lambda>r'. ob_id r' = ob_id r \<longrightarrow> row_tracked (maxRetries rl) r') (db_outbox (w_db w))"
    using row ids_unique [OF ids(1) _ row(1)] by (auto simp: list_all_iff row_tracked_def row_live_def)
  from Run_tracked [OF this] r1(1,2) have "row_tracked (maxRetries rl) r1" by (auto simp: w1 list_all_iff)
  then consider "row_live r1 \<or> ob_status r1 = OutboxStatusSent" | "ob_status r1 = OutboxStatusFailed" "maxRetries rl \<le> ob_retry_count r1"
    by (auto simp: row_tracked_def)
  then show ?thesis
  proof cases
    case 1
    then have "ob_status r1 = OutboxStatusSent \<or> (\<forall>c. outbox_due (en_now en' c) r1)"
      using late r1(1) by (auto simp: row_live_def outbox_due_def)
    then have "row_ready en' (ob_id r1) (w_db w1)"
      using ids_unique [OF ids(2) _ r1(1)] by (auto simp: row_ready_def list_all_iff)
    from Run_delivers [OF rel pos ok1 room r1(1) this] r1(3) show ?thesis by simp
  next
    case 2
    with r1 show ?thesis by blast
  qed
qed

section \<open>From a report to the broker\<close>

lemma mapM_member: "mapM f xs = Inr ys \<Longrightarrow> x \<in> set xs \<Longrightarrow> \<exists>y \<in> set ys. f x = Inr y"
  unfolding mapM_Inr_iff by (auto simp: list_all2_conv_all_nth in_set_conv_nth)

text \<open>The row of an event, as it is inserted.\<close>

lemma outboxRows_ids: "map ob_id (outboxRows n evs) = map (\<lambda>k. n + int k) [0..<length evs]"
  by (rule nth_equalityI) (simp_all add: outboxRows_def nth_enumerate_eq outboxRow_def)

lemma outboxRows_member: "r \<in> set (outboxRows n evs) \<Longrightarrow> \<exists>k ev. k < length evs \<and> r = outboxRow (n + int k) ev"
  by (auto simp: outboxRows_def in_set_enumerate_eq)

lemma saved_outbox_ok:
  assumes "saved st pm uid t 0 reports (w_db w) db'" and "outbox_ok rl w" and "0 < maxRetries rl"
  shows "outbox_ok rl (w\<lparr>w_db := db'\<rparr>)"
proof -
  obtain evs where rows: "db_outbox db' = db_outbox (w_db w) @ outboxRows (db_outbox_seq (w_db w)) evs"
    "db_outbox_seq db' = db_outbox_seq (w_db w) + int (length evs)"
    using assms(1) by (auto simp: saved_def split: sum.splits)
  have old: "\<forall>r \<in> set (db_outbox (w_db w)). ob_id r < db_outbox_seq (w_db w)" "distinct (map ob_id (db_outbox (w_db w)))"
    using assms(2) by (simp_all add: outbox_ok_def outbox_ids_ok_def)
  have new: "\<forall>r \<in> set (outboxRows (db_outbox_seq (w_db w)) evs). db_outbox_seq (w_db w) \<le> ob_id r \<and> ob_id r < db_outbox_seq db' \<and>
      ob_status r = OutboxStatusPending \<and> ob_retry_count r = 0"
    by (auto simp: rows(2) outboxRow_def dest!: outboxRows_member)
  have "distinct (map ob_id (outboxRows (db_outbox_seq (w_db w)) evs))" by (simp add: outboxRows_ids distinct_map inj_on_def)
  moreover have "set (map ob_id (db_outbox (w_db w))) \<inter> set (map ob_id (outboxRows (db_outbox_seq (w_db w)) evs)) = {}"
    using old(1) new by fastforce
  ultimately have "distinct (map ob_id (db_outbox db'))" unfolding rows(1) map_append distinct_append using old(2) by blast
  moreover have "\<forall>r \<in> set (db_outbox db'). ob_id r < db_outbox_seq db'" unfolding rows(1) using old(1) new rows(2) by fastforce
  ultimately have "outbox_ids_ok db'" by (simp add: outbox_ids_ok_def)
  moreover have "list_all P (db_outbox db')" if "list_all P (db_outbox (w_db w))" "\<And>r. ob_status r = OutboxStatusPending \<Longrightarrow> ob_retry_count r = 0 \<Longrightarrow> P r" for P
    using that new by (auto simp: rows(1) list_all_iff)
  ultimately show ?thesis using assms(2,3) by (simp add: outbox_ok_def)
qed

lemma saved_event:
  assumes "saved st pm uid t 0 reports db db'" and "i < length reports" and "j < length (rep_Checks (reports ! i))"
    and "chk_Violated (rep_Checks (reports ! i) ! j)" and "\<not> chk_Whitelisted (rep_Checks (reports ! i) ! j)"
  shows "\<exists>payload. pm (violationFact (reports ! i) t (rep_Checks (reports ! i) ! j)) = Inr payload \<and>
    (\<exists>n. outboxRow n \<lparr>ev_Topic = outboxTopic st, ev_Key = uid i j, ev_Body = payload, ev_CreatedAt = t\<rparr> \<in> set (db_outbox db'))"
proof -
  let ?c = "rep_Checks (reports ! i) ! j"
  obtain evss where evss: "batch_events st pm uid t 0 reports = Inr evss"
    "db_outbox db' = db_outbox db @ outboxRows (db_outbox_seq db) (concat evss)"
    using assms(1) by (auto simp: saved_def split: sum.splits)
  have "(i, reports ! i) \<in> set (enumerate 0 reports)" using assms(2) by (simp add: in_set_enumerate_eq)
  from mapM_member [OF evss(1) [unfolded batch_events_def] this] obtain evs where
    evs: "evs \<in> set evss" "mapM (event_of st pm (uid i) (reports ! i) t) (reported_checks (reports ! i)) = Inr evs" by auto
  have "(j, ?c) \<in> set (reported_checks (reports ! i))"
    using assms(3-5) by (simp add: reported_checks_def in_set_enumerate_eq)
  from mapM_member [OF evs(2) this] obtain ev where ev: "ev \<in> set evs" "event_of st pm (uid i) (reports ! i) t (j, ?c) = Inr ev" by auto
  then have "ev \<in> set (concat evss)" using evs(1) by auto
  then obtain k where "k < length (concat evss)" "concat evss ! k = ev" by (auto simp: in_set_conv_nth simp del: length_concat set_concat)
  then have "outboxRow (db_outbox_seq db + int k) ev \<in> set (outboxRows (db_outbox_seq db) (concat evss))"
    by (force simp: outboxRows_def in_set_enumerate_eq simp del: length_concat set_concat)
  with ev(2) show ?thesis by (auto simp: event_of_def evss(2) split: sum.splits)
qed

text \<open>
  C13. A violation that was found is reported, whatever happens in between: after \<open>SaveReports\<close> has succeeded,
  let the relay run through any outage of the database and the broker; once both answer again, and every
  claim left over from the outage is more than a minute old, the relay delivers the event of every
  violated check that is not whitelisted, after as many flushes as the backlog fills batches - unless
  the outage used up the retries of the event, and then its row says so.
\<close>

theorem violation_reaches_broker:
  assumes "SaveReports lk st protoMarshal newUUID now reports (w_db w) = (Inr (), db')"
    and "outbox_ok (NewRelay batch poll retries) w"
    and "w1 = Run (pg_ops en) (NewRelay batch poll retries) evs (w\<lparr>w_db := db'\<rparr>)"
    and "reliable en'"
    and "\<forall>r \<in> set (db_outbox (w_db w1)). ob_status r = OutboxStatusProcessing \<longrightarrow> (\<forall>c. ob_updated_at r < en_now en' c - minute)"
    and "backlog (w_db w1) \<le> k * nat (batchSize (NewRelay batch poll retries))"
    and "i < length reports" and "j < length (rep_Checks (reports ! i))"
    and "chk_Violated (rep_Checks (reports ! i) ! j)" and "\<not> chk_Whitelisted (rep_Checks (reports ! i) ! j)"
  shows "\<exists>payload message. protoMarshal (violationFact (reports ! i) now (rep_Checks (reports ! i) ! j)) = Inr payload \<and>
    message = \<lparr>km_Topic = outboxTopic st, km_Key = newUUID i j, km_Value = payload\<rparr> \<and>
    (message \<in> set (w_kafka (Run (pg_ops en') (NewRelay batch poll retries) (replicate k Tick) w1)) \<or>
     (\<exists>r \<in> set (db_outbox (w_db w1)). kafkaMessage (message_of r) = message \<and>
        ob_status r = OutboxStatusFailed \<and> maxRetries (NewRelay batch poll retries) \<le> ob_retry_count r))"
proof -
  let ?rl = "NewRelay batch poll retries" and ?w = "w\<lparr>w_db := db'\<rparr>"
  have pos: "0 < batchSize ?rl" "0 < maxRetries ?rl" by (simp_all add: NewRelay_def)
  note saved = SaveReports_saved [OF assms(1)]
  have ok: "outbox_ok ?rl ?w" by (rule saved_outbox_ok [OF saved assms(2) pos(2)])
  obtain payload n where payload: "protoMarshal (violationFact (reports ! i) now (rep_Checks (reports ! i) ! j)) = Inr payload"
    and row: "outboxRow n \<lparr>ev_Topic = outboxTopic st, ev_Key = newUUID i j, ev_Body = payload, ev_CreatedAt = now\<rparr> \<in> set (db_outbox db')"
    using saved_event [OF saved assms(7-10)] by blast
  from outage_delivers [OF assms(4) pos(1) ok assms(3,5,6), of "outboxRow n \<lparr>ev_Topic = outboxTopic st, ev_Key = newUUID i j,
      ev_Body = payload, ev_CreatedAt = now\<rparr>"] row payload
  show ?thesis by (simp add: outboxRow_def kafkaMessage_def message_of_def)
qed

text \<open>A report with one violated check, saved into an empty outbox; the broker refuses its event once.\<close>

definition violating_report :: Report where
  "violating_report = \<lparr>rep_TargetGroup = ''group'', rep_Env = ''prod'', rep_Cluster = ''c'', rep_TeamName = ''team'',
     rep_Details = zeroDetails,
     rep_Checks = [\<lparr>chk_Type = CheckTypeCardinality, chk_Limit = 10, chk_Current = 12, chk_Violated = True, chk_Whitelisted = False\<rparr>],
     maxMetricNameLen = 0, maxLabelNameLen = 0, maxLabelValueLen = 0, maxMetricCardinality = 12,
     maxHistogramBuckets = 0, maxResponseWeight = 0\<rparr>"

definition empty_world :: World where
  "empty_world = \<lparr>w_db = empty_db, w_kafka = [], w_calls = 0\<rparr>"

definition violation_db :: DB where
  "violation_db = snd (SaveReports good_link \<lparr>outboxTopic = ''topic''\<rparr> (\<lambda>_. Inr ''body'') (\<lambda>_ _. ''uuid'') 7 [violating_report] empty_db)"

lemma violation_saved:
  "SaveReports good_link \<lparr>outboxTopic = ''topic''\<rparr> (\<lambda>_. Inr ''body'') (\<lambda>_ _. ''uuid'') 7 [violating_report] (w_db empty_world)
     = (Inr (), violation_db)"
  "db_outbox violation_db = [\<lparr>ob_id = 1, ob_topic = ''topic'', ob_event_key = ''uuid'', ob_event_body = ''body'',
     ob_status = OutboxStatusPending, ob_retry_count = 0, ob_last_error = [], ob_created_at = 7, ob_updated_at = 7\<rparr>]"
  by (simp_all add: violation_db_def empty_world_def SaveReports_def Let_def buildViolationOutboxEvents_def violating_report_def good_link_def
      saveReport_def saveOutboxMessage_def row_live_def empty_db_def)

definition outage_world :: World where
  "outage_world = Run (pg_ops (sample_env (Refused (ErrNew ''broker'')))) (NewRelay 0 0 0) [Tick] (empty_world\<lparr>w_db := violation_db\<rparr>)"

lemma outage_rows:
  "db_outbox (w_db outage_world) = [\<lparr>ob_id = 1, ob_topic = ''topic'', ob_event_key = ''uuid'', ob_event_body = ''body'',
     ob_status = OutboxStatusPending, ob_retry_count = 1, ob_last_error = ''broker'', ob_created_at = 7, ob_updated_at = 5\<rparr>]"
  by (simp add: outage_world_def flush_def pg_ops_def on_db_def FetchPendingOutboxMessages_def fetchPendingOutboxMessages_stmt_def
      outbox_picked_def outbox_due_def claim_def message_of_def Let_def violation_saved(2) sample_env_def NewRelay_def empty_world_def
      relay_message_def WriteMessages_def MarkOutboxMessageFailed_def on_row_def markFailed_row_def)

theorem violation_reaches_broker_witness:
  "\<lparr>km_Topic = ''topic'', km_Key = ''uuid'', km_Value = ''body''\<rparr> \<in>
     set (w_kafka (Run (pg_ops (sample_env Done)) (NewRelay 0 0 0) [Tick] outage_world))"
proof -
  have rel: "reliable (sample_env Done)" by (simp add: reliable_def sample_env_def)
  have ok: "outbox_ok (NewRelay 0 0 0) empty_world"
    by (simp add: outbox_ok_def outbox_ids_ok_def empty_world_def empty_db_def)
  from violation_reaches_broker [OF violation_saved(1) ok outage_world_def rel, of 1 0 0] show ?thesis
    by (simp add: outage_rows backlog_def row_live_def NewRelay_def violating_report_def)
qed

end
