(* ===== verification/Leadership.thy ===== *)
theory Leadership
  imports Cron Consumer
begin

text \<open>
  Leader election (\<open>internal/leaderelection\<close>) and what \<open>cmd/main.go\<close> does when leadership is won
  or lost. An elector keeps two lists of callbacks and starts every callback of a list in a
  goroutine of its own; the election itself is a library's. \<open>main\<close> registers one callback in each
  list: the leader runs the cron manager and stops consuming tasks (except locally).

  A callback is the list of its steps on the node's state; the goroutines in flight interleave
  step by step, so \<open>Election\<close> keeps the steps each of them has left.
\<close>

section \<open>Electors\<close>

text \<open>The node's state, as far as the callbacks touch it.\<close>

record NodeState =
  ns_consumer :: TaskConsumer
  ns_cron :: Manager

datatype step = SetLeaderTo bool | CronStart | CronStop

type_synonym callback = "step list"

text \<open>\<open>LocalElector\<close> and \<open>EtcdElector\<close> keep the same two lists.\<close>

record Elector =
  el_onStart :: "callback list"
  el_onStop :: "callback list"

definition NewLocalElector :: Elector where
  "NewLocalElector = \<lparr>el_onStart = [], el_onStop = []\<rparr>"

text \<open>\<open>newManager\<close> is the library's constructor; the manager calls the elector's two methods.\<close>

definition NewEtcdElector :: "unit result \<Rightarrow> Elector result" where
  "NewEtcdElector newManager =
     (case newManager of Inl e \<Rightarrow> Inl e | Inr _ \<Rightarrow> Inr \<lparr>el_onStart = [], el_onStop = []\<rparr>)"

definition AddOnStart :: "callback \<Rightarrow> Elector \<Rightarrow> Elector" where
  "AddOnStart cb e = e\<lparr>el_onStart := el_onStart e @ [cb]\<rparr>"

definition AddOnStop :: "callback \<Rightarrow> Elector \<Rightarrow> Elector" where
  "AddOnStop cb e = e\<lparr>el_onStop := el_onStop e @ [cb]\<rparr>"

text \<open>The goroutines the elector starts: \<open>onLeaderStart\<close> (and \<open>Run\<close> of the local elector), \<open>onLeaderStop\<close>.\<close>

definition onLeaderStart :: "Elector \<Rightarrow> callback list" where
  "onLeaderStart e = el_onStart e"

definition onLeaderStop :: "Elector \<Rightarrow> callback list" where
  "onLeaderStop e = el_onStop e"

definition LocalElector_Run :: "Elector \<Rightarrow> callback list" where
  "LocalElector_Run e = el_onStart e"

section \<open>The callbacks of main\<close>

definition localEnv :: string where "localEnv = ''local''"

definition main_onStart :: "string \<Rightarrow> callback" where
  "main_onStart env = (if env \<noteq> localEnv then [SetLeaderTo True] else []) @ [CronStart]"

definition main_onStop :: callback where
  "main_onStop = [SetLeaderTo False, CronStop]"

fun run_step :: "NodeState \<Rightarrow> step \<Rightarrow> NodeState" where
  "run_step s (SetLeaderTo v) = s\<lparr>ns_consumer := SetLeader v (ns_consumer s)\<rparr>"
| "run_step s CronStart = s\<lparr>ns_cron := Start (ns_cron s)\<rparr>"
| "run_step s CronStop = s\<lparr>ns_cron := snd (Cron.Stop None (ns_cron s))\<rparr>"

section \<open>Elections\<close>

record Election =
  el_elector :: Elector
  el_leader :: bool
  el_running :: "callback list"
  el_node :: NodeState

datatype move = RegisterStart callback | RegisterStop callback | Won | Lost | Go nat

text \<open>One step of the i-th goroutine; a finished one disappears.\<close>

definition go_step :: "nat \<Rightarrow> Election \<Rightarrow> Election" where
  "go_step i s =
     (case el_running s ! i of
        [] \<Rightarrow> s\<lparr>el_running := take i (el_running s) @ drop (Suc i) (el_running s)\<rparr>
      | st # cb \<Rightarrow> s\<lparr>el_node := run_step (el_node s) st, el_running := (el_running s)[i := cb]\<rparr>)"

fun election_move :: "move \<Rightarrow> Election \<Rightarrow> Election option" where
  "election_move (RegisterStart cb) s = Some (s\<lparr>el_elector := AddOnStart cb (el_elector s)\<rparr>)"
| "election_move (RegisterStop cb) s = Some (s\<lparr>el_elector := AddOnStop cb (el_elector s)\<rparr>)"
| "election_move Won s = (if el_leader s then None
     else Some (s\<lparr>el_leader := True, el_running := el_running s @ onLeaderStart (el_elector s)\<rparr>))"
| "election_move Lost s = (if \<not> el_leader s then None
     else Some (s\<lparr>el_leader := False, el_running := el_running s @ onLeaderStop (el_elector s)\<rparr>))"
| "election_move (Go i) s = (if i < length (el_running s) then Some (go_step i s) else None)"

fun election_run :: "move list \<Rightarrow> Election \<Rightarrow> Election option" where
  "election_run [] s = Some s"
| "election_run (m # ms) s = (case election_move m s of None \<Rightarrow> None | Some s \<Rightarrow> election_run ms s)"

text \<open>\<open>main\<close> before the election: a consumer that is not the leader, a stopped cron manager.\<close>

definition boot :: "Manager \<Rightarrow> Election" where
  "boot cron = \<lparr>el_elector = NewLocalElector, el_leader = False, el_running = [],
     el_node = \<lparr>ns_consumer = NewTaskConsumer False, ns_cron = cron\<lparr>cr_running := False\<rparr>\<rparr>\<rparr>"

definition registered :: "string \<Rightarrow> Manager \<Rightarrow> Election" where
  "registered env cron = (boot cron)\<lparr>el_elector := AddOnStop main_onStop (AddOnStart (main_onStart env) NewLocalElector)\<rparr>"

section \<open>One change at a time\<close>

text \<open>
  The elections in which every change finds its callback registered, and comes after the callbacks of
  the last change have finished. \<open>main\<close> ensures neither: it starts the election first and registers the
  two callbacks while it runs, and the goroutines of two changes may overlap (see below for both).
\<close>

inductive orderly :: "string \<Rightarrow> Manager \<Rightarrow> Election \<Rightarrow> bool" for env cron where
  start: "orderly env cron (boot cron)"
| register_start: "orderly env cron s \<Longrightarrow> onLeaderStart (el_elector s) = [] \<Longrightarrow>
    election_move (RegisterStart (main_onStart env)) s = Some s' \<Longrightarrow> orderly env cron s'"
| register_stop: "orderly env cron s \<Longrightarrow> onLeaderStop (el_elector s) = [] \<Longrightarrow>
    election_move (RegisterStop main_onStop) s = Some s' \<Longrightarrow> orderly env cron s'"
| won: "orderly env cron s \<Longrightarrow> el_running s = [] \<Longrightarrow> onLeaderStart (el_elector s) \<noteq> [] \<Longrightarrow>
    election_move Won s = Some s' \<Longrightarrow> orderly env cron s'"
| lost: "orderly env cron s \<Longrightarrow> el_running s = [] \<Longrightarrow> onLeaderStop (el_elector s) \<noteq> [] \<Longrightarrow>
    election_move Lost s = Some s' \<Longrightarrow> orderly env cron s'"
| work: "orderly env cron s \<Longrightarrow> election_move (Go i) s = Some s' \<Longrightarrow> orderly env cron s'"

definition agrees :: "string \<Rightarrow> bool \<Rightarrow> NodeState \<Rightarrow> bool" where
  "agrees env leader s \<longleftrightarrow> isLeader (ns_consumer s) = (leader \<and> env \<noteq> localEnv) \<and> cr_running (ns_cron s) = leader"

definition finished :: "Election \<Rightarrow> NodeState" where
  "finished s = foldl run_step (el_node s) (concat (el_running s))"

definition orderly_inv :: "string \<Rightarrow> Election \<Rightarrow> bool" where
  "orderly_inv env s \<longleftrightarrow> onLeaderStart (el_elector s) \<in> {[], [main_onStart env]} \<and> onLeaderStop (el_elector s) \<in> {[], [main_onStop]} \<and>
     length (el_running s) \<le> 1 \<and> agrees env (el_leader s) (finished s)"

lemma start_agrees: "agrees env False s \<Longrightarrow> agrees env True (foldl run_step s (main_onStart env))"
  by (auto simp: agrees_def main_onStart_def SetLeader_def Start_def)

lemma stop_agrees: "agrees env False (foldl run_step s main_onStop)"
  by (simp add: agrees_def main_onStop_def SetLeader_def Cron.Stop_def)

lemma go_step_inv:
  assumes "orderly_inv env s" and "i < length (el_running s)"
  shows "orderly_inv env (go_step i s)"
proof -
  obtain cb where r: "el_running s = [cb]" and i: "i = 0"
    using assms by (cases "el_running s") (auto simp: orderly_inv_def)
  with assms(1) show ?thesis
    by (cases cb) (auto simp: orderly_inv_def go_step_def finished_def)
qed

lemma orderly_keeps: "orderly env cron s \<Longrightarrow> orderly_inv env s"
proof (induction rule: orderly.induct)
  case start
  show ?case
    by (simp add: orderly_inv_def boot_def NewLocalElector_def onLeaderStart_def onLeaderStop_def finished_def agrees_def
        NewTaskConsumer_def)
next
  case (register_start s s')
  then show ?case by (auto simp: orderly_inv_def finished_def onLeaderStart_def onLeaderStop_def AddOnStart_def)
next
  case (register_stop s s')
  then show ?case by (auto simp: orderly_inv_def finished_def onLeaderStart_def onLeaderStop_def AddOnStop_def)
next
  case (won s s')
  then show ?case using start_agrees [of env "el_node s"]
    by (auto simp: orderly_inv_def finished_def onLeaderStart_def onLeaderStop_def split: if_splits)
next
  case (lost s s')
  then show ?case using stop_agrees [of env "el_node s"]
    by (auto simp: orderly_inv_def finished_def onLeaderStart_def onLeaderStop_def split: if_splits)
next
  case (work s i s')
  then show ?case by (auto intro: go_step_inv split: if_splits)
qed

text \<open>
  C27. When every win comes after \<open>AddOnStart\<close>, every loss after \<open>AddOnStop\<close>, and each change after the
  callbacks of the one before have finished, then the node acts its part whenever no callback is
  running: the cron manager runs exactly on the leader, and the node refrains from consuming tasks
  exactly when it is the leader and not a local one. \<open>main\<close> does not ensure the conditions:
  \<open>early_win_lost\<close>, \<open>early_loss_lost\<close> and \<open>leadership_race\<close> show what happens without them.
\<close>

theorem leadership_settles:
  assumes "orderly env cron s" and "el_running s = []"
  shows "cr_running (ns_cron (el_node s)) = el_leader s \<and>
    isLeader (ns_consumer (el_node s)) = (el_leader s \<and> env \<noteq> localEnv)"
  using orderly_keeps [OF assms(1)] assms(2) by (simp add: orderly_inv_def agrees_def finished_def)

text \<open>The order in which \<open>main\<close> does it, with a win between the two registrations.\<close>

theorem leadership_settles_witness:
  "\<exists>s. election_run [RegisterStart (main_onStart ''prod''), Won, RegisterStop main_onStop, Go 0, Go 0, Go 0] (boot NewCronManager) = Some s \<and>
    orderly ''prod'' NewCronManager s \<and> el_running s = [] \<and> el_leader s \<and> cr_running (ns_cron (el_node s)) \<and>
    isLeader (ns_consumer (el_node s))"
proof -
  let ?o = "orderly ''prod'' NewCronManager"
  define s0 where "s0 = boot NewCronManager"
  define s1 where "s1 = s0\<lparr>el_elector := AddOnStart (main_onStart ''prod'') (el_elector s0)\<rparr>"
  define s2 where "s2 = s1\<lparr>el_leader := True, el_running := [[SetLeaderTo True, CronStart]]\<rparr>"
  define s3 where "s3 = s2\<lparr>el_elector := AddOnStop main_onStop (el_elector s2)\<rparr>"
  define s4 where "s4 = go_step 0 s3"
  define s5 where "s5 = go_step 0 s4"
  define s6 where "s6 = go_step 0 s5"
  note defs = s0_def s1_def s2_def s3_def
  have m1: "election_move (RegisterStart (main_onStart ''prod'')) s0 = Some s1" by (simp add: s1_def)
  have m2: "election_move Won s1 = Some s2"
    by (simp add: defs boot_def AddOnStart_def NewLocalElector_def onLeaderStart_def main_onStart_def localEnv_def)
  have m3: "election_move (RegisterStop main_onStop) s2 = Some s3" by (simp add: s3_def)
  have r3: "el_running s3 = [[SetLeaderTo True, CronStart]]" and l3: "el_leader s3" by (simp_all add: s3_def s2_def)
  have m4: "election_move (Go 0) s3 = Some s4" and r4: "el_running s4 = [[CronStart]]" and l4: "el_leader s4"
    using r3 l3 by (simp_all add: s4_def go_step_def)
  have m5: "election_move (Go 0) s4 = Some s5" and r5: "el_running s5 = [[]]" and l5: "el_leader s5"
    using r4 l4 by (simp_all add: s5_def go_step_def)
  have m6: "election_move (Go 0) s5 = Some s6" and r6: "el_running s6 = []" and l6: "el_leader s6"
    using r5 l5 by (simp_all add: s6_def go_step_def)
  have start: "?o s0" unfolding s0_def by (rule orderly.start)
  have "?o s1" by (rule orderly.register_start [OF start _ m1]) (simp add: s0_def boot_def NewLocalElector_def onLeaderStart_def)
  then have "?o s2"
    by (rule orderly.won [OF _ _ _ m2]) (simp_all add: defs boot_def NewLocalElector_def onLeaderStart_def AddOnStart_def)
  then have "?o s3"
    by (rule orderly.register_stop [OF _ _ m3]) (simp add: defs boot_def NewLocalElector_def onLeaderStop_def AddOnStart_def)
  with m4 m5 m6 have "?o s6" by (blast intro: orderly.work)
  moreover have "election_run [RegisterStart (main_onStart ''prod''), Won, RegisterStop main_onStop, Go 0, Go 0, Go 0] s0 = Some s6"
    by (simp only: election_run.simps m1 m2 m3 m4 m5 m6 option.case)
  ultimately show ?thesis using leadership_settles [of "''prod''" NewCronManager s6] r6 l6 by (auto simp: localEnv_def s0_def)
qed

section \<open>Changes that overlap\<close>

text \<open>
  The goroutines of two changes are not ordered: leadership can be lost and the callback of the
  win can finish after that of the loss. Then a node that is not the leader runs the cron manager
  and consumes no tasks, with nothing left to correct it.
\<close>

lemma leadership_race:
  assumes "env \<noteq> localEnv"
  shows "\<exists>s. election_run [Won, Lost, Go 1, Go 1, Go 0, Go 0, Go 0, Go 0] (registered env cron) = Some s \<and>
    \<not> el_leader s \<and> el_running s = [] \<and> cr_running (ns_cron (el_node s)) \<and> isLeader (ns_consumer (el_node s))"
  using assms
  by (simp add: registered_def boot_def AddOnStart_def AddOnStop_def NewLocalElector_def onLeaderStart_def onLeaderStop_def
      main_onStart_def main_onStop_def go_step_def SetLeader_def Start_def Cron.Stop_def NewTaskConsumer_def)

text \<open>
  \<open>main\<close> starts the election before it registers its callbacks; a win in between starts nothing.
\<close>

lemma early_win_lost:
  "\<exists>s. election_run [Won, RegisterStart (main_onStart env), RegisterStop main_onStop] (boot cron) = Some s \<and>
    el_leader s \<and> el_running s = [] \<and> \<not> cr_running (ns_cron (el_node s))"
  by (simp add: boot_def AddOnStart_def AddOnStop_def NewLocalElector_def onLeaderStart_def)

text \<open>So does a loss between the two registrations: the node is no leader, runs the cron manager and consumes nothing.\<close>

lemma early_loss_lost:
  assumes "env \<noteq> localEnv"
  shows "\<exists>s. election_run [RegisterStart (main_onStart env), Won, Go 0, Go 0, Go 0, Lost, RegisterStop main_onStop] (boot cron) = Some s \<and>
    \<not> el_leader s \<and> el_running s = [] \<and> cr_running (ns_cron (el_node s)) \<and> isLeader (ns_consumer (el_node s))"
  using assms
  by (simp add: boot_def AddOnStart_def NewLocalElector_def onLeaderStart_def onLeaderStop_def main_onStart_def go_step_def
      SetLeader_def Start_def NewTaskConsumer_def)

end
