(* ===== verification/Base64url.thy ===== *)
theory Base64url
  imports Prelude
begin

text \<open>
  \<open>base64.RawURLEncoding\<close> of the standard library, which \<open>decodeBase64URL\<close> of
  \<open>pkg/jwtclaims/jwks_verifier.go\<close> calls: the URL-safe alphabet without padding. The decoder
  passes over carriage returns and newlines, refuses any other foreign character and a last
  group of one character, and ignores the unused low bits of a last group. The position in the
  decoder's error is not modelled. The encoder is what an issuer of tokens uses.
\<close>

section \<open>Decoding\<close>

definition b64_value :: "char \<Rightarrow> nat option" where
  "b64_value c =
     (let n = of_char c :: nat in
      if 65 \<le> n \<and> n \<le> 90 then Some (n - 65)
      else if 97 \<le> n \<and> n \<le> 122 then Some (n - 71)
      else if 48 \<le> n \<and> n \<le> 57 then Some (n + 4)
      else if c = CHR ''-'' then Some 62
      else if c = CHR ''_'' then Some 63
      else None)"

fun b64_bytes :: "nat list \<Rightarrow> nat list option" where
  "b64_bytes [] = Some []"
| "b64_bytes [a] = None"
| "b64_bytes [a, b] = Some [4 * a + b div 16]"
| "b64_bytes [a, b, c] = Some [4 * a + b div 16, 16 * (b mod 16) + c div 4]"
| "b64_bytes (a # b # c # d # r) =
     (case b64_bytes r of
        None \<Rightarrow> None
      | Some bs \<Rightarrow> Some ((4 * a + b div 16) # (16 * (b mod 16) + c div 4) # (64 * (c mod 4) + d) # bs))"

definition errCorruptInput :: goerr where "errCorruptInput = ErrNew ''illegal base64 data''"

definition decodeBase64URL :: "string \<Rightarrow> string result" where
  "decodeBase64URL raw =
     (case those (map b64_value (filter (\<lambda>c. c \<notin> {CHR 0x0D, CHR 0x0A}) raw)) of
        None \<Rightarrow> Inl errCorruptInput
      | Some vs \<Rightarrow> (case b64_bytes vs of None \<Rightarrow> Inl errCorruptInput | Some bs \<Rightarrow> Inr (map char_of bs)))"

section \<open>Encoding\<close>

definition b64_char :: "nat \<Rightarrow> char" where
  "b64_char n =
     (if n < 26 then char_of (n + 65)
      else if n < 52 then char_of (n + 71)
      else if n < 62 then char_of (n - 4)
      else if n = 62 then CHR ''-''
      else CHR ''_'')"

fun b64_groups :: "nat list \<Rightarrow> nat list" where
  "b64_groups [] = []"
| "b64_groups [x] = [x div 4, 16 * (x mod 4)]"
| "b64_groups [x, y] = [x div 4, 16 * (x mod 4) + y div 16, 4 * (y mod 16)]"
| "b64_groups (x # y # z # r) = x div 4 # (16 * (x mod 4) + y div 16) # (4 * (y mod 16) + z div 64) # z mod 64 # b64_groups r"

definition encodeBase64URL :: "string \<Rightarrow> string" where
  "encodeBase64URL s = map b64_char (b64_groups (map of_char s))"

section \<open>Round trip\<close>

lemma b64_value_char: "n < 64 \<Longrightarrow> b64_value (b64_char n) = Some n"
  by (auto simp: b64_value_def b64_char_def of_char_of Let_def)

lemma b64_bytes_groups: "\<forall>x \<in> set xs. x < 256 \<Longrightarrow> b64_bytes (b64_groups xs) = Some xs"
  by (induction xs rule: b64_groups.induct) auto

lemma b64_groups_small: "\<forall>x \<in> set xs. x < 256 \<Longrightarrow> \<forall>n \<in> set (b64_groups xs). n < 64"
  by (induction xs rule: b64_groups.induct) auto

text \<open>No character of the alphabet is white space, a line break or a dot.\<close>

definition b64_alphabet :: "char \<Rightarrow> bool" where
  "b64_alphabet c \<longleftrightarrow> b64_value c \<noteq> None"

lemma b64_alphabet_plain: "b64_alphabet c \<Longrightarrow> \<not> isSpace c \<and> c \<noteq> CHR ''.'' \<and> c \<notin> {CHR 0x0D, CHR 0x0A}"
  by (auto simp: b64_alphabet_def b64_value_def isSpace_def Let_def)

lemma of_char_lt_256: "\<forall>x \<in> set (map of_char s). (x :: nat) < 256"
  by (metis (mono_tags, lifting) imageE list.set_map of_char_mod_256 mod_less_divisor zero_less_numeral)

lemma encode_alphabet: "\<forall>c \<in> set (encodeBase64URL s). b64_alphabet c"
  using b64_groups_small [OF of_char_lt_256 [of s]] b64_value_char
  by (auto simp: encodeBase64URL_def b64_alphabet_def)

lemma those_map_Some: "those (map Some xs) = Some xs"
  by (induction xs) auto

lemma decode_encode [simp]: "decodeBase64URL (encodeBase64URL s) = Inr s"
proof -
  let ?gs = "b64_groups (map of_char s)"
  have "filter (\<lambda>c. c \<notin> {CHR 0x0D, CHR 0x0A}) (encodeBase64URL s) = encodeBase64URL s"
    using encode_alphabet [of s] b64_alphabet_plain by (intro filter_True) blast
  moreover have "map b64_value (encodeBase64URL s) = map Some ?gs"
    using b64_groups_small [OF of_char_lt_256 [of s]] by (auto simp: encodeBase64URL_def b64_value_char)
  ultimately show ?thesis
    using b64_bytes_groups [OF of_char_lt_256 [of s]]
    by (simp add: decodeBase64URL_def those_map_Some comp_def)
qed

end
