(* ===== verification/Jwt.thy ===== *)
theory Jwt
  imports Report_Json Base64url "HOL-Library.AList" "HOL-Library.Word"
begin

text \<open>
  Verification of access tokens (\<open>pkg/jwtclaims\<close>): the claims and their place in a request's
  context (\<open>claims.go\<close>), the error values and the interface \<open>Verifier\<close> (\<open>verifier.go\<close>), and
  the verifier over a JWKS endpoint with its cache of keys (\<open>jwks_verifier.go\<close>).

  Arguments stand for what is outside: \<open>rsaVerify\<close> for \<open>rsa.VerifyPKCS1v15\<close> on the SHA-256 sum
  of the input, \<open>urlParse\<close> for \<open>url.Parse\<close> (scheme and host), and a \<open>jwt_env\<close> for the HTTP
  exchange and the readings of the clock of one call. Times are nanoseconds since the year 1, the
  epoch of \<open>time.Time\<close>; the verifier's lock makes each access to its cache atomic. In the detail of
  an error, \<open>%q\<close> only adds the quotation marks.
\<close>

section \<open>Claims\<close>

record Claims =
  c_Exp :: int
  c_Iat :: int
  c_AuthTime :: int
  c_JTI :: string
  c_Iss :: string
  c_Sub :: string
  c_Typ :: string
  c_Azp :: string
  c_Sid :: string
  c_Acr :: string
  c_AllowedOrigins :: "string list"
  c_Scope :: string
  c_Roles :: "string list"
  c_Name :: string
  c_PreferredUsername :: string
  c_GivenName :: string
  c_FamilyName :: string

definition zeroClaims :: Claims where
  "zeroClaims = \<lparr>c_Exp = 0, c_Iat = 0, c_AuthTime = 0, c_JTI = [], c_Iss = [], c_Sub = [], c_Typ = [], c_Azp = [],
     c_Sid = [], c_Acr = [], c_AllowedOrigins = [], c_Scope = [], c_Roles = [], c_Name = [], c_PreferredUsername = [],
     c_GivenName = [], c_FamilyName = []\<rparr>"

text \<open>\<open>(*Claims).HasAnyRole\<close>; a nil receiver is \<open>None\<close>.\<close>

definition Claims_HasAnyRole :: "Claims option \<Rightarrow> string list \<Rightarrow> bool" where
  "Claims_HasAnyRole c roles =
     (case c of
        None \<Rightarrow> False
      | Some c \<Rightarrow> if length roles = 0 \<or> length (c_Roles c) = 0 then False
                  else list_ex (\<lambda>role. role \<in> set (c_Roles c)) roles)"

text \<open>A request's context, as far as this package is concerned.\<close>

record Context = ctx_claims :: "Claims option"

definition Background :: Context where "Background = \<lparr>ctx_claims = None\<rparr>"

definition WithClaims :: "Context \<Rightarrow> Claims option \<Rightarrow> Context" where
  "WithClaims ctx claims = (case claims of None \<Rightarrow> ctx | Some c \<Rightarrow> ctx\<lparr>ctx_claims := Some c\<rparr>)"

definition ClaimsFromContext :: "Context \<Rightarrow> Claims option" where
  "ClaimsFromContext ctx = ctx_claims ctx"

definition RolesFromContext :: "Context \<Rightarrow> string list" where
  "RolesFromContext ctx = (case ClaimsFromContext ctx of None \<Rightarrow> [] | Some c \<Rightarrow> c_Roles c)"

definition HasAnyRole :: "Context \<Rightarrow> string list \<Rightarrow> bool" where
  "HasAnyRole ctx roles =
     (case ClaimsFromContext ctx of None \<Rightarrow> False | Some c \<Rightarrow> Claims_HasAnyRole (Some c) roles)"

section \<open>Errors\<close>

definition ErrTokenMalformed :: goerr where "ErrTokenMalformed = ErrNew ''token is malformed''"
definition ErrTokenUnsupportedAlgorithm :: goerr where
  "ErrTokenUnsupportedAlgorithm = ErrNew ''token uses unsupported algorithm''"
definition ErrTokenInvalidSignature :: goerr where "ErrTokenInvalidSignature = ErrNew ''token signature is invalid''"
definition ErrTokenExpired :: goerr where "ErrTokenExpired = ErrNew ''token is expired''"
definition ErrTokenInvalidClaims :: goerr where "ErrTokenInvalidClaims = ErrNew ''token claims are invalid''"
definition ErrTokenIssuerMismatch :: goerr where "ErrTokenIssuerMismatch = ErrNew ''token issuer mismatch''"
definition ErrTokenAZPMismatch :: goerr where "ErrTokenAZPMismatch = ErrNew ''token azp mismatch''"
definition ErrTokenKeyNotFound :: goerr where "ErrTokenKeyNotFound = ErrNew ''token signing key not found''"

definition errorsJoin :: "goerr \<Rightarrow> goerr \<Rightarrow> goerr" where
  "errorsJoin base err = ErrDetail base (err_message err)"

definition quoted_text :: "string \<Rightarrow> string" where
  "quoted_text s = [CHR 0x22] @ s @ [CHR 0x22]"

section \<open>Construction\<close>

definition second :: int where "second = 1000000000"

definition defaultClockSkew :: int where "defaultClockSkew = 30 * second"
definition defaultCacheTTL :: int where "defaultCacheTTL = 5 * 60 * second"
definition maxJWKSBodyBytes :: nat where "maxJWKSBodyBytes = 1048576"

record Config =
  cfg_Issuer :: string
  cfg_JWKSEndpoint :: string
  cfg_ExpectedAZP :: string
  cfg_ClockSkew :: int
  cfg_CacheTTL :: int

record PublicKey =
  pk_N :: int
  pk_E :: int

text \<open>The map \<open>keysByKid\<close> is an association list with distinct keys.\<close>

record jwksVerifier =
  vf_issuer :: string
  vf_jwksEndpoint :: string
  vf_expectedAZP :: string
  vf_clockSkew :: int
  vf_cacheTTL :: int
  vf_keysByKid :: "(string \<times> PublicKey) list"
  vf_cacheUntil :: int

definition resolveJWKSEndpoint :: "(string \<Rightarrow> (string \<times> string) option) \<Rightarrow> string \<Rightarrow> string \<Rightarrow> string result" where
  "resolveJWKSEndpoint urlParse issuer rawEndpoint =
     (let endpoint = TrimSpace rawEndpoint in
      if endpoint = [] \<or> EqualFold endpoint ''string'' then Inr (issuer @ ''/protocol/openid-connect/certs'')
      else
        let bad = Inl (errorsJoin ErrTokenInvalidClaims (ErrNew (''invalid jwks endpoint '' @ quoted_text endpoint))) in
        case urlParse endpoint of
          None \<Rightarrow> bad
        | Some (scheme, host) \<Rightarrow>
            if scheme = [] \<or> host = [] then bad
            else if scheme \<noteq> ''http'' \<and> scheme \<noteq> ''https''
            then Inl (errorsJoin ErrTokenInvalidClaims (ErrNew (''invalid jwks endpoint scheme '' @ quoted_text scheme)))
            else Inr endpoint)"

definition NewJWKSVerifier :: "(string \<Rightarrow> (string \<times> string) option) \<Rightarrow> Config \<Rightarrow> jwksVerifier result" where
  "NewJWKSVerifier urlParse cfg =
     (let issuer = TrimSpace (TrimRight (\<lambda>c. c = CHR ''/'') (cfg_Issuer cfg)) in
      if issuer = [] then Inl (errorsJoin ErrTokenInvalidClaims (ErrNew ''issuer is required''))
      else case resolveJWKSEndpoint urlParse issuer (cfg_JWKSEndpoint cfg) of
        Inl e \<Rightarrow> Inl e
      | Inr jwksEndpoint \<Rightarrow>
          Inr \<lparr>vf_issuer = issuer, vf_jwksEndpoint = jwksEndpoint, vf_expectedAZP = TrimSpace (cfg_ExpectedAZP cfg),
               vf_clockSkew = (if cfg_ClockSkew cfg \<le> 0 then defaultClockSkew else cfg_ClockSkew cfg),
               vf_cacheTTL = (if cfg_CacheTTL cfg \<le> 0 then defaultCacheTTL else cfg_CacheTTL cfg),
               vf_keysByKid = [], vf_cacheUntil = 0\<rparr>)"

section \<open>Decoding\<close>

record tokenHeader =
  th_Alg :: string
  th_KID :: string
  th_Typ :: string

definition zeroHeader :: tokenHeader where "zeroHeader = \<lparr>th_Alg = [], th_KID = [], th_Typ = []\<rparr>"

definition fieldsHeader :: "members \<Rightarrow> tokenHeader \<Rightarrow> tokenHeader option" where
  "fieldsHeader ms v = do {
     alg \<leftarrow> dec_field ''alg'' dec_str ms (th_Alg v);
     kid \<leftarrow> dec_field ''kid'' dec_str ms (th_KID v);
     typ \<leftarrow> dec_field ''typ'' dec_str ms (th_Typ v);
     Some \<lparr>th_Alg = alg, th_KID = kid, th_Typ = typ\<rparr> }"

definition decodeHeader :: "string \<Rightarrow> tokenHeader result" where
  "decodeHeader raw =
     (case decodeBase64URL raw of
        Inl e \<Rightarrow> Inl (errorsJoin ErrTokenMalformed e)
      | Inr decoded \<Rightarrow>
          (case unmarshal (dec_struct fieldsHeader) decoded zeroHeader of
             Inl e \<Rightarrow> Inl (errorsJoin ErrTokenMalformed e)
           | Inr header \<Rightarrow>
               if th_Alg header \<noteq> ''RS256''
               then Inl (errorsJoin ErrTokenUnsupportedAlgorithm (ErrNew (''got '' @ quoted_text (th_Alg header))))
               else Inr header))"

definition fieldsClaims :: "members \<Rightarrow> Claims \<Rightarrow> Claims option" where
  "fieldsClaims ms v = do {
     ex \<leftarrow> dec_field ''exp'' dec_int ms (c_Exp v);
     iat \<leftarrow> dec_field ''iat'' dec_int ms (c_Iat v);
     auth \<leftarrow> dec_field ''auth_time'' dec_int ms (c_AuthTime v);
     jti \<leftarrow> dec_field ''jti'' dec_str ms (c_JTI v);
     iss \<leftarrow> dec_field ''iss'' dec_str ms (c_Iss v);
     sb \<leftarrow> dec_field ''sub'' dec_str ms (c_Sub v);
     typ \<leftarrow> dec_field ''typ'' dec_str ms (c_Typ v);
     azp \<leftarrow> dec_field ''azp'' dec_str ms (c_Azp v);
     sid \<leftarrow> dec_field ''sid'' dec_str ms (c_Sid v);
     acr \<leftarrow> dec_field ''acr'' dec_str ms (c_Acr v);
     origins \<leftarrow> dec_field ''allowed-origins'' (dec_list [] dec_str) ms (c_AllowedOrigins v);
     scope \<leftarrow> dec_field ''scope'' dec_str ms (c_Scope v);
     roles \<leftarrow> dec_field ''roles'' (dec_list [] dec_str) ms (c_Roles v);
     name \<leftarrow> dec_field ''name'' dec_str ms (c_Name v);
     user \<leftarrow> dec_field ''preferred_username'' dec_str ms (c_PreferredUsername v);
     given \<leftarrow> dec_field ''given_name'' dec_str ms (c_GivenName v);
     family \<leftarrow> dec_field ''family_name'' dec_str ms (c_FamilyName v);
     Some \<lparr>c_Exp = ex, c_Iat = iat, c_AuthTime = auth, c_JTI = jti, c_Iss = iss, c_Sub = sb, c_Typ = typ, c_Azp = azp,
       c_Sid = sid, c_Acr = acr, c_AllowedOrigins = origins, c_Scope = scope, c_Roles = roles, c_Name = name,
       c_PreferredUsername = user, c_GivenName = given, c_FamilyName = family\<rparr> }"

definition decodeClaims :: "string \<Rightarrow> Claims result" where
  "decodeClaims raw =
     (case decodeBase64URL raw of
        Inl e \<Rightarrow> Inl (errorsJoin ErrTokenMalformed e)
      | Inr decoded \<Rightarrow>
          (case unmarshal (dec_struct fieldsClaims) decoded zeroClaims of
             Inl e \<Rightarrow> Inl (errorsJoin ErrTokenMalformed e)
           | Inr claims \<Rightarrow> Inr claims))"

type_synonym rsa_verify = "PublicKey \<Rightarrow> string \<Rightarrow> string \<Rightarrow> goerr option"

definition verifyRS256 :: "rsa_verify \<Rightarrow> string \<Rightarrow> string \<Rightarrow> PublicKey \<Rightarrow> unit result" where
  "verifyRS256 rsaVerify signingInput rawSignature key =
     (case decodeBase64URL rawSignature of
        Inl e \<Rightarrow> Inl (errorsJoin ErrTokenInvalidSignature e)
      | Inr signature \<Rightarrow>
          (case rsaVerify key signingInput signature of
             Some e \<Rightarrow> Inl (errorsJoin ErrTokenInvalidSignature e)
           | None \<Rightarrow> Inr ()))"

section \<open>Keys\<close>

text \<open>\<open>big.Int.SetBytes\<close>: big-endian, unsigned.\<close>

definition big_bytes :: "string \<Rightarrow> int" where
  "big_bytes s = foldl (\<lambda>a c. 256 * a + int (of_char c)) 0 s"

definition toRSAPublicKey :: "string \<Rightarrow> string \<Rightarrow> PublicKey result" where
  "toRSAPublicKey rawN rawE =
     (case decodeBase64URL rawN of
        Inl e \<Rightarrow> Inl e
      | Inr nBytes \<Rightarrow>
          (case decodeBase64URL rawE of
             Inl e \<Rightarrow> Inl e
           | Inr eBytes \<Rightarrow>
               let eBig = big_bytes eBytes; n = big_bytes nBytes in
               if \<not> int64_range eBig then Inl (ErrNew ''rsa exponent is too large'')
               else if eBig \<le> 1 then Inl (ErrNew ''rsa exponent is invalid'')
               else if n \<le> 0 then Inl (ErrNew ''rsa modulus is invalid'')
               else Inr \<lparr>pk_N = n, pk_E = eBig\<rparr>))"

record jwk =
  jwk_Kid :: string
  jwk_Kty :: string
  jwk_Use :: string
  jwk_Alg :: string
  jwk_N :: string
  jwk_E :: string

definition zeroJwk :: jwk where
  "zeroJwk = \<lparr>jwk_Kid = [], jwk_Kty = [], jwk_Use = [], jwk_Alg = [], jwk_N = [], jwk_E = []\<rparr>"

definition fieldsJwk :: "members \<Rightarrow> jwk \<Rightarrow> jwk option" where
  "fieldsJwk ms v = do {
     kid \<leftarrow> dec_field ''kid'' dec_str ms (jwk_Kid v);
     kty \<leftarrow> dec_field ''kty'' dec_str ms (jwk_Kty v);
     use \<leftarrow> dec_field ''use'' dec_str ms (jwk_Use v);
     alg \<leftarrow> dec_field ''alg'' dec_str ms (jwk_Alg v);
     n \<leftarrow> dec_field ''n'' dec_str ms (jwk_N v);
     e \<leftarrow> dec_field ''e'' dec_str ms (jwk_E v);
     Some \<lparr>jwk_Kid = kid, jwk_Kty = kty, jwk_Use = use, jwk_Alg = alg, jwk_N = n, jwk_E = e\<rparr> }"

definition fieldsJwksDocument :: "members \<Rightarrow> jwk list \<Rightarrow> jwk list option" where
  "fieldsJwksDocument ms keys = dec_field ''keys'' (dec_list zeroJwk (dec_struct fieldsJwk)) ms keys"

text \<open>\<open>json.Decoder.Decode\<close> reads one value and leaves what follows it unread.\<close>

definition decode_first :: "'a decoder \<Rightarrow> string \<Rightarrow> 'a \<Rightarrow> 'a result" where
  "decode_first dec text cur =
     (case parse_value (json_fuel text) text of
        None \<Rightarrow> Inl errUnmarshal
      | Some (v, _) \<Rightarrow> (case dec v cur of None \<Rightarrow> Inl errUnmarshal | Some x \<Rightarrow> Inr x))"

definition usable_jwk :: "jwk \<Rightarrow> bool" where
  "usable_jwk key \<longleftrightarrow> jwk_Kty key = ''RSA'' \<and> (jwk_Use key = [] \<or> jwk_Use key = ''sig'') \<and>
     (jwk_Alg key = [] \<or> jwk_Alg key = ''RS256'')"

definition addJwk :: "(string \<times> PublicKey) list \<Rightarrow> jwk \<Rightarrow> (string \<times> PublicKey) list" where
  "addJwk keysByKid key =
     (if \<not> usable_jwk key then keysByKid
      else case toRSAPublicKey (jwk_N key) (jwk_E key) of
        Inl e \<Rightarrow> keysByKid
      | Inr publicKey \<Rightarrow> AList.update (jwk_Kid key) publicKey keysByKid)"

definition parseJWKS :: "string \<Rightarrow> (string \<times> PublicKey) list result" where
  "parseJWKS body =
     (case decode_first (dec_struct fieldsJwksDocument) (take maxJWKSBodyBytes body) [] of
        Inl e \<Rightarrow> Inl e
      | Inr keys \<Rightarrow> Inr (foldl addJwk [] keys))"

text \<open>
  One call's surroundings: whether the request can be made, the endpoint's answer (status and
  body), and the clock at the first lookup, after the refresh, at the second lookup and when
  the claims are checked.
\<close>

record jwt_env =
  je_newRequest :: "string \<Rightarrow> goerr option"
  je_do :: "string \<Rightarrow> (int \<times> string) result"
  je_lookup1 :: int
  je_refreshed :: int
  je_lookup2 :: int
  je_now :: int

definition lookup_key :: "(string \<times> PublicKey) list \<Rightarrow> string \<Rightarrow> PublicKey option" where
  "lookup_key keys kid =
     (if kid \<noteq> [] then map_of keys kid else case keys of [(_, key)] \<Rightarrow> Some key | _ \<Rightarrow> None)"

definition getCachedKey :: "int \<Rightarrow> jwksVerifier \<Rightarrow> string \<Rightarrow> PublicKey option" where
  "getCachedKey now v kid =
     (if length (vf_keysByKid v) = 0 \<or> now > vf_cacheUntil v then None else lookup_key (vf_keysByKid v) kid)"

definition refreshJWKS :: "jwt_env \<Rightarrow> jwksVerifier \<Rightarrow> unit result \<times> jwksVerifier" where
  "refreshJWKS env v =
     (case je_newRequest env (vf_jwksEndpoint v) of
        Some e \<Rightarrow> (Inl (errorsJoin ErrTokenKeyNotFound e), v)
      | None \<Rightarrow>
          (case je_do env (vf_jwksEndpoint v) of
             Inl e \<Rightarrow> (Inl (errorsJoin ErrTokenKeyNotFound e), v)
           | Inr (statusCode, body) \<Rightarrow>
               if statusCode \<noteq> 200
               then (Inl (errorsJoin ErrTokenKeyNotFound (ErrNew (''jwks endpoint returned status '' @ itoa statusCode))), v)
               else (case parseJWKS body of
                  Inl e \<Rightarrow> (Inl (errorsJoin ErrTokenKeyNotFound e), v)
                | Inr keysByKid \<Rightarrow>
                    if length keysByKid = 0
                    then (Inl (errorsJoin ErrTokenKeyNotFound (ErrNew ''jwks has no usable rsa keys'')), v)
                    else (Inr (), v\<lparr>vf_keysByKid := keysByKid, vf_cacheUntil := je_refreshed env + vf_cacheTTL v\<rparr>))))"

definition getSigningKey :: "jwt_env \<Rightarrow> jwksVerifier \<Rightarrow> string \<Rightarrow> PublicKey result \<times> jwksVerifier" where
  "getSigningKey env v kid =
     (case getCachedKey (je_lookup1 env) v kid of
        Some key \<Rightarrow> (Inr key, v)
      | None \<Rightarrow>
          (case refreshJWKS env v of
             (Inl e, v) \<Rightarrow> (Inl e, v)
           | (Inr _, v) \<Rightarrow>
               (case getCachedKey (je_lookup2 env) v kid of
                  Some key \<Rightarrow> (Inr key, v)
                | None \<Rightarrow> (Inl (errorsJoin ErrTokenKeyNotFound (ErrNew (''kid '' @ quoted_text kid))), v))))"

section \<open>Validation\<close>

text \<open>
  \<open>time.Unix\<close> adds the distance between the epochs in 64-bit arithmetic, which wraps;
  \<open>Time.Add\<close> keeps the seconds within 64 bits by saturation.
\<close>

definition unixToInternal :: int where "unixToInternal = 62135596800"

definition time_Unix :: "int \<Rightarrow> int" where
  "time_Unix sec = sint (word_of_int (sec + unixToInternal) :: 64 word) * second"

definition time_Add :: "int \<Rightarrow> int \<Rightarrow> int" where
  "time_Add t d =
     (let s = (t + d) div second; ns = (t + d) mod second in
      (if s > 2 ^ 63 - 1 then 2 ^ 63 - 1 else if s < - (2 ^ 63) then - (2 ^ 63 - 1) else s) * second + ns)"

definition validateClaims :: "int \<Rightarrow> jwksVerifier \<Rightarrow> Claims \<Rightarrow> unit result" where
  "validateClaims now v claims =
     (if c_Exp claims = 0 then Inl (errorsJoin ErrTokenInvalidClaims (ErrNew ''exp claim is required''))
      else if now > time_Add (time_Unix (c_Exp claims)) (vf_clockSkew v) then Inl ErrTokenExpired
      else if c_Iat claims > 0 \<and> time_Unix (c_Iat claims) > time_Add now (vf_clockSkew v)
      then Inl (errorsJoin ErrTokenInvalidClaims (ErrNew ''iat claim is in the future''))
      else if c_AuthTime claims > 0 \<and> time_Unix (c_AuthTime claims) > time_Add now (vf_clockSkew v)
      then Inl (errorsJoin ErrTokenInvalidClaims (ErrNew ''auth_time claim is in the future''))
      else if c_Iss claims \<noteq> vf_issuer v
      then Inl (errorsJoin ErrTokenIssuerMismatch
             (ErrNew (''expected '' @ quoted_text (vf_issuer v) @ '', got '' @ quoted_text (c_Iss claims))))
      else if vf_expectedAZP v \<noteq> [] \<and> c_Azp claims \<noteq> vf_expectedAZP v
      then Inl (errorsJoin ErrTokenAZPMismatch
             (ErrNew (''expected '' @ quoted_text (vf_expectedAZP v) @ '', got '' @ quoted_text (c_Azp claims))))
      else Inr ())"

definition ParseAndValidate :: "rsa_verify \<Rightarrow> jwt_env \<Rightarrow> jwksVerifier \<Rightarrow> string \<Rightarrow> Claims result \<times> jwksVerifier" where
  "ParseAndValidate rsaVerify env v rawToken =
     (case Split CHR ''.'' (TrimSpace rawToken) of
        [part0, part1, part2] \<Rightarrow>
          (case decodeHeader part0 of
             Inl e \<Rightarrow> (Inl e, v)
           | Inr header \<Rightarrow>
               (case getSigningKey env v (th_KID header) of
                  (Inl e, v) \<Rightarrow> (Inl e, v)
                | (Inr signingKey, v) \<Rightarrow>
                    (case verifyRS256 rsaVerify (part0 @ ''.'' @ part1) part2 signingKey of
                       Inl e \<Rightarrow> (Inl e, v)
                     | Inr _ \<Rightarrow>
                         (case decodeClaims part1 of
                            Inl e \<Rightarrow> (Inl e, v)
                          | Inr claims \<Rightarrow>
                              (case validateClaims (je_now env) v claims of
                                 Inl e \<Rightarrow> (Inl e, v)
                               | Inr _ \<Rightarrow> (Inr claims, v))))))
      | _ \<Rightarrow> (Inl ErrTokenMalformed, v))"

section \<open>The verifier's invariant and its errors\<close>

definition key_ok :: "PublicKey \<Rightarrow> bool" where
  "key_ok k \<longleftrightarrow> 0 < pk_N k \<and> 1 < pk_E k \<and> int64_range (pk_E k)"

definition keys_ok :: "(string \<times> PublicKey) list \<Rightarrow> bool" where
  "keys_ok keys \<longleftrightarrow> distinct (map fst keys) \<and> (\<forall>k \<in> snd ` set keys. key_ok k)"

definition verifier_ok :: "jwksVerifier \<Rightarrow> bool" where
  "verifier_ok v \<longleftrightarrow> vf_issuer v \<noteq> [] \<and> 0 < vf_clockSkew v \<and> 0 < vf_cacheTTL v \<and> keys_ok (vf_keysByKid v)"

lemma NewJWKSVerifier_ok: "NewJWKSVerifier urlParse cfg = Inr v \<Longrightarrow> verifier_ok v"
  by (auto simp: NewJWKSVerifier_def Let_def verifier_ok_def keys_ok_def defaultClockSkew_def defaultCacheTTL_def second_def
      split: if_splits sum.splits)

lemma toRSAPublicKey_ok: "toRSAPublicKey n e = Inr k \<Longrightarrow> key_ok k"
  by (auto simp: toRSAPublicKey_def Let_def key_ok_def split: sum.splits if_splits)

lemma update_values: "snd ` set (AList.update k v al) \<subseteq> insert v (snd ` set al)"
  by (induction al) auto

lemma addJwk_ok: "keys_ok keys \<Longrightarrow> keys_ok (addJwk keys key)"
  using update_values by (fastforce simp: addJwk_def keys_ok_def distinct_update dest: toRSAPublicKey_ok split: sum.splits)

lemma parseJWKS_ok: "parseJWKS body = Inr keys \<Longrightarrow> keys_ok keys"
proof -
  have "keys_ok (foldl addJwk [] ks)" for ks
    by (rule foldl_invariant) (simp add: keys_ok_def, rule addJwk_ok)
  then show "parseJWKS body = Inr keys \<Longrightarrow> keys_ok keys"
    by (auto simp: parseJWKS_def split: sum.splits)
qed

text \<open>What a refresh of the cache does.\<close>

definition refreshed :: "jwt_env \<Rightarrow> jwksVerifier \<Rightarrow> jwksVerifier \<Rightarrow> bool" where
  "refreshed env v v' \<longleftrightarrow> (\<exists>body keys. je_do env (vf_jwksEndpoint v) = Inr (200, body) \<and> parseJWKS body = Inr keys \<and>
     keys \<noteq> [] \<and> v' = v\<lparr>vf_keysByKid := keys, vf_cacheUntil := je_refreshed env + vf_cacheTTL v\<rparr>)"

lemma refreshed_ok: "refreshed env v v' \<Longrightarrow> verifier_ok v \<Longrightarrow> verifier_ok v'"
  by (auto simp: refreshed_def verifier_ok_def parseJWKS_ok)

lemma refreshed_settings:
  "refreshed env v v' \<Longrightarrow> vf_issuer v' = vf_issuer v \<and> vf_expectedAZP v' = vf_expectedAZP v \<and> vf_clockSkew v' = vf_clockSkew v"
  by (auto simp: refreshed_def)

lemma refreshJWKS_effect:
  assumes "refreshJWKS env v = (r, v')"
  shows "if isOk r then refreshed env v v' else v' = v"
  using assms by (auto simp: refreshJWKS_def refreshed_def split: option.splits sum.splits if_splits)

definition token_errors :: "goerr list" where
  "token_errors = [ErrTokenMalformed, ErrTokenUnsupportedAlgorithm, ErrTokenInvalidSignature, ErrTokenExpired,
     ErrTokenInvalidClaims, ErrTokenIssuerMismatch, ErrTokenAZPMismatch, ErrTokenKeyNotFound]"

definition token_error :: "goerr \<Rightarrow> bool" where
  "token_error e \<longleftrightarrow> list_ex (errors_Is e) token_errors"

lemma token_errorI [intro]:
  "token_error ErrTokenMalformed" "token_error ErrTokenExpired"
  "token_error (errorsJoin ErrTokenMalformed d)" "token_error (errorsJoin ErrTokenUnsupportedAlgorithm d)"
  "token_error (errorsJoin ErrTokenInvalidSignature d)" "token_error (errorsJoin ErrTokenInvalidClaims d)"
  "token_error (errorsJoin ErrTokenIssuerMismatch d)" "token_error (errorsJoin ErrTokenAZPMismatch d)"
  "token_error (errorsJoin ErrTokenKeyNotFound d)"
  by (simp_all add: token_error_def token_errors_def errorsJoin_def)

lemma steps_errors:
  "decodeHeader raw = Inl e \<Longrightarrow> token_error e" "decodeClaims raw = Inl e \<Longrightarrow> token_error e"
  "verifyRS256 rsaVerify i sg k = Inl e \<Longrightarrow> token_error e" "validateClaims now v c = Inl e \<Longrightarrow> token_error e"
  "refreshJWKS env v = (Inl e, v') \<Longrightarrow> token_error e"
  by (auto simp: decodeHeader_def decodeClaims_def verifyRS256_def validateClaims_def refreshJWKS_def
      split: sum.splits option.splits if_splits)

text \<open>The key comes from the cache while it is fresh, or from a document fetched now.\<close>

lemma getSigningKey_effect:
  assumes "getSigningKey env v kid = (r, v')"
  shows "case r of
      Inr key \<Rightarrow> (v' = v \<and> getCachedKey (je_lookup1 env) v kid = Some key) \<or>
                 (refreshed env v v' \<and> getCachedKey (je_lookup2 env) v' kid = Some key)
    | Inl e \<Rightarrow> token_error e \<and> (v' = v \<or> refreshed env v v')"
proof (cases "getCachedKey (je_lookup1 env) v kid")
  case (Some key)
  with assms show ?thesis by (auto simp: getSigningKey_def)
next
  case None
  obtain u w where f: "refreshJWKS env v = (u, w)" by force
  show ?thesis
  proof (cases u)
    case (Inl e)
    with assms None f refreshJWKS_effect [OF f] steps_errors(5) show ?thesis by (auto simp: getSigningKey_def)
  next
    case (Inr x)
    with assms None f refreshJWKS_effect [OF f] show ?thesis
      by (auto simp: getSigningKey_def split: option.splits)
  qed
qed

section \<open>Times\<close>

lemma sint64: "sint (word_of_int x :: 64 word) = signed_take_bit 63 x"
  by (simp add: signed_of_int)

lemma time_Unix_exact: "int64_range sec \<Longrightarrow> sec + unixToInternal < 2 ^ 63 \<Longrightarrow> time_Unix sec = (sec + unixToInternal) * second"
  unfolding time_Unix_def sint64
  by (subst signed_take_bit_int_eq_self) (simp_all add: int64_range_def unixToInternal_def)

lemma time_Unix_le:
  assumes "int64_range sec"
  shows "time_Unix sec \<le> (sec + unixToInternal) * second" "- (2 ^ 63) * second \<le> time_Unix sec"
proof -
  let ?x = "sec + unixToInternal"
  have "0 \<le> ?x + 2 ^ 63" using assms by (simp add: int64_range_def unixToInternal_def)
  then have "signed_take_bit 63 ?x \<le> ?x"
    using take_bit_int_less_eq_self_iff [of "Suc 63" "?x + 2 ^ 63"] by (simp add: signed_take_bit_eq_take_bit_shift)
  moreover have "- (2 ^ 63) \<le> signed_take_bit 63 ?x" by (rule signed_take_bit_int_greater_eq_minus_exp)
  ultimately show "time_Unix sec \<le> ?x * second" "- (2 ^ 63) * second \<le> time_Unix sec"
    unfolding time_Unix_def sint64 second_def by simp_all
qed

lemma time_Add_le:
  assumes "- (2 ^ 63) * second \<le> t + d"
  shows "time_Add t d \<le> t + d"
proof -
  let ?s = "(t + d) div second"
  have "- (2 ^ 63) \<le> ?s" using assms by (simp add: second_def)
  moreover have "t + d = ?s * second + (t + d) mod second" by simp
  ultimately show ?thesis by (auto simp: time_Add_def Let_def second_def)
qed

lemma time_Add_exact:
  assumes "- (2 ^ 63) * second \<le> t + d" and "t + d < 2 ^ 63 * second"
  shows "time_Add t d = t + d"
proof -
  let ?s = "(t + d) div second"
  have "- (2 ^ 63) \<le> ?s" "?s \<le> 2 ^ 63 - 1" using assms by (simp_all add: second_def)
  then show ?thesis by (simp add: time_Add_def Let_def)
qed

section \<open>Claims that are current\<close>

text \<open>The same conditions in exact arithmetic. A moment given in Unix seconds:\<close>

definition moment :: "int \<Rightarrow> int" where
  "moment sec = (sec + unixToInternal) * second"

definition claims_current :: "jwksVerifier \<Rightarrow> int \<Rightarrow> Claims \<Rightarrow> bool" where
  "claims_current v now c \<longleftrightarrow> c_Exp c \<noteq> 0 \<and> now \<le> moment (c_Exp c) + vf_clockSkew v \<and>
     (c_Iat c \<le> 0 \<or> moment (c_Iat c) \<le> now + vf_clockSkew v) \<and>
     (c_AuthTime c \<le> 0 \<or> moment (c_AuthTime c) \<le> now + vf_clockSkew v) \<and>
     c_Iss c = vf_issuer v \<and> (vf_expectedAZP v = [] \<or> c_Azp c = vf_expectedAZP v)"

definition claims_int64 :: "Claims \<Rightarrow> bool" where
  "claims_int64 c \<longleftrightarrow> int64_range (c_Exp c) \<and> int64_range (c_Iat c) \<and> int64_range (c_AuthTime c)"

text \<open>Times before the year 73 billion, a clock after the year 1 and a tolerance below that.\<close>

definition far :: int where "far = 2 ^ 61"

definition claims_sane :: "Claims \<Rightarrow> bool" where
  "claims_sane c \<longleftrightarrow> c_Exp c < far \<and> c_Iat c < far \<and> c_AuthTime c < far"

definition clock_sane :: "jwksVerifier \<Rightarrow> int \<Rightarrow> bool" where
  "clock_sane v now \<longleftrightarrow> 0 \<le> now \<and> now < far * second \<and> vf_clockSkew v < far * second"

lemma dec_field_int64: "int64_range cur \<Longrightarrow> dec_field n dec_int ms cur = Some x \<Longrightarrow> int64_range x"
proof (induction ms arbitrary: cur)
  case (Cons m ms)
  obtain k v where m: "m = (k, v)" by force
  have "dec_int v cur = Some y \<Longrightarrow> int64_range y" for y
    using Cons.prems(1) by (cases v) (auto simp: ParseInt64_def split: option.splits if_splits)
  with Cons m show ?case by (auto split: if_splits option.splits)
qed simp

lemma decodeClaims_int64:
  assumes "decodeClaims raw = Inr c"
  shows "claims_int64 c"
proof -
  obtain v where v: "dec_struct fieldsClaims v zeroClaims = Some c"
    using assms by (auto simp: decodeClaims_def unmarshal_def split: sum.splits option.splits)
  have zero: "int64_range 0" by (simp add: int64_range_def)
  show ?thesis
  proof (cases v)
    case JNull
    with v show ?thesis by (auto simp: dec_struct_def claims_int64_def zeroClaims_def zero)
  next
    case (JObj ms)
    with v show ?thesis
      by (auto simp: dec_struct_def fieldsClaims_def claims_int64_def zeroClaims_def
          split: bind_splits dest!: dec_field_int64 [OF zero])
  qed (use v in \<open>auto simp: dec_struct_def\<close>)
qed

lemma validateClaims_exact:
  assumes "claims_int64 c" and "claims_sane c" and "clock_sane v now" and "0 < vf_clockSkew v"
  shows "isOk (validateClaims now v c) \<longleftrightarrow> claims_current v now c"
proof -
  have unix: "time_Unix sec = moment sec" if "int64_range sec" "sec < far" for sec
    using that by (simp add: time_Unix_exact moment_def far_def unixToInternal_def)
  have "time_Add (moment (c_Exp c)) (vf_clockSkew v) = moment (c_Exp c) + vf_clockSkew v"
    using assms
    by (intro time_Add_exact) (auto simp: moment_def far_def unixToInternal_def second_def claims_int64_def int64_range_def
        claims_sane_def clock_sane_def)
  moreover have "time_Add now (vf_clockSkew v) = now + vf_clockSkew v"
    using assms(3,4) by (intro time_Add_exact) (auto simp: far_def second_def clock_sane_def)
  ultimately show ?thesis
    using assms(1,2) unix
    by (auto simp: validateClaims_def claims_current_def claims_int64_def claims_sane_def not_less)
qed

lemma validateClaims_sound:
  assumes "validateClaims now v c = Inr u" and "claims_int64 c" and "0 \<le> now" and "0 < vf_clockSkew v"
  shows "c_Exp c \<noteq> 0 \<and> now \<le> moment (c_Exp c) + vf_clockSkew v \<and> c_Iss c = vf_issuer v \<and>
    (vf_expectedAZP v = [] \<or> c_Azp c = vf_expectedAZP v)"
proof -
  have "time_Add (time_Unix (c_Exp c)) (vf_clockSkew v) \<le> moment (c_Exp c) + vf_clockSkew v"
    using time_Unix_le [of "c_Exp c"] time_Add_le [of "time_Unix (c_Exp c)" "vf_clockSkew v"] assms(2,4)
    by (auto simp: claims_int64_def moment_def)
  with assms(1) show ?thesis by (auto simp: validateClaims_def split: if_splits)
qed

section \<open>What an accepted token is\<close>

text \<open>
  The token has three parts, its header asks for RS256, and its signature over the first two is one
  that \<open>rsaVerify\<close> accepts for the key; the claims are those of the second part.
\<close>

definition signed_by :: "rsa_verify \<Rightarrow> string \<Rightarrow> tokenHeader \<Rightarrow> PublicKey \<Rightarrow> Claims \<Rightarrow> bool" where
  "signed_by rsaVerify raw header key claims \<longleftrightarrow>
     (\<exists>h p sg bytes. Split CHR ''.'' (TrimSpace raw) = [h, p, sg] \<and> decodeHeader h = Inr header \<and>
        th_Alg header = ''RS256'' \<and> decodeBase64URL sg = Inr bytes \<and> rsaVerify key (h @ ''.'' @ p) bytes = None \<and>
        decodeClaims p = Inr claims)"

text \<open>The key was in the cache while the cache was fresh, or in a document fetched by this call.\<close>

definition key_from :: "jwt_env \<Rightarrow> jwksVerifier \<Rightarrow> jwksVerifier \<Rightarrow> string \<Rightarrow> PublicKey \<Rightarrow> bool" where
  "key_from env v v' kid key \<longleftrightarrow>
     (v' = v \<and> getCachedKey (je_lookup1 env) v kid = Some key) \<or>
     (refreshed env v v' \<and> getCachedKey (je_lookup2 env) v' kid = Some key)"

lemma getCachedKey_ok: "keys_ok (vf_keysByKid v) \<Longrightarrow> getCachedKey now v kid = Some key \<Longrightarrow> key_ok key"
  by (auto simp: getCachedKey_def lookup_key_def keys_ok_def split: if_splits list.splits dest!: map_of_SomeD)

lemma key_from_ok: "key_from env v v' kid key \<Longrightarrow> verifier_ok v \<Longrightarrow> key_ok key"
  using getCachedKey_ok refreshed_ok by (auto simp: key_from_def verifier_ok_def) blast+

lemma ParseAndValidate_Inr:
  assumes "ParseAndValidate rsaVerify env v raw = (Inr claims, v')"
  obtains header key where "signed_by rsaVerify raw header key claims" and "key_from env v v' (th_KID header) key"
    and "validateClaims (je_now env) v' claims = Inr ()"
proof -
  obtain h p sg where parts: "Split CHR ''.'' (TrimSpace raw) = [h, p, sg]"
    using assms by (auto simp: ParseAndValidate_def split: list.splits)
  obtain header where header: "decodeHeader h = Inr header"
    using assms by (cases "decodeHeader h") (auto simp: ParseAndValidate_def parts)
  obtain key where key: "getSigningKey env v (th_KID header) = (Inr key, v')"
    and rest: "(case verifyRS256 rsaVerify (h @ ''.'' @ p) sg key of Inl e \<Rightarrow> (Inl e, v')
      | Inr _ \<Rightarrow> (case decodeClaims p of Inl e \<Rightarrow> (Inl e, v')
        | Inr c \<Rightarrow> (case validateClaims (je_now env) v' c of Inl e \<Rightarrow> (Inl e, v') | Inr _ \<Rightarrow> (Inr c, v')))) = (Inr claims, v')"
    using assms by (auto simp: ParseAndValidate_def parts header split: prod.splits sum.splits)
  have "th_Alg header = ''RS256''"
    using header by (auto simp: decodeHeader_def split: sum.splits if_splits)
  with rest parts header have "signed_by rsaVerify raw header key claims"
    by (auto simp: signed_by_def verifyRS256_def split: sum.splits option.splits)
  moreover from rest have "validateClaims (je_now env) v' claims = Inr ()" by (auto split: sum.splits)
  moreover from getSigningKey_effect [OF key] have "key_from env v v' (th_KID header) key" by (simp add: key_from_def)
  ultimately show thesis using that by blast
qed

lemma key_from_settings:
  "key_from env v v' kid key \<Longrightarrow> vf_issuer v' = vf_issuer v \<and> vf_expectedAZP v' = vf_expectedAZP v \<and> vf_clockSkew v' = vf_clockSkew v"
  using refreshed_settings by (auto simp: key_from_def)

lemma validateClaims_cong:
  "vf_issuer v' = vf_issuer v \<Longrightarrow> vf_expectedAZP v' = vf_expectedAZP v \<Longrightarrow> vf_clockSkew v' = vf_clockSkew v \<Longrightarrow>
   validateClaims now v' c = validateClaims now v c"
  by (simp add: validateClaims_def)

text \<open>A token as an issuer makes it: the three parts encoded and joined by dots.\<close>

definition signing_input :: "string \<Rightarrow> string \<Rightarrow> string" where
  "signing_input headerText claimsText = encodeBase64URL headerText @ ''.'' @ encodeBase64URL claimsText"

definition issued :: "string \<Rightarrow> string \<Rightarrow> string \<Rightarrow> string" where
  "issued headerText claimsText signature = signing_input headerText claimsText @ ''.'' @ encodeBase64URL signature"

lemma Split_plain: "c \<notin> set s \<Longrightarrow> Split c s = [s]"
  by (induction s) auto

lemma Split_at: "c \<notin> set s \<Longrightarrow> Split c (s @ c # t) = s # Split c t"
  by (induction s) auto

lemma TrimSpace_plain: "\<forall>c \<in> set s. \<not> isSpace c \<Longrightarrow> TrimSpace s = s"
proof -
  assume plain: "\<forall>c \<in> set s. \<not> isSpace c"
  have drop: "dropWhile isSpace t = t" if "\<forall>c \<in> set t. \<not> isSpace c" for t
    using that by (cases t) auto
  from drop [OF plain] drop [of "rev s"] plain show "TrimSpace s = s"
    by (simp add: TrimSpace_def TrimLeft_def TrimRight_def)
qed

lemma issued_parts:
  "Split CHR ''.'' (TrimSpace (issued h p sg)) = [encodeBase64URL h, encodeBase64URL p, encodeBase64URL sg]"
proof -
  have plain: "\<not> isSpace c" "c \<noteq> CHR ''.''" if "c \<in> set (encodeBase64URL s)" for c s
    using that encode_alphabet [of s] b64_alphabet_plain by blast+
  then have nodot: "CHR ''.'' \<notin> set (encodeBase64URL s)" for s by blast
  have "TrimSpace (issued h p sg) = issued h p sg"
    using plain(1) by (intro TrimSpace_plain) (auto simp: issued_def signing_input_def isSpace_def)
  then show ?thesis
    by (simp add: issued_def signing_input_def Split_at Split_plain nodot)
qed

text \<open>
  C4. A token is accepted only if it deserves it: it is signed, with RS256, by a usable key of the
  issuer that was cached and fresh or has just been fetched; it carries exactly the claims that
  are returned; they name the configured issuer and client and have not expired beyond the
  tolerance; and with times in a sane range they are current in exact arithmetic.
\<close>

theorem ParseAndValidate_sound:
  assumes "verifier_ok v" and "0 \<le> je_now env" and "ParseAndValidate rsaVerify env v raw = (Inr claims, v')"
  shows "\<exists>header key. signed_by rsaVerify raw header key claims \<and> key_from env v v' (th_KID header) key \<and> key_ok key \<and>
    c_Iss claims = vf_issuer v \<and> (vf_expectedAZP v = [] \<or> c_Azp claims = vf_expectedAZP v) \<and>
    c_Exp claims \<noteq> 0 \<and> je_now env \<le> moment (c_Exp claims) + vf_clockSkew v \<and>
    (claims_sane claims \<and> clock_sane v (je_now env) \<longrightarrow> claims_current v (je_now env) claims)"
proof -
  obtain header key where sg: "signed_by rsaVerify raw header key claims" and key: "key_from env v v' (th_KID header) key"
    and valid: "validateClaims (je_now env) v' claims = Inr ()"
    using ParseAndValidate_Inr [OF assms(3)] by blast
  from valid have valid: "validateClaims (je_now env) v claims = Inr ()"
    using key_from_settings [OF key] validateClaims_cong by metis
  have int64: "claims_int64 claims" using sg by (auto simp: signed_by_def dest: decodeClaims_int64)
  have skew: "0 < vf_clockSkew v" using assms(1) by (simp add: verifier_ok_def)
  show ?thesis
    using sg key key_from_ok [OF key assms(1)] validateClaims_sound [OF valid int64 assms(2) skew]
      validateClaims_exact [OF int64 _ _ skew] valid by (metis isOk.simps(2))
qed

text \<open>A verifier with one cached key, and a token signed for it; the signature check is a stand-in.\<close>

definition sample_verifier :: jwksVerifier where
  "sample_verifier = \<lparr>vf_issuer = ''https://sso'', vf_jwksEndpoint = ''https://sso/certs'', vf_expectedAZP = [],
     vf_clockSkew = defaultClockSkew, vf_cacheTTL = defaultCacheTTL, vf_keysByKid = [(''k1'', \<lparr>pk_N = 15, pk_E = 3\<rparr>)],
     vf_cacheUntil = moment 2000\<rparr>"

definition sample_jwt_env :: jwt_env where
  "sample_jwt_env = \<lparr>je_newRequest = (\<lambda>_. None), je_do = (\<lambda>_. Inl (ErrNew ''offline'')), je_lookup1 = moment 1000,
     je_refreshed = moment 1000, je_lookup2 = moment 1000, je_now = moment 1000\<rparr>"

definition sample_rsa :: rsa_verify where
  "sample_rsa key input sg = (if sg = ''sig'' then None else Some (ErrNew ''verification error''))"

definition sample_header :: string where "sample_header = ''{\"alg\":\"RS256\",\"kid\":\"k1\"}''"
definition sample_payload :: string where "sample_payload = ''{\"exp\":1500,\"iss\":\"https://sso\"}''"
definition sample_claims :: Claims where "sample_claims = zeroClaims\<lparr>c_Exp := 1500, c_Iss := ''https://sso''\<rparr>"

lemma sample_header_decodes:
  "unmarshal (dec_struct fieldsHeader) sample_header zeroHeader = Inr \<lparr>th_Alg = ''RS256'', th_KID = ''k1'', th_Typ = []\<rparr>"
  by code_simp

lemma sample_payload_decodes: "unmarshal (dec_struct fieldsClaims) sample_payload zeroClaims = Inr sample_claims"
  by code_simp

lemma sample_verifier_ok: "verifier_ok sample_verifier" "clock_sane sample_verifier (je_now sample_jwt_env)"
  by (simp_all add: verifier_ok_def sample_verifier_def defaultClockSkew_def defaultCacheTTL_def second_def keys_ok_def
      key_ok_def int64_range_def clock_sane_def sample_jwt_env_def moment_def unixToInternal_def far_def)

lemma sample_accepted:
  "ParseAndValidate sample_rsa sample_jwt_env sample_verifier (issued sample_header sample_payload ''sig'') =
   (Inr sample_claims, sample_verifier)"
proof -
  have "decodeHeader (encodeBase64URL sample_header) = Inr \<lparr>th_Alg = ''RS256'', th_KID = ''k1'', th_Typ = []\<rparr>"
    by (simp add: decodeHeader_def sample_header_decodes)
  moreover have "decodeClaims (encodeBase64URL sample_payload) = Inr sample_claims"
    by (simp add: decodeClaims_def sample_payload_decodes)
  moreover have "getSigningKey sample_jwt_env sample_verifier ''k1'' = (Inr \<lparr>pk_N = 15, pk_E = 3\<rparr>, sample_verifier)"
    by (simp add: getSigningKey_def getCachedKey_def lookup_key_def sample_verifier_def sample_jwt_env_def moment_def second_def)
  moreover have "validateClaims (je_now sample_jwt_env) sample_verifier sample_claims = Inr ()" by code_simp
  ultimately show ?thesis
    unfolding ParseAndValidate_def issued_parts by (simp add: verifyRS256_def sample_rsa_def)
qed

theorem ParseAndValidate_sound_witness:
  "\<exists>header key. signed_by sample_rsa (issued sample_header sample_payload ''sig'') header key sample_claims \<and> key_ok key \<and>
     c_Iss sample_claims = ''https://sso''"
  using ParseAndValidate_sound [OF sample_verifier_ok(1) _ sample_accepted]
  by (auto simp: sample_jwt_env_def moment_def unixToInternal_def second_def sample_verifier_def)

text \<open>
  C26. Honest tokens are accepted: when an issuer encodes a header asking for RS256 and current claims,
  and signs them for a key the verifier finds under the header's key id, the verifier returns
  exactly those claims.
\<close>

theorem issued_token_accepted:
  assumes "verifier_ok v" and "clock_sane v (je_now env)"
    and "unmarshal (dec_struct fieldsHeader) headerText zeroHeader = Inr header" and "th_Alg header = ''RS256''"
    and "unmarshal (dec_struct fieldsClaims) claimsText zeroClaims = Inr claims"
    and "claims_sane claims" and "claims_current v (je_now env) claims"
    and "getSigningKey env v (th_KID header) = (Inr key, v')"
    and "rsaVerify key (signing_input headerText claimsText) signature = None"
  shows "ParseAndValidate rsaVerify env v (issued headerText claimsText signature) = (Inr claims, v')"
proof -
  have header: "decodeHeader (encodeBase64URL headerText) = Inr header"
    using assms(3,4) by (simp add: decodeHeader_def)
  have claims: "decodeClaims (encodeBase64URL claimsText) = Inr claims"
    using assms(5) by (simp add: decodeClaims_def)
  have sg: "verifyRS256 rsaVerify (encodeBase64URL headerText @ ''.'' @ encodeBase64URL claimsText) (encodeBase64URL signature) key = Inr ()"
    using assms(9) by (simp add: verifyRS256_def signing_input_def)
  from getSigningKey_effect [OF assms(8)] have src: "key_from env v v' (th_KID header) key" by (simp add: key_from_def)
  have "isOk (validateClaims (je_now env) v claims)"
    using validateClaims_exact [OF decodeClaims_int64 [OF claims] assms(6,2)] assms(1,7) by (simp add: verifier_ok_def)
  then have "validateClaims (je_now env) v' claims = Inr ()"
    using key_from_settings [OF src] validateClaims_cong [of v' v] by (cases "validateClaims (je_now env) v claims") auto
  then show ?thesis
    unfolding ParseAndValidate_def issued_parts by (simp add: header assms(8) sg [simplified] claims)
qed

theorem issued_token_accepted_witness:
  "ParseAndValidate sample_rsa sample_jwt_env sample_verifier (issued sample_header sample_payload ''sig'') =
   (Inr sample_claims, sample_verifier)"
proof (rule issued_token_accepted [OF sample_verifier_ok sample_header_decodes _ sample_payload_decodes])
  show "getSigningKey sample_jwt_env sample_verifier (th_KID \<lparr>th_Alg = ''RS256'', th_KID = ''k1'', th_Typ = []\<rparr>) =
      (Inr \<lparr>pk_N = 15, pk_E = 3\<rparr>, sample_verifier)"
    by (simp add: getSigningKey_def getCachedKey_def lookup_key_def sample_verifier_def sample_jwt_env_def moment_def second_def)
qed (simp_all add: sample_claims_def zeroClaims_def claims_sane_def far_def claims_current_def sample_verifier_def
    sample_jwt_env_def moment_def unixToInternal_def second_def defaultClockSkew_def sample_rsa_def)

lemma ParseAndValidate_invariant:
  assumes "verifier_ok v"
  shows "case ParseAndValidate rsaVerify env v raw of (r, v') \<Rightarrow>
    verifier_ok v' \<and> (v' = v \<or> refreshed env v v') \<and> (case r of Inl e \<Rightarrow> token_error e | Inr _ \<Rightarrow> True)"
proof (cases "\<exists>h p sg. Split CHR ''.'' (TrimSpace raw) = [h, p, sg]")
  case False
  then have "ParseAndValidate rsaVerify env v raw = (Inl ErrTokenMalformed, v)"
    by (auto simp: ParseAndValidate_def split: list.splits)
  with assms show ?thesis by auto
next
  case True
  then obtain h p sg where parts: "Split CHR ''.'' (TrimSpace raw) = [h, p, sg]" by blast
  show ?thesis
  proof (cases "decodeHeader h")
    case (Inl e)
    with assms parts steps_errors(1) show ?thesis by (simp add: ParseAndValidate_def)
  next
    case (Inr header)
    obtain k v' where key: "getSigningKey env v (th_KID header) = (k, v')" by force
    have v': "v' = v \<or> refreshed env v v'" and err: "\<And>e. k = Inl e \<Longrightarrow> token_error e"
      using getSigningKey_effect [OF key] by (auto split: sum.splits)
    then have "verifier_ok v'" using assms refreshed_ok by blast
    with v' err Inr parts key steps_errors(2-4) show ?thesis
      by (auto simp: ParseAndValidate_def split: sum.splits)
  qed
qed

text \<open>
  Every refusal is one of the eight documented errors, and verification only ever changes the
  verifier's cache, by a document the endpoint has just served with at least one usable key;
  whatever is served, the cached keys have a positive modulus and an exponent above one.
\<close>

lemma ParseAndValidate_keeps:
  assumes "verifier_ok v"
  shows "case ParseAndValidate rsaVerify env v raw of (r, v') \<Rightarrow>
    verifier_ok v' \<and> (v' = v \<or> refreshed env v v') \<and> (case r of Inl e \<Rightarrow> token_error e | Inr _ \<Rightarrow> True)"
  using assms by (rule ParseAndValidate_invariant)

end
