(* ===== verification/Swagger_Pages.thy ===== *)
theory Swagger_Pages
  imports Json
begin

text \<open>
  The texts of the two Swagger pages (the constants \<open>swaggerPageHTMLTemplate\<close> and
  \<open>swaggerOAuth2RedirectHTML\<close> of \<open>internal/httpapi/http.go\<close>) and the rendering of the first with
  the client id of the identity provider, which goes into a script.
\<close>

definition text_lines :: "string list \<Rightarrow> string" where
  "text_lines ls = concat (map (\<lambda>l. l @ [CHR 0x0A]) ls)"

definition swaggerPageHTMLTemplate :: string where
  "swaggerPageHTMLTemplate = text_lines [
    ''<!doctype html>'',
    ''<html>'',
    ''<head>'',
    ''  <meta charset=\"utf-8\">'',
    ''  <meta name=\"viewport\" content=\"width=device-width, initial-scale=1\">'',
    ''  <title>Metric Sherlock API</title>'',
    ''  <link rel=\"stylesheet\" href=\"https://unpkg.com/swagger-ui-dist@5/swagger-ui.css\">'',
    ''</head>'',
    ''<body>'',
    ''  <div id=\"swagger-ui\"></div>'',
    ''  <script src=\"https://unpkg.com/swagger-ui-dist@5/swagger-ui-bundle.js\"></script>'',
    ''  <script>'',
    ''    const swaggerOAuthClientId = %s;'',
    ''    window.ui = SwaggerUIBundle({'',
    ''      url: \"/swagger/target-groups.json\",'',
    ''      dom_id: \"#swagger-ui\",'',
    ''      oauth2RedirectUrl: window.location.origin + \"/swagger/oauth2-redirect.html\"'',
    ''    });'',
    ''    const oauthConfig = {'',
    ''      usePkceWithAuthorizationCodeGrant: true'',
    ''    };'',
    ''    if (swaggerOAuthClientId) {'',
    ''      oauthConfig.clientId = swaggerOAuthClientId;'',
    ''    }'',
    ''    window.ui.initOAuth(oauthConfig);'',
    ''  </script>'',
    ''</body>'',
    ''</html>'']"

definition swaggerOAuth2RedirectHTML :: string where
  "swaggerOAuth2RedirectHTML = text_lines [
    ''<!doctype html>'',
    ''<html lang=\"en-US\">'',
    ''<head>'',
    ''  <title>Swagger UI: OAuth2 Redirect</title>'',
    ''</head>'',
    ''<body>'',
    ''  <script>'',
    ''    'use strict';'',
    ''    function run() {'',
    ''      var oauth2 = window.opener.swaggerUIRedirectOauth2;'',
    ''      var sentState = oauth2.state;'',
    ''      var redirectUrl = oauth2.redirectUrl;'',
    ''      var qp;'',
    [],
    ''      if (/code|token|error/.test(window.location.hash)) {'',
    ''        qp = window.location.hash.substring(1).replace('?', '&');'',
    ''      } else {'',
    ''        qp = location.search.substring(1);'',
    ''      }'',
    [],
    ''      var arr = qp.split('&').filter(function(v) { return v; });'',
    ''      arr.forEach(function(v, i, _arr) {'',
    ''        _arr[i] = '\"' + v.replace('=', '\":\"') + '\"';'',
    ''      });'',
    ''      qp = qp ? JSON.parse('{' + arr.join() + '}', function(key, value) {'',
    ''        return key === '' @ [CHR 0x27, CHR 0x27] @ '' ? value : decodeURIComponent(value);'',
    ''      }) : {};'',
    [],
    ''      var isValid = qp.state === sentState;'',
    [],
    ''      if ('',
    ''        (oauth2.auth.schema.get('flow') === 'accessCode' ||'',
    ''          oauth2.auth.schema.get('flow') === 'authorizationCode' ||'',
    ''          oauth2.auth.schema.get('flow') === 'authorization_code') &&'',
    ''        !oauth2.auth.code'',
    ''      ) {'',
    ''        if (!isValid) {'',
    ''          oauth2.errCb({'',
    ''            authId: oauth2.auth.name,'',
    ''            source: 'auth','',
    ''            level: 'warning','',
    ''            message: 'Authorization may be unsafe, passed state was changed in server','',
    ''          });'',
    ''        }'',
    [],
    ''        if (qp.code) {'',
    ''          delete oauth2.state;'',
    ''          oauth2.auth.code = qp.code;'',
    ''          oauth2.callback({ auth: oauth2.auth, redirectUrl: redirectUrl });'',
    ''        } else {'',
    ''          var oauthErrorMsg;'',
    ''          if (qp.error) {'',
    ''            oauthErrorMsg ='',
    ''              '[' + qp.error + ']: ' +'',
    ''              (qp.error_description || 'no accessCode received from the server');'',
    ''          }'',
    ''          oauth2.errCb({'',
    ''            authId: oauth2.auth.name,'',
    ''            source: 'auth','',
    ''            level: 'error','',
    ''            message: oauthErrorMsg || '[Authorization failed]: no accessCode received from the server','',
    ''          });'',
    ''        }'',
    ''      } else {'',
    ''        oauth2.callback({'',
    ''          auth: oauth2.auth,'',
    ''          token: qp.access_token,'',
    ''          isValid: isValid,'',
    ''          redirectUrl: redirectUrl,'',
    ''        });'',
    ''      }'',
    [],
    ''      window.close();'',
    ''    }'',
    [],
    ''    if (document.readyState !== 'loading') {'',
    ''      run();'',
    ''    } else {'',
    ''      document.addEventListener('DOMContentLoaded', run);'',
    ''    }'',
    ''  </script>'',
    ''</body>'',
    ''</html>'']"

text \<open>\<open>fmt.Sprintf\<close> for a format whose only verb is \<open>%s\<close>.\<close>

fun Sprintf_s :: "string \<Rightarrow> string list \<Rightarrow> string" where
  "Sprintf_s (c # d # cs) args =
     (if c = CHR ''%'' \<and> d = CHR ''s''
      then (case args of [] \<Rightarrow> ''%!s(MISSING)'' @ Sprintf_s cs [] | arg # args \<Rightarrow> arg @ Sprintf_s cs args)
      else c # Sprintf_s (d # cs) args)"
| "Sprintf_s cs args = cs"

definition renderSwaggerPageHTML :: "string \<Rightarrow> string" where
  "renderSwaggerPageHTML swaggerOAuthClientID =
     Sprintf_s swaggerPageHTMLTemplate [json_text (JStr (TrimSpace swaggerOAuthClientID))]"

section \<open>The rendered page\<close>

lemma Sprintf_s_plain: "CHR ''%'' \<notin> set cs \<Longrightarrow> Sprintf_s cs args = cs"
  by (induction cs args rule: Sprintf_s.induct) auto

lemma Sprintf_s_split: "CHR ''%'' \<notin> set before \<Longrightarrow> Sprintf_s (before @ ''%s'' @ after) (arg # args) = before @ arg @ Sprintf_s after args"
proof (induction before)
  case (Cons c cs)
  then show ?case by (cases cs) auto
qed simp

definition script_before :: string where
  "script_before = text_lines [
    ''<!doctype html>'',
    ''<html>'',
    ''<head>'',
    ''  <meta charset=\"utf-8\">'',
    ''  <meta name=\"viewport\" content=\"width=device-width, initial-scale=1\">'',
    ''  <title>Metric Sherlock API</title>'',
    ''  <link rel=\"stylesheet\" href=\"https://unpkg.com/swagger-ui-dist@5/swagger-ui.css\">'',
    ''</head>'',
    ''<body>'',
    ''  <div id=\"swagger-ui\"></div>'',
    ''  <script src=\"https://unpkg.com/swagger-ui-dist@5/swagger-ui-bundle.js\"></script>'',
    ''  <script>''] @ ''    const swaggerOAuthClientId = ''"

definition script_after :: string where
  "script_after = '';'' @ [CHR 0x0A] @ text_lines [
    ''    window.ui = SwaggerUIBundle({'',
    ''      url: \"/swagger/target-groups.json\",'',
    ''      dom_id: \"#swagger-ui\",'',
    ''      oauth2RedirectUrl: window.location.origin + \"/swagger/oauth2-redirect.html\"'',
    ''    });'',
    ''    const oauthConfig = {'',
    ''      usePkceWithAuthorizationCodeGrant: true'',
    ''    };'',
    ''    if (swaggerOAuthClientId) {'',
    ''      oauthConfig.clientId = swaggerOAuthClientId;'',
    ''    }'',
    ''    window.ui.initOAuth(oauthConfig);'',
    ''  </script>'',
    ''</body>'',
    ''</html>'']"

lemma template_split: "swaggerPageHTMLTemplate = script_before @ ''%s'' @ script_after"
  by (simp add: swaggerPageHTMLTemplate_def script_before_def script_after_def text_lines_def)

lemma no_other_verb: "CHR ''%'' \<notin> set script_before" "CHR ''%'' \<notin> set script_after"
  by (simp_all add: script_before_def script_after_def text_lines_def)

lemma renderSwaggerPageHTML_eq:
  "renderSwaggerPageHTML clientID = script_before @ json_text (JStr (TrimSpace clientID)) @ script_after"
  unfolding renderSwaggerPageHTML_def template_split
  by (simp add: Sprintf_s_split [OF no_other_verb(1), simplified] Sprintf_s_plain [OF no_other_verb(2)])

end
