(* ===== verification/Http_Handler.thy ===== *)
theory Http_Handler
  imports Jwt Swagger_Pages
begin

text \<open>
  The HTTP front of the service: the authentication middleware
  (\<open>internal/httpapi/auth_middleware.go\<close>) and the handler \<open>NewHandler\<close> builds
  (\<open>internal/httpapi/http.go\<close>): which path goes where, the Swagger pages, and the decoration
  of the Swagger specification with the single sign-on scheme.

  A handler is a function of the request and the state. The gateway that dispatches API calls
  (grpc-gateway with the generated stubs, see \<open>Gateway\<close>) is the argument \<open>gw\<close>. Paths are taken without
  percent-encoding; the pages' texts are in \<open>Swagger_Pages\<close>.

  The middleware is written against the interface \<open>Verifier\<close>: the locale \<open>token_verifier\<close> says
  what it relies on, and it is interpreted on the JWKS verifier of \<open>Jwt\<close>.
\<close>

section \<open>Requests and responses\<close>

record Request =
  rq_Method :: string
  rq_Path :: string
  rq_RawQuery :: string
  rq_Authorization :: string
  rq_Body :: string
  rq_ctx :: Context

record Response =
  resp_status :: int
  resp_contentType :: string
  resp_location :: string
  resp_body :: string

type_synonym 's handler = "Request \<Rightarrow> 's \<Rightarrow> Response \<times> 's"

section \<open>The middleware\<close>

definition errInvalidAuthorizationHeader :: goerr where
  "errInvalidAuthorizationHeader = ErrNew ''invalid authorization header''"

definition extractBearerToken :: "string \<Rightarrow> string result" where
  "extractBearerToken authHeader =
     (case Fields authHeader of
        [scheme, token] \<Rightarrow>
          if \<not> EqualFold scheme ''Bearer'' then Inl errInvalidAuthorizationHeader
          else if token = [] then Inl errInvalidAuthorizationHeader
          else Inr token
      | _ \<Rightarrow> Inl errInvalidAuthorizationHeader)"

definition writeAuthError :: "int \<Rightarrow> string \<Rightarrow> Response" where
  "writeAuthError statusCode message =
     \<lparr>resp_status = statusCode, resp_contentType = ''application/json'', resp_location = [],
      resp_body = ''{\"error\":\"'' @ message @ ''\"}''\<rparr>"

definition authMiddleware :: "(string \<Rightarrow> 's \<Rightarrow> Claims result \<times> 's) \<Rightarrow> 's handler \<Rightarrow> 's handler" where
  "authMiddleware verify nxt r s =
     (case extractBearerToken (rq_Authorization r) of
        Inl e \<Rightarrow> (writeAuthError 401 ''unauthorized'', s)
      | Inr token \<Rightarrow>
          (case verify token s of
             (Inl e, s) \<Rightarrow> (writeAuthError 401 ''unauthorized'', s)
           | (Inr claims, s) \<Rightarrow> nxt (r\<lparr>rq_ctx := WithClaims (rq_ctx r) (Some claims)\<rparr>) s))"

definition RequireAnyRole :: "string list \<Rightarrow> 's handler \<Rightarrow> 's handler" where
  "RequireAnyRole roles nxt =
     (if length roles = 0 then nxt
      else (\<lambda>r s. if \<not> HasAnyRole (rq_ctx r) roles then (writeAuthError 403 ''forbidden'', s) else nxt r s))"

section \<open>The Swagger pages\<close>

definition html_type :: string where "html_type = ''text/html; charset=utf-8''"

definition http_NotFound :: Response where
  "http_NotFound = \<lparr>resp_status = 404, resp_contentType = ''text/plain; charset=utf-8'', resp_location = [],
     resp_body = ''404 page not found'' @ [CHR 0x0A]\<rparr>"

text \<open>\<open>http.Redirect\<close>; the short HTML note it adds for a browser is left out.\<close>

definition http_Redirect :: "int \<Rightarrow> string \<Rightarrow> Response" where
  "http_Redirect code url = \<lparr>resp_status = code, resp_contentType = html_type, resp_location = url, resp_body = []\<rparr>"

definition swaggerRedirectHandler :: "Request \<Rightarrow> Response" where
  "swaggerRedirectHandler r = http_Redirect 307 ''/swagger/''"

definition swaggerJSONHandler :: "string \<Rightarrow> Request \<Rightarrow> Response" where
  "swaggerJSONHandler swaggerSpec r =
     (if rq_Method r \<noteq> ''GET'' then \<lparr>resp_status = 405, resp_contentType = [], resp_location = [], resp_body = []\<rparr>
      else \<lparr>resp_status = 200, resp_contentType = ''application/json'', resp_location = [], resp_body = swaggerSpec\<rparr>)"

definition swaggerUIHandler :: "string \<Rightarrow> Request \<Rightarrow> Response" where
  "swaggerUIHandler swaggerPageHTML r =
     (if rq_Path r \<noteq> ''/swagger/'' \<and> rq_Path r \<noteq> ''/swagger/index.html'' then http_NotFound
      else \<lparr>resp_status = 200, resp_contentType = html_type, resp_location = [], resp_body = swaggerPageHTML\<rparr>)"

definition swaggerOAuth2RedirectHandler :: "Request \<Rightarrow> Response" where
  "swaggerOAuth2RedirectHandler r =
     (if rq_Path r \<noteq> ''/swagger/oauth2-redirect.html'' then http_NotFound
      else \<lparr>resp_status = 200, resp_contentType = html_type, resp_location = [], resp_body = swaggerOAuth2RedirectHTML\<rparr>)"

section \<open>Decorating the specification\<close>

text \<open>
  \<open>json.Unmarshal\<close> into \<open>any\<close> and \<open>json.Marshal\<close> back: objects become maps (the last of equal
  keys stays) and come out in key order, numbers become \<open>float64\<close> and are printed as such, which
  \<open>floatText\<close> stands for.
\<close>

definition sorted_members :: "members \<Rightarrow> members" where
  "sorted_members ms = map (\<lambda>k. (k, the (map_of (rev ms) k))) (sort (remdups (map fst ms)))"

fun any_value :: "(string \<Rightarrow> string option) \<Rightarrow> json \<Rightarrow> json option" where
  "any_value floatText JNull = Some JNull"
| "any_value floatText (JBool b) = Some (JBool b)"
| "any_value floatText (JNum n) = map_option JNum (floatText n)"
| "any_value floatText (JStr t) = Some (JStr t)"
| "any_value floatText (JArr vs) = map_option JArr (those (map (any_value floatText) vs))"
| "any_value floatText (JObj ms) =
     map_option (\<lambda>ms. JObj (sorted_members ms)) (those (map (\<lambda>(k, v). map_option (Pair k) (any_value floatText v)) ms))"

definition put_member :: "string \<Rightarrow> json \<Rightarrow> members \<Rightarrow> members" where
  "put_member k v ms = sorted_members (ms @ [(k, v)])"

definition ssoSecuritySchemeName :: string where "ssoSecuritySchemeName = ''sso''"

definition sso_scheme :: "string \<Rightarrow> json" where
  "sso_scheme idp = JObj
     [(''authorizationUrl'', JStr (idp @ ''/protocol/openid-connect/auth'')), (''flow'', JStr ''accessCode''),
      (''scopes'', JObj []), (''tokenUrl'', JStr (idp @ ''/protocol/openid-connect/token'')), (''type'', JStr ''oauth2'')]"

definition members_of :: "json option \<Rightarrow> members" where
  "members_of v = (case v of Some (JObj ms) \<Rightarrow> ms | _ \<Rightarrow> [])"

definition elements_of :: "json option \<Rightarrow> json list" where
  "elements_of v = (case v of Some (JArr vs) \<Rightarrow> vs | _ \<Rightarrow> [])"

definition requires_sso :: "json \<Rightarrow> bool" where
  "requires_sso v = (case v of JObj ms \<Rightarrow> map_of ms ssoSecuritySchemeName \<noteq> None | _ \<Rightarrow> False)"

definition decorate_members :: "string \<Rightarrow> members \<Rightarrow> members" where
  "decorate_members idp spec =
     (let securityDefinitions = put_member ssoSecuritySchemeName (sso_scheme idp) (members_of (map_of spec ''securityDefinitions''));
          spec = put_member ''securityDefinitions'' (JObj securityDefinitions) spec;
          security = elements_of (map_of spec ''security'');
          security = (if list_ex requires_sso security then security
                      else security @ [JObj [(ssoSecuritySchemeName, JArr [])]])
      in put_member ''security'' (JArr security) spec)"

text \<open>A specification that is \<open>null\<close> leaves the map nil; writing to it panics.\<close>

definition decorateSwaggerSpecWithSSO :: "(string \<Rightarrow> string option) \<Rightarrow> string \<Rightarrow> string \<Rightarrow> string result" where
  "decorateSwaggerSpecWithSSO floatText swaggerSpec idp =
     (let idp = TrimSpace (TrimRight (\<lambda>c. c = CHR ''/'') idp) in
      if idp = [] then Inr swaggerSpec
      else case Option.bind (parse_json swaggerSpec) (any_value floatText) of
        Some (JObj spec) \<Rightarrow> Inr (json_text (JObj (decorate_members idp spec)))
      | Some JNull \<Rightarrow> Inl (ErrNew ''assignment to entry in nil map'')
      | _ \<Rightarrow> Inl errUnmarshal)"

section \<open>Routing\<close>

text \<open>
  \<open>http.ServeMux\<close> for the five patterns \<open>NewHandler\<close> registers. A path that is not clean is
  redirected to the clean one (except for \<open>CONNECT\<close>), and \<open>/api/v1\<close> to \<open>/api/v1/\<close>, with the
  status \<open>slashStatus\<close>.
\<close>

datatype route = ApiRoute | SwaggerRedirectRoute | SwaggerOAuthRoute | SwaggerUIRoute | SwaggerJSONRoute

definition mux_match :: "string \<Rightarrow> route option" where
  "mux_match path =
     (if path = ''/swagger'' then Some SwaggerRedirectRoute
      else if path = ''/swagger/oauth2-redirect.html'' then Some SwaggerOAuthRoute
      else if path = ''/swagger/target-groups.json'' then Some SwaggerJSONRoute
      else if take 9 path = ''/swagger/'' then Some SwaggerUIRoute
      else if take 8 path = ''/api/v1/'' then Some ApiRoute
      else None)"

fun clean_segments :: "string list \<Rightarrow> string list \<Rightarrow> string list" where
  "clean_segments acc [] = rev acc"
| "clean_segments acc (seg # segs) =
     (if seg = [] \<or> seg = ''.'' then clean_segments acc segs
      else if seg = ''..'' then clean_segments (drop 1 acc) segs
      else clean_segments (seg # acc) segs)"

definition cleanPath :: "string \<Rightarrow> string" where
  "cleanPath p =
     (if p = [] then ''/''
      else let np = ''/'' @ join ''/'' (clean_segments [] (Split CHR ''/'' p)) in
        if last p = CHR ''/'' \<and> np \<noteq> ''/'' then np @ ''/'' else np)"

record Pages =
  pg_spec :: string
  pg_page :: string

definition serveRoute :: "(string \<Rightarrow> 's \<Rightarrow> Claims result \<times> 's) \<Rightarrow> 's handler \<Rightarrow> Pages \<Rightarrow> route \<Rightarrow> 's handler" where
  "serveRoute verify gw pages rt r s =
     (case rt of
        ApiRoute \<Rightarrow> authMiddleware verify gw r s
      | SwaggerRedirectRoute \<Rightarrow> (swaggerRedirectHandler r, s)
      | SwaggerOAuthRoute \<Rightarrow> (swaggerOAuth2RedirectHandler r, s)
      | SwaggerUIRoute \<Rightarrow> (swaggerUIHandler (pg_page pages) r, s)
      | SwaggerJSONRoute \<Rightarrow> (swaggerJSONHandler (pg_spec pages) r, s))"

definition serveMux :: "int \<Rightarrow> (string \<Rightarrow> 's \<Rightarrow> Claims result \<times> 's) \<Rightarrow> 's handler \<Rightarrow> Pages \<Rightarrow> 's handler" where
  "serveMux slashStatus verify gw pages r s =
     (let path = (if rq_Method r = ''CONNECT'' then rq_Path r else cleanPath (rq_Path r)) in
      if path = ''/api/v1'' then (http_Redirect slashStatus ''/api/v1/'', s)
      else if path \<noteq> rq_Path r then (http_Redirect 301 path, s)
      else case mux_match path of
        None \<Rightarrow> (http_NotFound, s)
      | Some rt \<Rightarrow> serveRoute verify gw pages rt r s)"

text \<open>\<open>verify\<close> is \<open>None\<close> for a nil verifier; registering the generated handlers cannot fail.\<close>

definition NewHandler ::
  "(string \<Rightarrow> string option) \<Rightarrow> int \<Rightarrow> string \<Rightarrow>
   (string \<Rightarrow> 's \<Rightarrow> Claims result \<times> 's) option \<Rightarrow> 's handler \<Rightarrow> string \<Rightarrow> string \<Rightarrow> 's handler result" where
  "NewHandler floatText slashStatus swaggerJSON verifier gw swaggerSSOIDP swaggerOAuthClientID =
     (case verifier of
        None \<Rightarrow> Inl (ErrNew ''jwt verifier is nil'')
      | Some verify \<Rightarrow>
          (case decorateSwaggerSpecWithSSO floatText swaggerJSON swaggerSSOIDP of
             Inl e \<Rightarrow> Inl e
           | Inr swaggerSpec \<Rightarrow>
               Inr (serveMux slashStatus verify gw
                 \<lparr>pg_spec = swaggerSpec, pg_page = renderSwaggerPageHTML swaggerOAuthClientID\<rparr>)))"

section \<open>The pages\<close>

text \<open>The client id cannot leave its place in the script: what is inserted has no angle bracket.\<close>

lemma hexdigit_plain: "n < 16 \<Longrightarrow> hexdigit n \<noteq> CHR ''<'' \<and> hexdigit n \<noteq> CHR ''>''"
proof -
  assume "n < 16"
  then have "(of_char (hexdigit n) :: nat) \<noteq> 60" "(of_char (hexdigit n) :: nat) \<noteq> 62"
    by (auto simp: hexdigit_def of_char_of)
  then show ?thesis by (auto)
qed

lemma u_escape_plain: "n < 65536 \<Longrightarrow> set (u_escape n) \<inter> {CHR ''<'', CHR ''>''} = {}"
  using hexdigit_plain [of "n div 4096"] hexdigit_plain [of "n div 256 mod 16"] hexdigit_plain [of "n div 16 mod 16"]
    hexdigit_plain [of "n mod 16"]
  by (auto simp: u_escape_def backslash_def)

lemma escape_plain: "set (escape s) \<inter> {CHR ''<'', CHR ''>''} = {}"
proof (induction s rule: escape.induct)
  case (2 c cs)
  have "(of_char c :: nat) < 65536" using of_char_less_256 [of c] by linarith
  then have "set (escape_char c) \<inter> {CHR ''<'', CHR ''>''} = {}"
    using u_escape_plain by (auto simp: escape_char_def backslash_def quote_mark_def)
  with 2 u_escape_plain [of "8232"] u_escape_plain [of "8233"] show ?case by auto
qed simp

lemma renderSwaggerPageHTML_safe:
  "\<exists>lit. renderSwaggerPageHTML clientID = script_before @ lit @ script_after \<and>
     parse_json lit = Some (JStr (TrimSpace clientID)) \<and> set lit \<inter> {CHR ''<'', CHR ''>''} = {}"
  using escape_plain [of "TrimSpace clientID"] parse_json_text [of "JStr (TrimSpace clientID)"]
  by (auto simp: renderSwaggerPageHTML_eq quote_string_def quote_mark_def)

text \<open>Decorating a specification adds the scheme and its requirement and leaves every other member.\<close>

lemma map_of_sorted_members: "map_of (sorted_members ms) k = map_of (rev ms) k"
proof (cases "k \<in> fst ` set ms")
  case True
  then have "map_of (rev ms) k \<noteq> None" by (simp add: map_of_eq_None_iff)
  moreover have "map_of (map (\<lambda>k. (k, the (map_of (rev ms) k))) ks) k = (if k \<in> set ks then Some (the (map_of (rev ms) k)) else None)" for ks
    by (induction ks) auto
  ultimately show ?thesis using True by (auto simp: sorted_members_def)
next
  case False
  then have "map_of (rev ms) k = None" by (simp add: map_of_eq_None_iff)
  moreover have "map_of (sorted_members ms) k = None"
    using False by (simp add: map_of_eq_None_iff sorted_members_def image_image)
  ultimately show ?thesis by simp
qed

lemma map_of_put_member: "map_of (put_member k v ms) j = (if j = k then Some v else map_of (rev ms) j)"
  by (simp add: put_member_def map_of_sorted_members)

lemma map_of_rev_put_member: "map_of (rev (put_member k v ms)) j = map_of (put_member k v ms) j"
proof -
  have "distinct (map fst (put_member k v ms))" by (simp add: put_member_def sorted_members_def comp_def)
  then show ?thesis by (metis distinct_rev map_of_inject_set rev_map set_rev)
qed

lemma decorate_members_effect:
  "map_of (decorate_members idp spec) ''securityDefinitions'' =
     Some (JObj (put_member ssoSecuritySchemeName (sso_scheme idp) (members_of (map_of spec ''securityDefinitions''))))"
  "\<exists>reqs. map_of (decorate_members idp spec) ''security'' = Some (JArr reqs) \<and> list_ex requires_sso reqs"
  "j \<noteq> ''security'' \<Longrightarrow> j \<noteq> ''securityDefinitions'' \<Longrightarrow> map_of (decorate_members idp spec) j = map_of (rev spec) j"
  by (auto simp: decorate_members_def Let_def map_of_put_member map_of_rev_put_member requires_sso_def)

section \<open>What the middleware relies on, and what it guarantees\<close>

locale token_verifier =
  fixes verify :: "string \<Rightarrow> 's \<Rightarrow> Claims result \<times> 's" and inv :: "'s \<Rightarrow> bool" and backend :: "'s \<Rightarrow> 'b"
    and vouched :: "'s \<Rightarrow> string \<Rightarrow> Claims \<Rightarrow> bool"
  assumes keeps: "verify token s = (r, s') \<Longrightarrow> inv s \<Longrightarrow> inv s' \<and> backend s' = backend s"
    and sound: "verify token s = (Inr c, s') \<Longrightarrow> inv s \<Longrightarrow> vouched s token c"
begin

text \<open>Either the request is turned away, or the next handler runs on it with vouched claims.\<close>

lemma authMiddleware_guards:
  assumes "inv s" and "authMiddleware verify nxt r s = (resp, s')"
  shows "(resp_status resp = 401 \<and> inv s' \<and> backend s' = backend s) \<or>
    (\<exists>token c s1. extractBearerToken (rq_Authorization r) = Inr token \<and> vouched s token c \<and> inv s1 \<and>
       backend s1 = backend s \<and> nxt (r\<lparr>rq_ctx := WithClaims (rq_ctx r) (Some c)\<rparr>) s1 = (resp, s'))"
proof (cases "extractBearerToken (rq_Authorization r)")
  case (Inl e)
  with assms show ?thesis by (auto simp: authMiddleware_def writeAuthError_def)
next
  case (Inr token)
  obtain x s1 where v: "verify token s = (x, s1)" by force
  show ?thesis
  proof (cases x)
    case (Inl e)
    with Inr v assms keeps [OF v assms(1)] show ?thesis by (auto simp: authMiddleware_def writeAuthError_def)
  next
    case (Inr c)
    with \<open>extractBearerToken (rq_Authorization r) = Inr token\<close> v assms keeps [OF v assms(1)] sound [of token s c s1]
    show ?thesis by (auto simp: authMiddleware_def)
  qed
qed

text \<open>The same for the whole handler: only API paths lead to the gateway.\<close>

lemma serveMux_guards:
  assumes "inv s" and "serveMux slashStatus verify gw pages r s = (resp, s')"
  shows "(inv s' \<and> backend s' = backend s \<and> (mux_match (rq_Path r) \<noteq> Some ApiRoute \<or> resp_status resp \<in> {401, 301, slashStatus})) \<or>
    (mux_match (rq_Path r) = Some ApiRoute \<and>
     (\<exists>token c s1. extractBearerToken (rq_Authorization r) = Inr token \<and> vouched s token c \<and> inv s1 \<and>
       backend s1 = backend s \<and> gw (r\<lparr>rq_ctx := WithClaims (rq_ctx r) (Some c)\<rparr>) s1 = (resp, s')))"
proof -
  let ?path = "if rq_Method r = ''CONNECT'' then rq_Path r else cleanPath (rq_Path r)"
  show ?thesis
  proof (cases "?path = ''/api/v1'' \<or> ?path \<noteq> rq_Path r")
    case True
    with assms show ?thesis by (auto simp: serveMux_def Let_def http_Redirect_def split: if_splits)
  next
    case False
    then have p: "?path = rq_Path r" "rq_Path r \<noteq> ''/api/v1''" by metis+
    have s: "serveMux slashStatus verify gw pages r s =
        (case mux_match (rq_Path r) of None \<Rightarrow> (http_NotFound, s) | Some rt \<Rightarrow> serveRoute verify gw pages rt r s)"
      unfolding serveMux_def Let_def p(1) using p(2) by simp
    show ?thesis
    proof (cases "mux_match (rq_Path r) = Some ApiRoute")
      case True
      with s assms(2) have "authMiddleware verify gw r s = (resp, s')" by (simp add: serveRoute_def)
      from authMiddleware_guards [OF assms(1) this] True show ?thesis by auto
    next
      case False
      with s assms show ?thesis by (auto simp: serveRoute_def split: option.splits route.splits)
    qed
  qed
qed

end

section \<open>The JWKS verifier is such a verifier\<close>

text \<open>
  The state behind the handler: the verifier, how many tokens it has been asked about (\<open>envs\<close> gives
  the surroundings of each call), and the backend the gateway works on.
\<close>

type_synonym 'b Front = "(jwksVerifier \<times> nat) \<times> 'b"

definition jwks_verify :: "rsa_verify \<Rightarrow> (nat \<Rightarrow> jwt_env) \<Rightarrow> string \<Rightarrow> 'b Front \<Rightarrow> Claims result \<times> 'b Front" where
  "jwks_verify rsaVerify envs token s =
     (case s of ((v, n), b) \<Rightarrow> case ParseAndValidate rsaVerify (envs n) v token of (r, v') \<Rightarrow> (r, ((v', Suc n), b)))"

definition on_backend :: "'b handler \<Rightarrow> 'b Front handler" where
  "on_backend gw r s = (case s of (f, b) \<Rightarrow> case gw r b of (resp, b') \<Rightarrow> (resp, (f, b')))"

text \<open>
  What a token must be for a call of the verifier \<open>v\<close> in the surroundings \<open>env\<close>: signed by a key that \<open>v\<close>
  holds in a fresh cache or fetches in this call, with claims that name its issuer and client, that
  have not expired (for a clock after the year 1) and that are current as far as its time stamps and the
  clock are in a sane range, where no arithmetic on times wraps.
\<close>

definition jwks_vouched :: "rsa_verify \<Rightarrow> jwt_env \<Rightarrow> jwksVerifier \<Rightarrow> string \<Rightarrow> Claims \<Rightarrow> bool" where
  "jwks_vouched rsaVerify env v token c \<longleftrightarrow>
     (\<exists>header key v'. signed_by rsaVerify token header key c \<and> key_from env v v' (th_KID header) key \<and> key_ok key) \<and>
     c_Iss c = vf_issuer v \<and> (vf_expectedAZP v = [] \<or> c_Azp c = vf_expectedAZP v) \<and>
     c_Exp c \<noteq> 0 \<and> (0 \<le> je_now env \<longrightarrow> je_now env \<le> moment (c_Exp c) + vf_clockSkew v) \<and>
     (claims_sane c \<and> clock_sane v (je_now env) \<longrightarrow> claims_current v (je_now env) c)"

lemma ParseAndValidate_vouched:
  assumes "verifier_ok v" and "ParseAndValidate rsaVerify env v raw = (Inr c, v')"
  shows "jwks_vouched rsaVerify env v raw c"
proof -
  obtain header key where sg: "signed_by rsaVerify raw header key c" and key: "key_from env v v' (th_KID header) key"
    and valid: "validateClaims (je_now env) v' c = Inr ()"
    using ParseAndValidate_Inr [OF assms(2)] by blast
  from valid have valid: "validateClaims (je_now env) v c = Inr ()"
    using key_from_settings [OF key] validateClaims_cong by metis
  have int64: "claims_int64 c" using sg by (auto simp: signed_by_def dest: decodeClaims_int64)
  have skew: "0 < vf_clockSkew v" using assms(1) by (simp add: verifier_ok_def)
  have "c_Iss c = vf_issuer v" "vf_expectedAZP v = [] \<or> c_Azp c = vf_expectedAZP v" "c_Exp c \<noteq> 0"
    using valid by (auto simp: validateClaims_def split: if_splits)
  moreover have "je_now env \<le> moment (c_Exp c) + vf_clockSkew v" if "0 \<le> je_now env"
    using validateClaims_sound [OF valid int64 that skew] by simp
  moreover have "claims_current v (je_now env) c" if "claims_sane c" "clock_sane v (je_now env)"
    using validateClaims_exact [OF int64 that skew] valid by (metis isOk.simps(2))
  ultimately show ?thesis
    unfolding jwks_vouched_def using sg key key_from_ok [OF key assms(1)] by blast
qed

lemma on_backend_result: "on_backend gw r (f, b) = (resp, (f', b')) \<longleftrightarrow> f' = f \<and> gw r b = (resp, b')"
  by (cases "gw r b") (auto simp: on_backend_def)

lemma ParseAndValidate_ok: "verifier_ok v \<Longrightarrow> ParseAndValidate rsaVerify env v raw = (r, v') \<Longrightarrow> verifier_ok v'"
  using ParseAndValidate_invariant [of v env rsaVerify raw] by simp

interpretation jwks: token_verifier "jwks_verify rsaVerify envs" "\<lambda>s. verifier_ok (fst (fst s))" snd
    "\<lambda>s. jwks_vouched rsaVerify (envs (snd (fst s))) (fst (fst s))"
  for rsaVerify :: rsa_verify and envs :: "nat \<Rightarrow> jwt_env"
proof unfold_locales
  fix token and s s' :: "'a Front"
  show "verifier_ok (fst (fst s')) \<and> snd s' = snd s"
    if "jwks_verify rsaVerify envs token s = (r, s')" "verifier_ok (fst (fst s))" for r
    using that ParseAndValidate_ok by (auto simp: jwks_verify_def split: prod.splits)
  show "jwks_vouched rsaVerify (envs (snd (fst s))) (fst (fst s)) token c"
    if "jwks_verify rsaVerify envs token s = (Inr c, s')" "verifier_ok (fst (fst s))" for c
    using that ParseAndValidate_vouched by (auto simp: jwks_verify_def split: prod.splits)
qed

lemma NewHandler_guards:
  assumes "NewHandler floatText slashStatus swaggerJSON (Some (jwks_verify rsaVerify envs))
      (on_backend gw) idp clientID = Inr handler"
    and "verifier_ok v" and "handler r ((v, n), b) = (resp, ((v', n'), b'))"
  shows "(b' = b \<and> (mux_match (rq_Path r) \<noteq> Some ApiRoute \<or> resp_status resp \<in> {401, 301, slashStatus})) \<or>
    (mux_match (rq_Path r) = Some ApiRoute \<and>
     (\<exists>token c. extractBearerToken (rq_Authorization r) = Inr token \<and> jwks_vouched rsaVerify (envs n) v token c \<and>
        gw (r\<lparr>rq_ctx := WithClaims (rq_ctx r) (Some c)\<rparr>) b = (resp, b')))"
proof -
  obtain pages where h: "handler = serveMux slashStatus (jwks_verify rsaVerify envs) (on_backend gw) pages"
    using assms(1) by (auto simp: NewHandler_def split: sum.splits)
  have ok: "verifier_ok (fst (fst ((v, n), b)))" using assms(2) by simp
  from jwks.serveMux_guards [OF ok assms(3) [unfolded h]] show ?thesis
    by (auto simp: on_backend_result)
qed

text \<open>
  C3. No request reaches the gateway without a token the verifier has reason to accept. For the handler
  of the service, every request either leaves the backend as it was (and if its path is an API path it is
  answered with 401 or a redirect), or it is an API request that carries in its \<open>Authorization\<close> header
  a bearer token as \<open>jwks_vouched\<close> says: signed by a key the verifier holds or fetches, for the
  configured issuer and client, not expired and, with sane time stamps, current; and the gateway runs
  on it with exactly the token's claims in its context. So an expired token gets 401 (or a redirect).
\<close>

theorem api_requires_token:
  assumes "NewHandler floatText slashStatus swaggerJSON (Some (jwks_verify rsaVerify envs))
      (on_backend gw) idp clientID = Inr handler"
    and "verifier_ok v" and "handler r ((v, n), b) = (resp, ((v', n'), b'))"
  shows "(b' = b \<and> (mux_match (rq_Path r) \<noteq> Some ApiRoute \<or> resp_status resp \<in> {401, 301, slashStatus})) \<or>
    (mux_match (rq_Path r) = Some ApiRoute \<and>
     (\<exists>token c. extractBearerToken (rq_Authorization r) = Inr token \<and> jwks_vouched rsaVerify (envs n) v token c \<and>
        gw (r\<lparr>rq_ctx := WithClaims (rq_ctx r) (Some c)\<rparr>) b = (resp, b')))"
  using assms by (rule NewHandler_guards)

text \<open>A gateway that counts its calls, and a request with the token of \<open>Jwt\<close>'s example.\<close>

definition counting_gateway :: "nat handler" where
  "counting_gateway r b = (\<lparr>resp_status = 200, resp_contentType = [], resp_location = [], resp_body = []\<rparr>, Suc b)"

definition sample_token :: string where "sample_token = issued sample_header sample_payload ''sig''"

definition sample_api_request :: Request where
  "sample_api_request = \<lparr>rq_Method = ''GET'', rq_Path = ''/api/v1/groups'', rq_RawQuery = [],
     rq_Authorization = ''Bearer '' @ sample_token, rq_Body = [], rq_ctx = Background\<rparr>"

definition sample_front :: "nat Front handler" where
  "sample_front = serveMux 307 (jwks_verify sample_rsa (\<lambda>_. sample_jwt_env)) (on_backend counting_gateway)
     \<lparr>pg_spec = ''{}'', pg_page = renderSwaggerPageHTML []\<rparr>"

lemma sample_front_new:
  "NewHandler (\<lambda>_. None) 307 ''{}'' (Some (jwks_verify sample_rsa (\<lambda>_. sample_jwt_env)))
     (on_backend counting_gateway) [] [] = Inr sample_front"
  by (simp add: NewHandler_def decorateSwaggerSpecWithSSO_def sample_front_def TrimSpace_def TrimLeft_def TrimRight_def)

lemma sample_front_serves:
  "sample_front sample_api_request ((sample_verifier, 0), 0) =
   (\<lparr>resp_status = 200, resp_contentType = [], resp_location = [], resp_body = []\<rparr>, ((sample_verifier, 1), 1))"
proof -
  have bearer: "extractBearerToken (''Bearer '' @ sample_token) = Inr sample_token" by code_simp
  have clean: "cleanPath ''/api/v1/groups'' = ''/api/v1/groups''" by code_simp
  have route: "mux_match ''/api/v1/groups'' = Some ApiRoute" by code_simp
  have "jwks_verify sample_rsa (\<lambda>_. sample_jwt_env) sample_token ((sample_verifier, 0), 0 :: nat) =
      (Inr sample_claims, ((sample_verifier, 1), 0))"
    by (simp add: jwks_verify_def sample_token_def sample_accepted)
  then show ?thesis
    using bearer clean route
    by (simp add: sample_front_def serveMux_def sample_api_request_def Let_def serveRoute_def authMiddleware_def
        on_backend_def counting_gateway_def)
qed

theorem api_requires_token_witness:
  "mux_match (rq_Path sample_api_request) = Some ApiRoute \<and>
   (\<exists>token c. extractBearerToken (rq_Authorization sample_api_request) = Inr token \<and> jwks_vouched sample_rsa sample_jwt_env sample_verifier token c)"
  using api_requires_token [OF sample_front_new sample_verifier_ok(1) sample_front_serves] by auto

text \<open>
  C21. Whatever client id is configured, the page under \<open>/swagger/\<close> is the same up to one literal of
  its script, which denotes exactly the trimmed client id and cannot end the script element.
\<close>

theorem swagger_page_safe:
  assumes "NewHandler floatText slashStatus swaggerJSON (Some verify) gw idp clientID = Inr handler"
    and "rq_Path r = ''/swagger/''"
  shows "\<exists>lit. handler r s =
      (\<lparr>resp_status = 200, resp_contentType = html_type, resp_location = [],
        resp_body = script_before @ lit @ script_after\<rparr>, s) \<and>
    parse_json lit = Some (JStr (TrimSpace clientID)) \<and> set lit \<inter> {CHR ''<'', CHR ''>''} = {}"
proof -
  have clean: "cleanPath ''/swagger/'' = ''/swagger/''" by code_simp
  have route: "mux_match ''/swagger/'' = Some SwaggerUIRoute" by code_simp
  obtain pages where "handler = serveMux slashStatus verify gw pages" "pg_page pages = renderSwaggerPageHTML clientID"
    using assms(1) by (auto simp: NewHandler_def split: sum.splits)
  with assms(2) clean route have "handler r s =
      (\<lparr>resp_status = 200, resp_contentType = html_type, resp_location = [], resp_body = renderSwaggerPageHTML clientID\<rparr>, s)"
    by (simp add: serveMux_def Let_def serveRoute_def swaggerUIHandler_def)
  with renderSwaggerPageHTML_safe [of clientID] show ?thesis by auto
qed

theorem swagger_page_safe_witness:
  "\<exists>lit. resp_body (fst (sample_front (sample_api_request\<lparr>rq_Path := ''/swagger/''\<rparr>) ((sample_verifier, 0), 0))) =
     script_before @ lit @ script_after \<and> parse_json lit = Some (JStr [])"
  using swagger_page_safe [OF sample_front_new, of "sample_api_request\<lparr>rq_Path := ''/swagger/''\<rparr>" "((sample_verifier, 0), 0)"]
  by (auto simp: TrimSpace_def TrimLeft_def TrimRight_def)

end
