(* ===== verification/Startup.thy ===== *)
theory Startup
  imports Leadership Worker_Pool Outbox Http_Handler Runtime_Config
begin

text \<open>
  How a node starts: \<open>cmd/main.go\<close> from the first line of \<open>main\<close> to the registration of the
  leadership callbacks, and the configuration keys of \<open>internal/config\<close>. Every \<open>logger.Fatal\<close> ends
  the process; it is the result \<open>Inl\<close>, with its message and the error it logs. Otherwise the result
  is the node that was put together. etcd is the only thing outside the process that starting
  changes in this model, so the etcd state is returned in both cases.

  \<open>Outside\<close> gathers what the program calls and does not contain: the configuration library, the
  database driver and the migration tool, the clients' constructors, and the parameters of the
  components. A value that is missing or has another type is the type's zero, because \<open>main\<close>
  ignores both errors.
\<close>

section \<open>Configuration\<close>

definition Port :: string where "Port = ''values.port''"
definition EnvKey :: string where "EnvKey = ''values.env''"
definition EtcdEndpoints :: string where "EtcdEndpoints = ''values.etcd_endpoints''"
definition SdConfigPath :: string where "SdConfigPath = ''values.sd_config_path''"
definition KafkaBrokers :: string where "KafkaBrokers = ''values.kafka_brokers''"
definition KafkaViolationsTopic :: string where "KafkaViolationsTopic = ''values.kafka_violations_topic''"
definition OutboxPollInterval :: string where "OutboxPollInterval = ''values.outbox_poll_interval''"
definition OutboxBatchSize :: string where "OutboxBatchSize = ''values.outbox_batch_size''"
definition OutboxMaxRetries :: string where "OutboxMaxRetries = ''values.outbox_max_retries''"
definition JwtIssuerInternal :: string where "JwtIssuerInternal = ''values.jwt_issuer_internal''"
definition JwtIssuerPublic :: string where "JwtIssuerPublic = ''values.jwt_issuer_public''"
definition JwtJwksEndpoint :: string where "JwtJwksEndpoint = ''values.jwt_jwks_endpoint''"
definition JwtExpectedAzp :: string where "JwtExpectedAzp = ''values.jwt_expected_azp''"
definition ProduceTasksCronExpr :: string where "ProduceTasksCronExpr = ''realtime_config.produce_tasks_cron_expr''"
definition LimitsConfigKey :: string where "LimitsConfigKey = ''realtime_config.limits_config''"
definition PgDsn :: string where "PgDsn = ''secrets.pg_dsn''"

record 'b Outside =
  o_watch :: "unit result"
  o_string :: "string \<Rightarrow> string"
  o_int :: "string \<Rightarrow> int"
  o_sqlOpen :: "string \<Rightarrow> unit result"
  o_ping :: "unit result"
  o_dialect :: "unit result"
  o_gooseUp :: "string \<Rightarrow> unit result"
  o_connect :: "string \<Rightarrow> unit result"
  o_urlParse :: "string \<Rightarrow> (string \<times> string) option"
  o_etcdNew :: "nat \<Rightarrow> string list \<Rightarrow> unit result"
  o_etcdStatus :: "nat \<Rightarrow> string \<Rightarrow> unit result"
  o_etcdGets :: "nat \<Rightarrow> string option"
  o_etcdPuts :: "nat \<Rightarrow> put_outcome"
  o_cronParse :: "string \<Rightarrow> goerr option"
  o_newManager :: "unit result"
  o_floatText :: "string \<Rightarrow> string option"
  o_slashStatus :: int
  o_swaggerJSON :: string
  o_rsaVerify :: rsa_verify
  o_jwtEnvs :: "nat \<Rightarrow> jwt_env"
  o_gateway :: "'b handler"

text \<open>
  \<open>o_etcdNew\<close> and \<open>o_etcdStatus\<close> are numbered because \<open>main\<close> makes two clients. From \<open>o_floatText\<close> on the
  fields are the parameters of the HTTP handler and of the token verifier.
\<close>

section \<open>Starting\<close>

text \<open>A fatal exit: its message and the error logged with it.\<close>

datatype exit = Fatal string "goerr option"

definition fatal_on :: "string \<Rightarrow> 'a result \<Rightarrow> exit + 'a" where
  "fatal_on msg r = (case r of Inl e \<Rightarrow> Inl (Fatal msg (Some e)) | Inr a \<Rightarrow> Inr a)"

definition migrationsDir :: string where "migrationsDir = ''migrations/postgres''"

definition runMigrations :: "'b Outside \<Rightarrow> string \<Rightarrow> unit result" where
  "runMigrations out dsn =
     (case o_sqlOpen out dsn of
        Inl e \<Rightarrow> Inl (ErrWrap ''open database for migrations'' e)
      | Inr _ \<Rightarrow>
          (case o_ping out of
             Inl e \<Rightarrow> Inl (ErrWrap ''ping database for migrations'' e)
           | Inr _ \<Rightarrow>
               (case o_dialect out of
                  Inl e \<Rightarrow> Inl (ErrWrap ''set goose dialect'' e)
                | Inr _ \<Rightarrow>
                    (case o_gooseUp out migrationsDir of
                       Inl e \<Rightarrow> Inl (ErrWrap (''apply goose up migrations from '' @ quoted migrationsDir) e)
                     | Inr _ \<Rightarrow> Inr ()))))"

text \<open>From the configuration to the connected storage.\<close>

definition startStorage :: "'b Outside \<Rightarrow> exit + Storage" where
  "startStorage out =
     (case fatal_on ''Failed to start watching config'' (o_watch out) of
        Inl x \<Rightarrow> Inl x
      | Inr _ \<Rightarrow>
          (case fatal_on ''Failed to apply database migrations'' (runMigrations out (o_string out PgDsn)) of
             Inl x \<Rightarrow> Inl x
           | Inr _ \<Rightarrow>
               (let kafkaBrokers = Split CHR '','' (o_string out KafkaBrokers); kafkaTopic = o_string out KafkaViolationsTopic in
                if length kafkaBrokers < 1 then Inl (Fatal ''Kafka brokers list is empty'' None)
                else if kafkaTopic = [] then Inl (Fatal ''Kafka violations topic is empty'' None)
                else fatal_on ''Failed to connect to database'' (New (o_connect out) (o_string out PgDsn) kafkaTopic))))"

definition startRelay :: "'b Outside \<Rightarrow> Relay" where
  "startRelay out = NewRelay (o_int out OutboxBatchSize) (o_int out OutboxPollInterval) (o_int out OutboxMaxRetries)"

definition startVerifier :: "'b Outside \<Rightarrow> exit + jwksVerifier" where
  "startVerifier out =
     (let jwtIssuerInternal = o_string out JwtIssuerInternal in
      if jwtIssuerInternal = [] then Inl (Fatal ''JWT issuer internal is empty'' None)
      else fatal_on ''Failed to initialize JWT verifier''
        (NewJWKSVerifier (o_urlParse out)
          \<lparr>cfg_Issuer = jwtIssuerInternal, cfg_JWKSEndpoint = o_string out JwtJwksEndpoint,
           cfg_ExpectedAZP = o_string out JwtExpectedAzp, cfg_ClockSkew = 0, cfg_CacheTTL = 0\<rparr>))"

definition startLimits :: "'b Outside \<Rightarrow> exit + LimitsConfig" where
  "startLimits out =
     fatal_on ''Failed to parse default limits config'' (unmarshal decLimitsConfig (o_string out LimitsConfigKey) zeroLimitsConfig)"

text \<open>The loop over the endpoints, which stands twice in \<open>main\<close>.\<close>

definition etcdEndpoints_of :: "string \<Rightarrow> string list" where
  "etcdEndpoints_of s =
     foldl (\<lambda>acc endpoint. let endpoint = TrimSpace endpoint in if endpoint = [] then acc else acc @ [endpoint])
       [] (Split CHR '','' s)"

text \<open>A client and a status request of the first endpoint; \<open>n\<close> says whether it is the first or the second.\<close>

definition connectEtcd :: "'b Outside \<Rightarrow> nat \<Rightarrow> string \<Rightarrow> string \<Rightarrow> exit option" where
  "connectEtcd out n newFailed statusFailed =
     (let etcdEndpoints = etcdEndpoints_of (o_string out EtcdEndpoints) in
      if length etcdEndpoints = 0 then Some (Fatal ''Etcd endpoints list is empty'' None)
      else case o_etcdNew out n etcdEndpoints of
        Inl e \<Rightarrow> Some (Fatal newFailed (Some e))
      | Inr _ \<Rightarrow> (case o_etcdStatus out n (etcdEndpoints ! 0) of Inl e \<Rightarrow> Some (Fatal statusFailed (Some e)) | Inr _ \<Rightarrow> None))"

text \<open>
  The runtime settings and the schedule, from \<open>runtimeconfig.New\<close> to \<open>Init\<close>. The node's state has
  the scheduler from the beginning, as \<open>NewScheduler\<close> leaves it; \<open>Bootstrap\<close> does not touch it.
\<close>

definition startSettings :: "'b Outside \<Rightarrow> LimitsConfig \<Rightarrow> Etcd \<Rightarrow> (exit + Node Service) \<times> Node" where
  "startSettings out defaultLimits etcd =
     (let svc = NewService (etcd_ops (o_etcdGets out) (o_etcdPuts out)) defaultLimits (o_string out ProduceTasksCronExpr);
          cronManager = NewCronManager;
          node = (etcd, NewScheduler cronManager produceScrapeTasksJobName)
      in case Bootstrap (o_cronParse out) svc node of
        (Inl e, node) \<Rightarrow> (Inl (Fatal ''Failed to bootstrap runtime settings in etcd'' (Some e)), node)
      | (Inr _, node) \<Rightarrow>
          (let svc = SetCronScheduleApplier (apply_schedule (o_cronParse out)) svc in
           case GetProduceTasksCronExpr (o_cronParse out) svc node of
             (expr, etcd, sch) \<Rightarrow>
               (case Init (manager_ops (o_cronParse out)) expr sch of
                  (Inl e, sch) \<Rightarrow> (Inl (Fatal ''Failed to initialize scrape tasks scheduler'' (Some e)), etcd, sch)
                | (Inr _, sch) \<Rightarrow> (Inr svc, etcd, sch))))"

definition startHandler :: "'b Outside \<Rightarrow> exit + 'b Front handler" where
  "startHandler out =
     (let jwtIssuerPublic = o_string out JwtIssuerPublic in
      if jwtIssuerPublic = [] then Inl (Fatal ''JWT issuer public is empty'' None)
      else fatal_on ''Failed to create HTTP API handler'' 
        (NewHandler (o_floatText out) (o_slashStatus out) (o_swaggerJSON out)
          (Some (jwks_verify (o_rsaVerify out) (o_jwtEnvs out))) (on_backend (o_gateway out))
          jwtIssuerPublic (o_string out JwtExpectedAzp)))"

definition startElector :: "'b Outside \<Rightarrow> exit + Elector" where
  "startElector out =
     (if o_string out EnvKey = localEnv then Inr NewLocalElector
      else case connectEtcd out 1 ''Failed to create etcd client'' ''Failed to connect to etcd'' of
        Some x \<Rightarrow> Inl x
      | None \<Rightarrow> fatal_on ''Failed to create etcd leader elector'' (NewEtcdElector (o_newManager out)))"

record 'b App =
  app_storage :: Storage
  app_relay :: Relay
  app_verifier :: jwksVerifier
  app_settings :: "Node Service"
  app_scheduler :: "Manager Scheduler"
  app_pool :: WorkerPool
  app_consumer :: TaskConsumer
  app_handler :: "'b Front handler"
  app_addr :: string
  app_elector :: Elector

text \<open>The second half of \<open>main\<close>, once the settings are there.\<close>

definition startServing :: "'b Outside \<Rightarrow> Storage \<Rightarrow> jwksVerifier \<Rightarrow> Node Service \<Rightarrow> Manager Scheduler \<Rightarrow> exit + 'b App" where
  "startServing out storage verifier settings sch =
     (case startHandler out of
        Inl x \<Rightarrow> Inl x
      | Inr handler \<Rightarrow>
          (case startElector out of
             Inl x \<Rightarrow> Inl x
           | Inr elector \<Rightarrow>
               Inr \<lparr>app_storage = storage, app_relay = startRelay out, app_verifier = verifier, app_settings = settings,
                 app_scheduler = sch, app_pool = NewWorkerPool pool_workers, app_consumer = NewTaskConsumer False,
                 app_handler = handler, app_addr = '':'' @ itoa (o_int out Port),
                 app_elector = AddOnStop main_onStop (AddOnStart (main_onStart (o_string out EnvKey)) elector)\<rparr>))"

definition main :: "'b Outside \<Rightarrow> Etcd \<Rightarrow> (exit + 'b App) \<times> Etcd" where
  "main out etcd =
     (case startStorage out of
        Inl x \<Rightarrow> (Inl x, etcd)
      | Inr storage \<Rightarrow>
          (case startVerifier out of
             Inl x \<Rightarrow> (Inl x, etcd)
           | Inr verifier \<Rightarrow>
               (case startLimits out of
                  Inl x \<Rightarrow> (Inl x, etcd)
                | Inr defaultLimits \<Rightarrow>
                    (case connectEtcd out 0 ''Failed to create etcd client for runtime settings''
                        ''Failed to connect to etcd for runtime settings'' of
                       Some x \<Rightarrow> (Inl x, etcd)
                     | None \<Rightarrow>
                         (case startSettings out defaultLimits etcd of
                            (Inl x, etcd, sch) \<Rightarrow> (Inl x, etcd)
                          | (Inr settings, etcd, sch) \<Rightarrow> (startServing out storage verifier settings sch, etcd))))))"

section \<open>The node that was started\<close>

lemma UpdateSchedule_running:
  "UpdateSchedule (manager_ops cronParse) spec s = (r, s') \<Longrightarrow> cr_running (sch_manager s') = cr_running (sch_manager s)"
proof -
  have add: "cr_running (snd (AddTask cronParse sp n m)) = cr_running m" for sp n m
    by (simp add: AddTask_def split: option.splits)
  have remove: "cr_running (snd (RemoveTask n m)) = cr_running m" for n m
    by (simp add: RemoveTask_def split: option.splits)
  have new: "addNewSchedule (manager_ops cronParse) spec s m = (r, s') \<Longrightarrow> cr_running (sch_manager s') = cr_running m" for m
    using add [of spec "sch_task s" m] add [of "currentSpec s" "sch_task s" "snd (AddTask cronParse spec (sch_task s) m)"]
    by (auto simp: addNewSchedule_def manager_ops_def split: prod.splits sum.splits if_splits)
  assume "UpdateSchedule (manager_ops cronParse) spec s = (r, s')"
  then show ?thesis
    using remove [of "sch_task s" "sch_manager s"]
    by (auto simp: UpdateSchedule_def manager_ops_def split: prod.splits sum.splits if_splits
        dest!: new [unfolded manager_ops_def])
qed

lemma fresh_scheduler_ok: "scheduler_ok cronParse (NewScheduler NewCronManager name)"
  by (simp add: scheduler_ok_def NewScheduler_def scheduled_def) (simp add: NewCronManager_def)

lemma startSettings_effect:
  assumes "startSettings out dl etcd = (r, etcd', sch)"
  shows "kv etcd k = Some v \<Longrightarrow> kv etcd' k = Some v"
    and "r = Inr svc \<Longrightarrow>
      svc = node_service (o_cronParse out) (o_etcdGets out) (o_etcdPuts out) dl (o_string out ProduceTasksCronExpr) \<and>
      ValidateLimitsConfig dl = Inr () \<and> kv etcd' metricCheckLimitsKey \<noteq> None \<and>
      scheduler_ok (o_cronParse out) sch \<and> sch_task sch = produceScrapeTasksJobName \<and> \<not> cr_running (sch_manager sch) \<and>
      currentSpec sch \<noteq> [] \<and> map_option TrimSpace (kv etcd' scrapeTasksCronKey) = Some (currentSpec sch)"
proof -
  let ?ops = "etcd_ops (o_etcdGets out) (o_etcdPuts out) :: Node kv_ops" and ?sch = "NewScheduler NewCronManager produceScrapeTasksJobName"
  let ?svc = "NewService ?ops dl (o_string out ProduceTasksCronExpr)"
  let ?svc' = "SetCronScheduleApplier (apply_schedule (o_cronParse out)) ?svc"
  have st: "svc_storage ?svc = ?ops" "svc_storage ?svc' = ?ops" "svc_defaultLimits ?svc = dl"
    by (simp_all add: NewService_def SetCronScheduleApplier_def)
  obtain b e1 sch1 where b: "Bootstrap (o_cronParse out) ?svc (etcd, ?sch) = (b, e1, sch1)" by (metis surj_pair)
  obtain expr e2 sch2 where g: "GetProduceTasksCronExpr (o_cronParse out) ?svc' (e1, sch1) = (expr, e2, sch2)" by (metis surj_pair)
  obtain i sch3 where i: "Init (manager_ops (o_cronParse out)) expr sch2 = (i, sch3)" by (metis surj_pair)
  note boot = etcd.Bootstrap_effect [OF st(1) b] and reads = etcd.GetCron_reads [OF st(2) g]
  have sch2: "sch2 = ?sch" "kv e2 = kv e1" using reads etcd.Bootstrap_rest [OF st(1) b] by simp_all
  have res: "(r, etcd', sch) = (case b of Inl e \<Rightarrow> (Inl (Fatal ''Failed to bootstrap runtime settings in etcd'' (Some e)), e1, sch1)
      | Inr _ \<Rightarrow> (case i of Inl e \<Rightarrow> (Inl (Fatal ''Failed to initialize scrape tasks scheduler'' (Some e)), e2, sch3)
                        | Inr _ \<Rightarrow> (Inr ?svc', e2, sch3)))"
    using assms by (cases b; cases i) (simp_all add: startSettings_def Let_def b g i)
  show "kv etcd k = Some v \<Longrightarrow> kv etcd' k = Some v"
    using res boot(1) sch2(2) by (auto split: sum.splits)
  assume r: "r = Inr svc"
  with res obtain u w where ok: "b = Inr u" "i = Inr w" and now: "svc = ?svc'" "etcd' = e2" "sch = sch3"
    by (auto split: sum.splits)
  from ok(2) i obtain spec where spec: "expr = Inr spec"
    and up: "UpdateSchedule (manager_ops (o_cronParse out)) spec ?sch = (Inr w, sch3)"
    by (auto simp: Init_def sch2(1) split: sum.splits)
  from reads(3) [OF spec] obtain raw where raw: "kv e1 scrapeTasksCronKey = Some raw"
    and norm: "spec = TrimSpace raw" "spec \<noteq> []" by (auto simp: normalizeCron_Inr_iff)
  note eff = mgr.UpdateSchedule_effect [OF fresh_scheduler_ok [unfolded scheduler_ok_iff] norm(2) up]
  have "svc = node_service (o_cronParse out) (o_etcdGets out) (o_etcdPuts out) dl (o_string out ProduceTasksCronExpr)"
    using now(1) by (simp add: node_service_def)
  moreover have "ValidateLimitsConfig dl = Inr ()" "kv etcd' metricCheckLimitsKey \<noteq> None"
    using boot(2) ok(1) st(3) now(2) sch2(2) by simp_all
  moreover have "scheduler_ok (o_cronParse out) sch" "sch_task sch = produceScrapeTasksJobName"
    using eff(1,2) now(3) by (simp_all add: scheduler_ok_iff NewScheduler_def)
  moreover have "\<not> cr_running (sch_manager sch)"
    using UpdateSchedule_running [OF up] now(3) by (simp add: NewScheduler_def NewCronManager_def)
  moreover have "currentSpec sch = spec" using eff(4) now(3) by simp
  ultimately show "svc = node_service (o_cronParse out) (o_etcdGets out) (o_etcdPuts out) dl (o_string out ProduceTasksCronExpr) \<and>
      ValidateLimitsConfig dl = Inr () \<and> kv etcd' metricCheckLimitsKey \<noteq> None \<and>
      scheduler_ok (o_cronParse out) sch \<and> sch_task sch = produceScrapeTasksJobName \<and> \<not> cr_running (sch_manager sch) \<and>
      currentSpec sch \<noteq> [] \<and> map_option TrimSpace (kv etcd' scrapeTasksCronKey) = Some (currentSpec sch)"
    using raw norm now(2) sch2(2) by simp
qed

text \<open>The endpoints are the parts of the setting without blanks around them, less the blank ones.\<close>

lemma etcdEndpoints_of_eq: "etcdEndpoints_of s = filter (\<lambda>e. e \<noteq> []) (map TrimSpace (Split CHR '','' s))"
proof -
  have "foldl (\<lambda>acc endpoint. let endpoint = TrimSpace endpoint in if endpoint = [] then acc else acc @ [endpoint]) acc es =
      acc @ filter (\<lambda>e. e \<noteq> []) (map TrimSpace es)" for acc es
    by (induction es arbitrary: acc) (auto simp: Let_def)
  then show ?thesis by (simp add: etcdEndpoints_of_def)
qed

lemma startServing_Inr:
  assumes "startServing out storage verifier settings sch = Inr app"
  shows "app_storage app = storage \<and> app_relay app = startRelay out \<and> app_verifier app = verifier \<and>
      app_settings app = settings \<and> app_scheduler app = sch \<and> app_consumer app = NewTaskConsumer False \<and>
      startHandler out = Inr (app_handler app)"
    and "onLeaderStart (app_elector app) = [main_onStart (o_string out EnvKey)] \<and>
      onLeaderStop (app_elector app) = [main_onStop]"
  using assms
  by (auto simp: startServing_def startElector_def fatal_on_def NewLocalElector_def NewEtcdElector_def AddOnStart_def
      AddOnStop_def onLeaderStart_def onLeaderStop_def split: sum.splits option.splits if_splits)

lemma main_Inr:
  assumes "main out etcd = (Inr app, etcd')"
  obtains storage verifier dl settings sch where "startStorage out = Inr storage" and "startVerifier out = Inr verifier"
    and "startSettings out dl etcd = (Inr settings, etcd', sch)"
    and "startServing out storage verifier settings sch = Inr app"
  using assms by (auto simp: main_def split: sum.splits option.splits prod.splits)

lemma main_keeps:
  assumes "main out etcd = (r, etcd')"
  shows "kv etcd k = None \<or> kv etcd' k = kv etcd k"
  using assms startSettings_effect(1)
  by (cases "kv etcd k") (auto simp: main_def split: sum.splits option.splits prod.splits)

lemma started_handler_guards:
  assumes "startHandler out = Inr handler" and "verifier_ok v"
  shows "case handler r ((v, n), b) of (resp, (v', n'), b') \<Rightarrow>
    b' = b \<or> (mux_match (rq_Path r) = Some ApiRoute \<and>
      (\<exists>token c. extractBearerToken (rq_Authorization r) = Inr token \<and> jwks_vouched (o_rsaVerify out) (o_jwtEnvs out n) v token c))"
proof -
  from assms(1) have h: "NewHandler (o_floatText out) (o_slashStatus out) (o_swaggerJSON out)
      (Some (jwks_verify (o_rsaVerify out) (o_jwtEnvs out))) (on_backend (o_gateway out))
      (o_string out JwtIssuerPublic) (o_string out JwtExpectedAzp) = Inr handler"
    by (auto simp: startHandler_def Let_def fatal_on_def split: if_splits sum.splits)
  obtain resp v' n' b' where res: "handler r ((v, n), b) = (resp, ((v', n'), b'))" by (metis surj_pair)
  from NewHandler_guards [OF h assms(2) res] res show ?thesis by auto
qed

text \<open>
  C10. Starting a node never overwrites a setting stored in etcd, whether it succeeds or not. A node that
  has started stands as it should: its token verifier is well formed and its HTTP handler lets
  nothing through to the backend without a token that verifier accepts; the outbox topic is the
  configured one and the relay's parameters are positive; both settings exist in etcd, the default
  limits are positive, and the producer's task is scheduled, in a cron manager that does not run
  yet, exactly under the stored expression; the consumer is not the leader, and each list of
  leadership callbacks has the one of \<open>main\<close>.
\<close>

theorem started_node:
  "case main out etcd of (r, etcd') \<Rightarrow>
     (\<forall>k. kv etcd k = None \<or> kv etcd' k = kv etcd k) \<and>
     (case r of Inl _ \<Rightarrow> True
      | Inr app \<Rightarrow>
          verifier_ok (app_verifier app) \<and>
          (\<forall>req n b. case app_handler app req ((app_verifier app, n), b) of (resp, (v', n'), b') \<Rightarrow>
             b' = b \<or> (mux_match (rq_Path req) = Some ApiRoute \<and>
               (\<exists>token c. extractBearerToken (rq_Authorization req) = Inr token \<and>
                  jwks_vouched (o_rsaVerify out) (o_jwtEnvs out n) (app_verifier app) token c))) \<and>
          outboxTopic (app_storage app) = o_string out KafkaViolationsTopic \<and>
          0 < batchSize (app_relay app) \<and> 0 < pollInterval (app_relay app) \<and> 0 < maxRetries (app_relay app) \<and>
          ValidateLimitsConfig (svc_defaultLimits (app_settings app)) = Inr () \<and>
          kv etcd' metricCheckLimitsKey \<noteq> None \<and>
          scheduled (sch_manager (app_scheduler app)) produceScrapeTasksJobName =
            map_option TrimSpace (kv etcd' scrapeTasksCronKey) \<and>
          kv etcd' scrapeTasksCronKey \<noteq> None \<and>
          scheduler_ok (o_cronParse out) (app_scheduler app) \<and> \<not> cr_running (sch_manager (app_scheduler app)) \<and>
          \<not> isLeader (app_consumer app) \<and>
          onLeaderStart (app_elector app) = [main_onStart (o_string out EnvKey)] \<and>
          onLeaderStop (app_elector app) = [main_onStop])"
proof -
  obtain r etcd' where m: "main out etcd = (r, etcd')" by (metis surj_pair)
  show ?thesis
  proof (cases r)
    case (Inl x)
    with m main_keeps [OF m] show ?thesis by simp
  next
    case (Inr app)
    from m [unfolded Inr] obtain storage verifier dl settings sch where st: "startStorage out = Inr storage"
      and ve: "startVerifier out = Inr verifier" and se: "startSettings out dl etcd = (Inr settings, etcd', sch)"
      and sv: "startServing out storage verifier settings sch = Inr app" by (rule main_Inr)
    note app = startServing_Inr [OF sv] and set = startSettings_effect(2) [OF se refl]
    have topic: "outboxTopic storage = o_string out KafkaViolationsTopic"
      using st by (auto simp: startStorage_def fatal_on_def New_def Let_def split: sum.splits if_splits)
    have vok: "verifier_ok verifier"
      using ve NewJWKSVerifier_ok by (auto simp: startVerifier_def Let_def fatal_on_def split: if_splits sum.splits)
    note guard = started_handler_guards [of out "app_handler app", OF _ vok]
    have relay: "0 < batchSize (startRelay out) \<and> 0 < pollInterval (startRelay out) \<and> 0 < maxRetries (startRelay out)"
      by (simp add: startRelay_def NewRelay_def)
    have sched: "scheduled (sch_manager sch) produceScrapeTasksJobName = map_option TrimSpace (kv etcd' scrapeTasksCronKey)"
      using set by (auto simp: scheduler_ok_def)
    have stored: "kv etcd' scrapeTasksCronKey \<noteq> None" using set by auto
    have consumer: "\<not> isLeader (app_consumer app)" using app by (simp add: NewTaskConsumer_def)
    show ?thesis
      using m Inr app set main_keeps [OF m] topic vok guard relay sched stored consumer by simp
  qed
qed

section \<open>When a node starts\<close>

definition started :: "exit + 'a \<Rightarrow> bool" where
  "started r \<longleftrightarrow> (case r of Inl _ \<Rightarrow> False | Inr _ \<Rightarrow> True)"

lemma started_fatal_on [simp]: "started (fatal_on msg r) \<longleftrightarrow> isOk r"
  by (cases r) (simp_all add: started_def fatal_on_def)

definition valid_cron :: "'b Outside \<Rightarrow> string \<Rightarrow> bool" where
  "valid_cron out expr \<longleftrightarrow> TrimSpace expr \<noteq> [] \<and> o_cronParse out (TrimSpace expr) = None"

definition database_ready :: "'b Outside \<Rightarrow> bool" where
  "database_ready out \<longleftrightarrow> isOk (o_watch out) \<and> isOk (o_sqlOpen out (o_string out PgDsn)) \<and> isOk (o_ping out) \<and>
     isOk (o_dialect out) \<and> isOk (o_gooseUp out migrationsDir) \<and> o_string out KafkaViolationsTopic \<noteq> [] \<and>
     isOk (o_connect out (o_string out PgDsn))"

definition issuer_of :: "'b Outside \<Rightarrow> string" where
  "issuer_of out = TrimSpace (TrimRight (\<lambda>c. c = CHR ''/'') (o_string out JwtIssuerInternal))"

definition verifier_ready :: "'b Outside \<Rightarrow> bool" where
  "verifier_ready out \<longleftrightarrow> issuer_of out \<noteq> [] \<and>
     isOk (resolveJWKSEndpoint (o_urlParse out) (issuer_of out) (o_string out JwtJwksEndpoint))"

definition etcd_ready :: "'b Outside \<Rightarrow> nat \<Rightarrow> bool" where
  "etcd_ready out n \<longleftrightarrow> etcdEndpoints_of (o_string out EtcdEndpoints) \<noteq> [] \<and>
     isOk (o_etcdNew out n (etcdEndpoints_of (o_string out EtcdEndpoints))) \<and>
     isOk (o_etcdStatus out n (hd (etcdEndpoints_of (o_string out EtcdEndpoints))))"

definition settings_ready :: "'b Outside \<Rightarrow> Etcd \<Rightarrow> bool" where
  "settings_ready out etcd \<longleftrightarrow>
     (case unmarshal decLimitsConfig (o_string out LimitsConfigKey) zeroLimitsConfig of
        Inl _ \<Rightarrow> False | Inr l \<Rightarrow> isOk (ValidateLimitsConfig l)) \<and>
     valid_cron out (o_string out ProduceTasksCronExpr) \<and>
     (case kv etcd scrapeTasksCronKey of None \<Rightarrow> True | Some raw \<Rightarrow> valid_cron out raw)"

definition serving_ready :: "'b Outside \<Rightarrow> bool" where
  "serving_ready out \<longleftrightarrow> o_string out JwtIssuerPublic \<noteq> [] \<and>
     isOk (decorateSwaggerSpecWithSSO (o_floatText out) (o_swaggerJSON out) (o_string out JwtIssuerPublic)) \<and>
     (o_string out EnvKey = localEnv \<or> etcd_ready out 1 \<and> isOk (o_newManager out))"

lemma startStorage_iff: "started (startStorage out) \<longleftrightarrow> database_ready out"
  by (auto simp: startStorage_def runMigrations_def database_ready_def New_def Let_def fatal_on_def started_def isOk_iff
      split: sum.splits)

lemma startVerifier_iff: "started (startVerifier out) \<longleftrightarrow> verifier_ready out"
proof (cases "o_string out JwtIssuerInternal = []")
  case True
  have "TrimSpace (TrimRight p []) = []" for p by (simp add: TrimSpace_def TrimRight_def TrimLeft_def)
  with True show ?thesis by (simp add: startVerifier_def started_def verifier_ready_def issuer_of_def)
next
  case False
  then have "started (startVerifier out) \<longleftrightarrow> isOk (NewJWKSVerifier (o_urlParse out)
      \<lparr>cfg_Issuer = o_string out JwtIssuerInternal, cfg_JWKSEndpoint = o_string out JwtJwksEndpoint,
       cfg_ExpectedAZP = o_string out JwtExpectedAzp, cfg_ClockSkew = 0, cfg_CacheTTL = 0\<rparr>)"
    by (simp add: startVerifier_def Let_def)
  then show ?thesis
    by (auto simp: NewJWKSVerifier_def Let_def verifier_ready_def issuer_of_def isOk_iff split: sum.splits)
qed

lemma connectEtcd_iff: "connectEtcd out n a b = None \<longleftrightarrow> etcd_ready out n"
  by (cases "etcdEndpoints_of (o_string out EtcdEndpoints)")
    (auto simp: connectEtcd_def etcd_ready_def Let_def isOk_iff split: sum.splits)

lemma startServing_iff: "started (startServing out storage verifier settings sch) \<longleftrightarrow> serving_ready out"
proof -
  have "started (startHandler out) \<longleftrightarrow> o_string out JwtIssuerPublic \<noteq> [] \<and>
      isOk (decorateSwaggerSpecWithSSO (o_floatText out) (o_swaggerJSON out) (o_string out JwtIssuerPublic))"
    by (auto simp: startHandler_def Let_def NewHandler_def fatal_on_def started_def isOk_iff split: sum.splits)
  moreover have "started (startElector out) \<longleftrightarrow>
      o_string out EnvKey = localEnv \<or> etcd_ready out 1 \<and> isOk (o_newManager out)"
    using connectEtcd_iff [of out 1 "''Failed to create etcd client''" "''Failed to connect to etcd''"]
    by (auto simp: startElector_def NewEtcdElector_def fatal_on_def started_def isOk_iff split: sum.splits option.splits)
  ultimately show ?thesis
    by (auto simp: startServing_def serving_ready_def started_def split: sum.splits)
qed

lemma startServing_ready:
  "startServing out storage verifier settings sch = Inl x \<Longrightarrow> \<not> serving_ready out"
  "startServing out storage verifier settings sch = Inr a \<Longrightarrow> serving_ready out"
  using startServing_iff [of out storage verifier settings sch] by (simp_all add: started_def)

lemma ensureKey_reliable:
  assumes "svc_storage svc = etcd_ops gets puts" and "\<And>n. gets n = None" and "\<And>n. puts n = PutDone"
  shows "\<exists>e'. ensureKey svc k d (e, x) = (Inr (), e', x) \<and>
    kv e' = (case kv e k of None \<Rightarrow> (kv e)(k \<mapsto> d) | Some _ \<Rightarrow> kv e)"
  by (cases "kv e k") (simp_all add: ensureKey_def assms etcd_ops_def lift_etcd_def Get_def Put_def Let_def ErrKeyNotFound_def)

lemma startSettings_iff:
  assumes gets: "\<And>n. o_etcdGets out n = None" and puts: "\<And>n. o_etcdPuts out n = PutDone"
  shows "started (fst (startSettings out dl etcd)) \<longleftrightarrow> isOk (ValidateLimitsConfig dl) \<and>
    valid_cron out (o_string out ProduceTasksCronExpr) \<and>
    (case kv etcd scrapeTasksCronKey of None \<Rightarrow> True | Some raw \<Rightarrow> valid_cron out raw)" (is "_ \<longleftrightarrow> ?limits \<and> ?dc \<and> ?sc")
proof (cases "?limits \<and> ?dc")
  case False
  then show ?thesis
    by (auto simp: startSettings_def Let_def Bootstrap_def NewService_def started_def valid_cron_def isOk_iff
        normalizeCron_Inr_iff split: sum.splits)
next
  case True
  let ?ops = "etcd_ops (o_etcdGets out) (o_etcdPuts out) :: Node kv_ops" and ?sch = "NewScheduler NewCronManager produceScrapeTasksJobName"
  let ?dc = "o_string out ProduceTasksCronExpr"
  let ?svc = "NewService ?ops dl ?dc"
  let ?svc' = "SetCronScheduleApplier (apply_schedule (o_cronParse out)) ?svc"
  have st: "svc_storage ?svc = ?ops" by (simp add: NewService_def)
  obtain e1 where e1: "ensureKey ?svc metricCheckLimitsKey (marshalLimits dl) (etcd, ?sch) = (Inr (), e1, ?sch)"
    and kv1: "kv e1 = (case kv etcd metricCheckLimitsKey of None \<Rightarrow> (kv etcd)(metricCheckLimitsKey \<mapsto> marshalLimits dl) | Some _ \<Rightarrow> kv etcd)"
    using ensureKey_reliable [OF st gets puts] by blast
  obtain e2 where e2: "ensureKey ?svc scrapeTasksCronKey (TrimSpace ?dc) (e1, ?sch) = (Inr (), e2, ?sch)"
    and kv2: "kv e2 = (case kv e1 scrapeTasksCronKey of None \<Rightarrow> (kv e1)(scrapeTasksCronKey \<mapsto> TrimSpace ?dc) | Some _ \<Rightarrow> kv e1)"
    using ensureKey_reliable [OF st gets puts] by blast
  have norm: "normalizeAndValidateCronExpr (o_cronParse out) ?dc = Inr (TrimSpace ?dc)"
    using True by (simp add: normalizeCron_Inr_iff valid_cron_def)
  have boot: "Bootstrap (o_cronParse out) ?svc (etcd, ?sch) = (Inr (), e2, ?sch)"
    using True norm e1 e2 by (auto simp: Bootstrap_def isOk_iff) (simp add: NewService_def)
  define raw where "raw = (case kv etcd scrapeTasksCronKey of None \<Rightarrow> TrimSpace ?dc | Some raw \<Rightarrow> raw)"
  have "kv e2 scrapeTasksCronKey = Some raw"
    using kv1 kv2 by (auto simp: raw_def metricCheckLimitsKey_def scrapeTasksCronKey_def split: option.splits)
  then obtain e3 where get: "GetProduceTasksCronExpr (o_cronParse out) ?svc' (e2, ?sch) =
      (normalizeAndValidateCronExpr (o_cronParse out) raw, e3, ?sch)"
    by (simp add: GetProduceTasksCronExpr_def NewService_def SetCronScheduleApplier_def etcd_ops_def lift_etcd_def Get_def
        Let_def gets)
  have trim: "TrimSpace (TrimSpace x) = TrimSpace x" for x by simp
  have init: "isOk (fst (Init (manager_ops (o_cronParse out)) (normalizeAndValidateCronExpr (o_cronParse out) raw) ?sch)) \<longleftrightarrow>
      valid_cron out raw"
  proof (cases "valid_cron out raw")
    case False
    then show ?thesis
      by (cases "normalizeAndValidateCronExpr (o_cronParse out) raw") (auto simp: normalizeCron_Inr_iff valid_cron_def Init_def)
  next
    case v: True
    obtain i sch3 where up: "UpdateSchedule (manager_ops (o_cronParse out)) (TrimSpace raw) ?sch = (i, sch3)" by (metis surj_pair)
    from mgr.UpdateSchedule_effect(3) [OF fresh_scheduler_ok [unfolded scheduler_ok_iff] _ up] v
    show ?thesis by (simp add: Init_def valid_cron_def normalizeAndValidateCronExpr_def up)
  qed
  have "started (fst (startSettings out dl etcd)) \<longleftrightarrow> valid_cron out raw"
    using boot get init by (auto simp: startSettings_def Let_def started_def isOk_iff split: prod.splits sum.splits)
  also have "\<dots> \<longleftrightarrow> ?sc"
    using True trim by (auto simp: raw_def valid_cron_def split: option.splits)
  finally show ?thesis using True by simp
qed

text \<open>
  C31. As long as etcd answers, a node starts exactly when its surroundings are in order: the
  configuration can be watched, the migrations run and the database can be reached, the topic is
  set, the issuer and its key endpoint make sense, the default limits parse and are positive, the
  default cron expression and the one stored in etcd, if any, are valid, some etcd endpoint is
  not blank and answers, the public issuer is set and the API specification can be decorated, and
  outside the local environment the elector can be made.
\<close>

theorem main_starts:
  assumes "\<forall>n. o_etcdGets out n = None" and "\<forall>n. o_etcdPuts out n = PutDone"
  shows "started (fst (main out etcd)) \<longleftrightarrow>
    database_ready out \<and> verifier_ready out \<and> etcd_ready out 0 \<and> settings_ready out etcd \<and> serving_ready out"
proof -
  let ?limits = "unmarshal decLimitsConfig (o_string out LimitsConfigKey) zeroLimitsConfig"
  have settings: "settings_ready out etcd \<longleftrightarrow>
      (case ?limits of Inl _ \<Rightarrow> False | Inr dl \<Rightarrow> started (fst (startSettings out dl etcd)))"
    using assms by (simp add: settings_ready_def startSettings_iff split: sum.splits)
  have etcd: "etcd_ready out 0 \<longleftrightarrow> connectEtcd out 0 ''Failed to create etcd client for runtime settings''
      ''Failed to connect to etcd for runtime settings'' = None"
    by (simp add: connectEtcd_iff)
  show ?thesis
    unfolding settings etcd startStorage_iff [symmetric] startVerifier_iff [symmetric]
    by (auto simp: main_def startLimits_def fatal_on_def started_def dest: startServing_ready split: sum.splits option.splits prod.splits)
qed

text \<open>A configuration under which a local node starts.\<close>

definition sample_outside :: "nat Outside" where
  "sample_outside =
     \<lparr>o_watch = Inr (),
      o_string = (\<lambda>k. (case map_of
        [(EnvKey, localEnv), (KafkaBrokers, ''kafka:9092''), (KafkaViolationsTopic, ''violations''),
         (JwtIssuerInternal, ''https://sso''), (JwtIssuerPublic, ''/''), (EtcdEndpoints, '' etcd:2379 ''),
         (ProduceTasksCronExpr, ''@hourly''), (LimitsConfigKey, marshalLimits sample_limits)] k of None \<Rightarrow> [] | Some v \<Rightarrow> v)),
      o_int = (\<lambda>_. 0), o_sqlOpen = (\<lambda>_. Inr ()), o_ping = Inr (), o_dialect = Inr (), o_gooseUp = (\<lambda>_. Inr ()),
      o_connect = (\<lambda>_. Inr ()), o_urlParse = (\<lambda>_. Some (''https'', ''sso'')), o_etcdNew = (\<lambda>_ _. Inr ()),
      o_etcdStatus = (\<lambda>_ _. Inr ()), o_etcdGets = (\<lambda>_. None), o_etcdPuts = (\<lambda>_. PutDone), o_cronParse = sample_parse,
      o_newManager = Inr (), o_floatText = Some, o_slashStatus = 301, 
      o_swaggerJSON = ''{}'', o_rsaVerify = sample_rsa, o_jwtEnvs = (\<lambda>_. sample_jwt_env), o_gateway = counting_gateway\<rparr>"

definition empty_etcd :: Etcd where "empty_etcd = \<lparr>kv = Map.empty, kv_calls = 0\<rparr>"

lemmas config_keys = Port_def EnvKey_def EtcdEndpoints_def SdConfigPath_def KafkaBrokers_def KafkaViolationsTopic_def
  OutboxPollInterval_def OutboxBatchSize_def OutboxMaxRetries_def JwtIssuerInternal_def JwtIssuerPublic_def
  JwtJwksEndpoint_def JwtExpectedAzp_def ProduceTasksCronExpr_def LimitsConfigKey_def PgDsn_def

lemma sample_outside_ready:
  "database_ready sample_outside" "verifier_ready sample_outside" "etcd_ready sample_outside 0"
  "settings_ready sample_outside empty_etcd" "serving_ready sample_outside"
proof -
  have "TrimSpace (TrimRight (\<lambda>c. c = CHR ''/'') ''https://sso'') = ''https://sso''" "TrimSpace [] = []"
    "TrimSpace (TrimRight (\<lambda>c. c = CHR ''/'') ''/'') = []" "TrimSpace ''@hourly'' = ''@hourly''"
    "etcdEndpoints_of '' etcd:2379 '' = [''etcd:2379'']"
    by code_simp+
  note trims = this
  show "database_ready sample_outside" by (simp add: database_ready_def sample_outside_def config_keys)
  show "verifier_ready sample_outside"
    by (simp add: verifier_ready_def issuer_of_def sample_outside_def config_keys trims resolveJWKSEndpoint_def)
  show "etcd_ready sample_outside 0" by (simp add: etcd_ready_def sample_outside_def config_keys trims)
  have "unmarshal decLimitsConfig (marshalLimits sample_limits) zeroLimitsConfig = Inr sample_limits"
    by (rule unmarshal_marshalLimits) (simp add: LimitsConfig_fits_def sample_limits_def int64_range_def)
  moreover have "isOk (ValidateLimitsConfig sample_limits)" by (simp add: valid_limits_iff sample_limits_def)
  ultimately show "settings_ready sample_outside empty_etcd"
    by (simp add: settings_ready_def valid_cron_def sample_outside_def empty_etcd_def config_keys trims sample_parse_def)
  show "serving_ready sample_outside"
    by (simp add: serving_ready_def sample_outside_def config_keys decorateSwaggerSpecWithSSO_def trims)
qed

theorem main_starts_witness: "started (fst (main sample_outside empty_etcd))"
  using main_starts [of sample_outside empty_etcd] sample_outside_ready by (simp add: sample_outside_def)

end
