(* ===== verification/Gateway.thy ===== *)
theory Gateway
  imports Api Http_Handler
begin

text \<open>
  The generated gateway (\<open>proto/metricsherlock/targetgroups/v1/target_groups.pb.gw.go\<close>): the table of
  routes, the twelve functions that turn an HTTP request into a call of the service, their twelve
  twins for a remote service, and the two registrations.

  The gateway's run-time library is not part of the repository. What the generated code calls of it
  is the record \<open>gw_runtime\<close>: form parsing, filling a message from query parameters, conversion of path
  parameters, decoding of bodies, annotation of contexts, and the writing of answers. The library's
  multiplexer is the argument \<open>serve\<close>; what the program relies on is \<open>mux_dispatches\<close> and
  \<open>mux_routes\<close>, the library's documented behaviour.
\<close>

section \<open>Patterns\<close>

text \<open>A compiled path pattern: a format version, operations with their operands, a pool of strings, a verb.\<close>

record Pattern =
  pat_version :: nat
  pat_ops :: "nat list"
  pat_pool :: "string list"
  pat_verb :: string

definition NewPattern :: "nat \<Rightarrow> nat list \<Rightarrow> string list \<Rightarrow> string \<Rightarrow> Pattern" where
  "NewPattern version ops pool verb = \<lparr>pat_version = version, pat_ops = ops, pat_pool = pool, pat_verb = verb\<rparr>"

definition pattern_TargetGroupsService_ListTargetGroups_0 :: Pattern where
  "pattern_TargetGroupsService_ListTargetGroups_0 =
     NewPattern 1 [2, 0, 2, 1, 2, 2]
       [''api'', ''v1'', ''target-groups''] []"

definition pattern_TargetGroupsService_GetTargetGroup_0 :: Pattern where
  "pattern_TargetGroupsService_GetTargetGroup_0 =
     NewPattern 1 [2, 0, 2, 1, 2, 2, 1, 0, 4, 1, 5, 3]
       [''api'', ''v1'', ''target-groups'', ''id''] []"

definition pattern_TargetGroupsService_ListMetricWhitelist_0 :: Pattern where
  "pattern_TargetGroupsService_ListMetricWhitelist_0 =
     NewPattern 1 [2, 0, 2, 1, 2, 2, 2, 3]
       [''api'', ''v1'', ''whitelist'', ''metrics''] []"

definition pattern_TargetGroupsService_UpsertMetricWhitelist_0 :: Pattern where
  "pattern_TargetGroupsService_UpsertMetricWhitelist_0 =
     NewPattern 1 [2, 0, 2, 1, 2, 2, 2, 3]
       [''api'', ''v1'', ''whitelist'', ''metrics''] []"

definition pattern_TargetGroupsService_DeleteMetricWhitelist_0 :: Pattern where
  "pattern_TargetGroupsService_DeleteMetricWhitelist_0 =
     NewPattern 1 [2, 0, 2, 1, 2, 2, 2, 3, 1, 0, 4, 1, 5, 4, 1, 0, 4, 1, 5, 5, 1, 0, 4, 1, 5, 6]
       [''api'', ''v1'', ''whitelist'', ''metrics'', ''target_group'', ''env'', ''metric_name''] []"

definition pattern_TargetGroupsService_ListTargetWhitelist_0 :: Pattern where
  "pattern_TargetGroupsService_ListTargetWhitelist_0 =
     NewPattern 1 [2, 0, 2, 1, 2, 2, 2, 3]
       [''api'', ''v1'', ''whitelist'', ''targets''] []"

definition pattern_TargetGroupsService_UpsertTargetWhitelist_0 :: Pattern where
  "pattern_TargetGroupsService_UpsertTargetWhitelist_0 =
     NewPattern 1 [2, 0, 2, 1, 2, 2, 2, 3]
       [''api'', ''v1'', ''whitelist'', ''targets''] []"

definition pattern_TargetGroupsService_DeleteTargetWhitelist_0 :: Pattern where
  "pattern_TargetGroupsService_DeleteTargetWhitelist_0 =
     NewPattern 1 [2, 0, 2, 1, 2, 2, 2, 3, 1, 0, 4, 1, 5, 4, 1, 0, 4, 1, 5, 5]
       [''api'', ''v1'', ''whitelist'', ''targets'', ''target_group'', ''env''] []"

definition pattern_TargetGroupsService_GetMetricCheckLimits_0 :: Pattern where
  "pattern_TargetGroupsService_GetMetricCheckLimits_0 =
     NewPattern 1 [2, 0, 2, 1, 2, 2, 2, 3]
       [''api'', ''v1'', ''settings'', ''metric-check-limits''] []"

definition pattern_TargetGroupsService_UpdateMetricCheckLimits_0 :: Pattern where
  "pattern_TargetGroupsService_UpdateMetricCheckLimits_0 =
     NewPattern 1 [2, 0, 2, 1, 2, 2, 2, 3]
       [''api'', ''v1'', ''settings'', ''metric-check-limits''] []"

definition pattern_TargetGroupsService_GetScrapeTasksSchedule_0 :: Pattern where
  "pattern_TargetGroupsService_GetScrapeTasksSchedule_0 =
     NewPattern 1 [2, 0, 2, 1, 2, 2, 2, 3]
       [''api'', ''v1'', ''settings'', ''scrape-tasks-schedule''] []"

definition pattern_TargetGroupsService_UpdateScrapeTasksSchedule_0 :: Pattern where
  "pattern_TargetGroupsService_UpdateScrapeTasksSchedule_0 =
     NewPattern 1 [2, 0, 2, 1, 2, 2, 2, 3]
       [''api'', ''v1'', ''settings'', ''scrape-tasks-schedule''] []"

section \<open>What the generated code calls\<close>

datatype api_message =
    ListTargetGroupsResponse "TargetGroupSummary list"
  | GetTargetGroupResponse TargetGroupDetails
  | ListMetricWhitelistResponse "MetricWhitelistItem list"
  | ListTargetWhitelistResponse "TargetWhitelistItem list"
  | GetMetricCheckLimitsResponse MetricCheckLimits
  | GetScrapeTasksScheduleResponse string
  | Empty

datatype call_error = StatusError status | OtherError goerr

definition io_EOF :: goerr where "io_EOF = ErrNew ''EOF''"

text \<open>
  The library. A decoder returns its error, if any, and the message as it leaves it; \<open>gr_populate\<close> gets
  the names of the message's string fields and the form, and returns the values of the fields.
\<close>

record gw_runtime =
  gr_parseForm :: "Request \<Rightarrow> (string \<Rightarrow> string list) result"
  gr_populate :: "string list \<Rightarrow> (string \<Rightarrow> string list) \<Rightarrow> (string \<Rightarrow> string) result"
  gr_int64 :: "string \<Rightarrow> int result"
  gr_string :: "string \<Rightarrow> string result"
  gr_decodeMetricItem :: "string \<Rightarrow> goerr option \<times> MetricWhitelistItem option"
  gr_decodeTargetItem :: "string \<Rightarrow> goerr option \<times> TargetWhitelistItem option"
  gr_decodeLimits :: "string \<Rightarrow> goerr option \<times> MetricCheckLimits option"
  gr_decodeSchedule :: "string \<Rightarrow> goerr option \<times> string"
  gr_annotateIncoming :: "string \<Rightarrow> string \<Rightarrow> Request \<Rightarrow> unit result"
  gr_annotate :: "string \<Rightarrow> string \<Rightarrow> Request \<Rightarrow> unit result"
  gr_HTTPError :: "Request \<Rightarrow> call_error \<Rightarrow> Response"
  gr_ForwardResponseMessage :: "Request \<Rightarrow> api_message \<Rightarrow> Response"

text \<open>The service as an interface: \<open>TargetGroupsServiceServer\<close>, and \<open>TargetGroupsServiceClient\<close> with the same calls.\<close>

record 's service_methods =
  sm_ListTargetGroups :: "string \<Rightarrow> 's \<Rightarrow> (status + TargetGroupSummary list) \<times> 's"
  sm_GetTargetGroup :: "int \<Rightarrow> 's \<Rightarrow> (status + TargetGroupDetails) \<times> 's"
  sm_ListMetricWhitelist :: "string \<Rightarrow> string \<Rightarrow> 's \<Rightarrow> (status + MetricWhitelistItem list) \<times> 's"
  sm_UpsertMetricWhitelist :: "MetricWhitelistItem option \<Rightarrow> 's \<Rightarrow> (status + unit) \<times> 's"
  sm_DeleteMetricWhitelist :: "string \<Rightarrow> string \<Rightarrow> string \<Rightarrow> 's \<Rightarrow> (status + unit) \<times> 's"
  sm_ListTargetWhitelist :: "string \<Rightarrow> string \<Rightarrow> 's \<Rightarrow> (status + TargetWhitelistItem list) \<times> 's"
  sm_UpsertTargetWhitelist :: "TargetWhitelistItem option \<Rightarrow> 's \<Rightarrow> (status + unit) \<times> 's"
  sm_DeleteTargetWhitelist :: "string \<Rightarrow> string \<Rightarrow> 's \<Rightarrow> (status + unit) \<times> 's"
  sm_GetMetricCheckLimits :: "'s \<Rightarrow> (status + MetricCheckLimits) \<times> 's"
  sm_UpdateMetricCheckLimits :: "MetricCheckLimits option \<Rightarrow> 's \<Rightarrow> (status + unit) \<times> 's"
  sm_GetScrapeTasksSchedule :: "'s \<Rightarrow> (status + string) \<times> 's"
  sm_UpdateScrapeTasksSchedule :: "string \<Rightarrow> 's \<Rightarrow> (status + unit) \<times> 's"

definition service_server :: "'s targetGroupsService \<Rightarrow> 's service_methods" where
  "service_server svc =
     \<lparr>sm_ListTargetGroups = ListTargetGroups_rpc svc,
      sm_GetTargetGroup = GetTargetGroup_rpc svc,
      sm_ListMetricWhitelist = ListMetricWhitelist_rpc svc,
      sm_UpsertMetricWhitelist = UpsertMetricWhitelist_rpc svc,
      sm_DeleteMetricWhitelist = DeleteMetricWhitelist_rpc svc,
      sm_ListTargetWhitelist = ListTargetWhitelist_rpc svc,
      sm_UpsertTargetWhitelist = UpsertTargetWhitelist_rpc svc,
      sm_DeleteTargetWhitelist = DeleteTargetWhitelist_rpc svc,
      sm_GetMetricCheckLimits = GetMetricCheckLimits_rpc svc,
      sm_UpdateMetricCheckLimits = UpdateMetricCheckLimits_rpc svc,
      sm_GetScrapeTasksSchedule = GetScrapeTasksSchedule_rpc svc,
      sm_UpdateScrapeTasksSchedule = UpdateScrapeTasksSchedule_rpc svc\<rparr>"

section \<open>From requests to calls\<close>

type_synonym 's local_request =
  "Request \<Rightarrow> (string \<rightharpoonup> string) \<Rightarrow> 's \<Rightarrow> (status + api_message) \<times> 's"

definition answer :: "('a \<Rightarrow> api_message) \<Rightarrow> (status + 'a) \<times> 's \<Rightarrow> (status + api_message) \<times> 's" where
  "answer f = (\<lambda>(r, s). (map_sum (\<lambda>e. e) f r, s))"

definition query_params :: "gw_runtime \<Rightarrow> string list \<Rightarrow> Request \<Rightarrow> status + (string \<Rightarrow> string)" where
  "query_params rt names req =
     (case gr_parseForm rt req of
        Inl e \<Rightarrow> Inl (Status InvalidArgument (err_message e))
      | Inr form \<Rightarrow>
          (case gr_populate rt names form of
             Inl e \<Rightarrow> Inl (Status InvalidArgument (err_message e))
           | Inr q \<Rightarrow> Inr q))"

definition path_param :: "(string \<rightharpoonup> string) \<Rightarrow> string \<Rightarrow> (string \<Rightarrow> 'a result) \<Rightarrow> status + 'a" where
  "path_param pathParams name convert =
     (case pathParams name of
        None \<Rightarrow> Inl (Status InvalidArgument (''missing parameter '' @ name))
      | Some val \<Rightarrow>
          (case convert val of
             Inl e \<Rightarrow> Inl (Status InvalidArgument
                 (''type mismatch, parameter: '' @ name @ '', error: '' @ err_message e))
           | Inr v \<Rightarrow> Inr v))"

definition decode_body :: "(string \<Rightarrow> goerr option \<times> 'a) \<Rightarrow> Request \<Rightarrow> status + 'a" where
  "decode_body decode req =
     (case decode (rq_Body req) of
        (None, m) \<Rightarrow> Inr m
      | (Some e, m) \<Rightarrow> if errors_Is e io_EOF then Inr m else Inl (Status InvalidArgument (err_message e)))"

definition local_request_TargetGroupsService_ListTargetGroups_0 :: "gw_runtime \<Rightarrow> 's service_methods \<Rightarrow> 's local_request" where
  "local_request_TargetGroupsService_ListTargetGroups_0 rt server req pathParams s =
     (case query_params rt [''team_name''] req of
        Inl e \<Rightarrow> (Inl e, s)
      | Inr q \<Rightarrow> answer ListTargetGroupsResponse (sm_ListTargetGroups server (q ''team_name'') s))"

definition local_request_TargetGroupsService_GetTargetGroup_0 :: "gw_runtime \<Rightarrow> 's service_methods \<Rightarrow> 's local_request" where
  "local_request_TargetGroupsService_GetTargetGroup_0 rt server req pathParams s =
     (case path_param pathParams ''id'' (gr_int64 rt) of
        Inl e \<Rightarrow> (Inl e, s)
      | Inr gid \<Rightarrow> answer GetTargetGroupResponse (sm_GetTargetGroup server gid s))"

definition local_request_TargetGroupsService_ListMetricWhitelist_0 :: "gw_runtime \<Rightarrow> 's service_methods \<Rightarrow> 's local_request" where
  "local_request_TargetGroupsService_ListMetricWhitelist_0 rt server req pathParams s =
     (case query_params rt [''target_group'', ''env''] req of
        Inl e \<Rightarrow> (Inl e, s)
      | Inr q \<Rightarrow> answer ListMetricWhitelistResponse (sm_ListMetricWhitelist server (q ''target_group'') (q ''env'') s))"

definition local_request_TargetGroupsService_UpsertMetricWhitelist_0 :: "gw_runtime \<Rightarrow> 's service_methods \<Rightarrow> 's local_request" where
  "local_request_TargetGroupsService_UpsertMetricWhitelist_0 rt server req pathParams s =
     (case decode_body (gr_decodeMetricItem rt) req of
        Inl e \<Rightarrow> (Inl e, s)
      | Inr protoReq \<Rightarrow> answer (\<lambda>_. Empty) (sm_UpsertMetricWhitelist server protoReq s))"

definition local_request_TargetGroupsService_DeleteMetricWhitelist_0 :: "gw_runtime \<Rightarrow> 's service_methods \<Rightarrow> 's local_request" where
  "local_request_TargetGroupsService_DeleteMetricWhitelist_0 rt server req pathParams s =
     (case path_param pathParams ''target_group'' (gr_string rt) of
        Inl e \<Rightarrow> (Inl e, s)
      | Inr targetGroup \<Rightarrow>
         (case path_param pathParams ''env'' (gr_string rt) of
            Inl e \<Rightarrow> (Inl e, s)
          | Inr env \<Rightarrow>
             (case path_param pathParams ''metric_name'' (gr_string rt) of
                Inl e \<Rightarrow> (Inl e, s)
              | Inr metricName \<Rightarrow> answer (\<lambda>_. Empty) (sm_DeleteMetricWhitelist server targetGroup env metricName s))))"

definition local_request_TargetGroupsService_ListTargetWhitelist_0 :: "gw_runtime \<Rightarrow> 's service_methods \<Rightarrow> 's local_request" where
  "local_request_TargetGroupsService_ListTargetWhitelist_0 rt server req pathParams s =
     (case query_params rt [''target_group'', ''env''] req of
        Inl e \<Rightarrow> (Inl e, s)
      | Inr q \<Rightarrow> answer ListTargetWhitelistResponse (sm_ListTargetWhitelist server (q ''target_group'') (q ''env'') s))"

definition local_request_TargetGroupsService_UpsertTargetWhitelist_0 :: "gw_runtime \<Rightarrow> 's service_methods \<Rightarrow> 's local_request" where
  "local_request_TargetGroupsService_UpsertTargetWhitelist_0 rt server req pathParams s =
     (case decode_body (gr_decodeTargetItem rt) req of
        Inl e \<Rightarrow> (Inl e, s)
      | Inr protoReq \<Rightarrow> answer (\<lambda>_. Empty) (sm_UpsertTargetWhitelist server protoReq s))"

definition local_request_TargetGroupsService_DeleteTargetWhitelist_0 :: "gw_runtime \<Rightarrow> 's service_methods \<Rightarrow> 's local_request" where
  "local_request_TargetGroupsService_DeleteTargetWhitelist_0 rt server req pathParams s =
     (case path_param pathParams ''target_group'' (gr_string rt) of
        Inl e \<Rightarrow> (Inl e, s)
      | Inr targetGroup \<Rightarrow>
         (case path_param pathParams ''env'' (gr_string rt) of
            Inl e \<Rightarrow> (Inl e, s)
          | Inr env \<Rightarrow> answer (\<lambda>_. Empty) (sm_DeleteTargetWhitelist server targetGroup env s)))"

definition local_request_TargetGroupsService_GetMetricCheckLimits_0 :: "gw_runtime \<Rightarrow> 's service_methods \<Rightarrow> 's local_request" where
  "local_request_TargetGroupsService_GetMetricCheckLimits_0 rt server req pathParams s =
     answer GetMetricCheckLimitsResponse (sm_GetMetricCheckLimits server s)"

definition local_request_TargetGroupsService_UpdateMetricCheckLimits_0 :: "gw_runtime \<Rightarrow> 's service_methods \<Rightarrow> 's local_request" where
  "local_request_TargetGroupsService_UpdateMetricCheckLimits_0 rt server req pathParams s =
     (case decode_body (gr_decodeLimits rt) req of
        Inl e \<Rightarrow> (Inl e, s)
      | Inr protoReq \<Rightarrow> answer (\<lambda>_. Empty) (sm_UpdateMetricCheckLimits server protoReq s))"

definition local_request_TargetGroupsService_GetScrapeTasksSchedule_0 :: "gw_runtime \<Rightarrow> 's service_methods \<Rightarrow> 's local_request" where
  "local_request_TargetGroupsService_GetScrapeTasksSchedule_0 rt server req pathParams s =
     answer GetScrapeTasksScheduleResponse (sm_GetScrapeTasksSchedule server s)"

definition local_request_TargetGroupsService_UpdateScrapeTasksSchedule_0 :: "gw_runtime \<Rightarrow> 's service_methods \<Rightarrow> 's local_request" where
  "local_request_TargetGroupsService_UpdateScrapeTasksSchedule_0 rt server req pathParams s =
     (case decode_body (gr_decodeSchedule rt) req of
        Inl e \<Rightarrow> (Inl e, s)
      | Inr protoReq \<Rightarrow> answer (\<lambda>_. Empty) (sm_UpdateScrapeTasksSchedule server protoReq s))"

text \<open>For a remote service the rest of the body is read and discarded first.\<close>

definition drained :: "Request \<Rightarrow> Request" where
  "drained req = req\<lparr>rq_Body := []\<rparr>"

definition request_TargetGroupsService_ListTargetGroups_0 :: "gw_runtime \<Rightarrow> 's service_methods \<Rightarrow> 's local_request" where
  "request_TargetGroupsService_ListTargetGroups_0 rt client req pathParams s =
     (let req = drained req in case query_params rt [''team_name''] req of
        Inl e \<Rightarrow> (Inl e, s)
      | Inr q \<Rightarrow> answer ListTargetGroupsResponse (sm_ListTargetGroups client (q ''team_name'') s))"

definition request_TargetGroupsService_GetTargetGroup_0 :: "gw_runtime \<Rightarrow> 's service_methods \<Rightarrow> 's local_request" where
  "request_TargetGroupsService_GetTargetGroup_0 rt client req pathParams s =
     (case path_param pathParams ''id'' (gr_int64 rt) of
        Inl e \<Rightarrow> (Inl e, s)
      | Inr gid \<Rightarrow> answer GetTargetGroupResponse (sm_GetTargetGroup client gid s))"

definition request_TargetGroupsService_ListMetricWhitelist_0 :: "gw_runtime \<Rightarrow> 's service_methods \<Rightarrow> 's local_request" where
  "request_TargetGroupsService_ListMetricWhitelist_0 rt client req pathParams s =
     (let req = drained req in case query_params rt [''target_group'', ''env''] req of
        Inl e \<Rightarrow> (Inl e, s)
      | Inr q \<Rightarrow> answer ListMetricWhitelistResponse (sm_ListMetricWhitelist client (q ''target_group'') (q ''env'') s))"

definition request_TargetGroupsService_UpsertMetricWhitelist_0 :: "gw_runtime \<Rightarrow> 's service_methods \<Rightarrow> 's local_request" where
  "request_TargetGroupsService_UpsertMetricWhitelist_0 rt client req pathParams s =
     (case decode_body (gr_decodeMetricItem rt) req of
        Inl e \<Rightarrow> (Inl e, s)
      | Inr protoReq \<Rightarrow> answer (\<lambda>_. Empty) (sm_UpsertMetricWhitelist client protoReq s))"

definition request_TargetGroupsService_DeleteMetricWhitelist_0 :: "gw_runtime \<Rightarrow> 's service_methods \<Rightarrow> 's local_request" where
  "request_TargetGroupsService_DeleteMetricWhitelist_0 rt client req pathParams s =
     (case path_param pathParams ''target_group'' (gr_string rt) of
        Inl e \<Rightarrow> (Inl e, s)
      | Inr targetGroup \<Rightarrow>
         (case path_param pathParams ''env'' (gr_string rt) of
            Inl e \<Rightarrow> (Inl e, s)
          | Inr env \<Rightarrow>
             (case path_param pathParams ''metric_name'' (gr_string rt) of
                Inl e \<Rightarrow> (Inl e, s)
              | Inr metricName \<Rightarrow> answer (\<lambda>_. Empty) (sm_DeleteMetricWhitelist client targetGroup env metricName s))))"

definition request_TargetGroupsService_ListTargetWhitelist_0 :: "gw_runtime \<Rightarrow> 's service_methods \<Rightarrow> 's local_request" where
  "request_TargetGroupsService_ListTargetWhitelist_0 rt client req pathParams s =
     (let req = drained req in case query_params rt [''target_group'', ''env''] req of
        Inl e \<Rightarrow> (Inl e, s)
      | Inr q \<Rightarrow> answer ListTargetWhitelistResponse (sm_ListTargetWhitelist client (q ''target_group'') (q ''env'') s))"

definition request_TargetGroupsService_UpsertTargetWhitelist_0 :: "gw_runtime \<Rightarrow> 's service_methods \<Rightarrow> 's local_request" where
  "request_TargetGroupsService_UpsertTargetWhitelist_0 rt client req pathParams s =
     (case decode_body (gr_decodeTargetItem rt) req of
        Inl e \<Rightarrow> (Inl e, s)
      | Inr protoReq \<Rightarrow> answer (\<lambda>_. Empty) (sm_UpsertTargetWhitelist client protoReq s))"

definition request_TargetGroupsService_DeleteTargetWhitelist_0 :: "gw_runtime \<Rightarrow> 's service_methods \<Rightarrow> 's local_request" where
  "request_TargetGroupsService_DeleteTargetWhitelist_0 rt client req pathParams s =
     (case path_param pathParams ''target_group'' (gr_string rt) of
        Inl e \<Rightarrow> (Inl e, s)
      | Inr targetGroup \<Rightarrow>
         (case path_param pathParams ''env'' (gr_string rt) of
            Inl e \<Rightarrow> (Inl e, s)
          | Inr env \<Rightarrow> answer (\<lambda>_. Empty) (sm_DeleteTargetWhitelist client targetGroup env s)))"

definition request_TargetGroupsService_GetMetricCheckLimits_0 :: "gw_runtime \<Rightarrow> 's service_methods \<Rightarrow> 's local_request" where
  "request_TargetGroupsService_GetMetricCheckLimits_0 rt client req pathParams s =
     answer GetMetricCheckLimitsResponse (sm_GetMetricCheckLimits client s)"

definition request_TargetGroupsService_UpdateMetricCheckLimits_0 :: "gw_runtime \<Rightarrow> 's service_methods \<Rightarrow> 's local_request" where
  "request_TargetGroupsService_UpdateMetricCheckLimits_0 rt client req pathParams s =
     (case decode_body (gr_decodeLimits rt) req of
        Inl e \<Rightarrow> (Inl e, s)
      | Inr protoReq \<Rightarrow> answer (\<lambda>_. Empty) (sm_UpdateMetricCheckLimits client protoReq s))"

definition request_TargetGroupsService_GetScrapeTasksSchedule_0 :: "gw_runtime \<Rightarrow> 's service_methods \<Rightarrow> 's local_request" where
  "request_TargetGroupsService_GetScrapeTasksSchedule_0 rt client req pathParams s =
     answer GetScrapeTasksScheduleResponse (sm_GetScrapeTasksSchedule client s)"

definition request_TargetGroupsService_UpdateScrapeTasksSchedule_0 :: "gw_runtime \<Rightarrow> 's service_methods \<Rightarrow> 's local_request" where
  "request_TargetGroupsService_UpdateScrapeTasksSchedule_0 rt client req pathParams s =
     (case decode_body (gr_decodeSchedule rt) req of
        Inl e \<Rightarrow> (Inl e, s)
      | Inr protoReq \<Rightarrow> answer (\<lambda>_. Empty) (sm_UpdateScrapeTasksSchedule client protoReq s))"

section \<open>Registration\<close>

record 's route_entry =
  re_method :: string
  re_pattern :: Pattern
  re_template :: string
  re_handler :: "Request \<Rightarrow> (string \<rightharpoonup> string) \<Rightarrow> 's \<Rightarrow> Response \<times> 's"

text \<open>The closure every route registers; only the names differ.\<close>

definition gw_handle ::
  "gw_runtime \<Rightarrow> (string \<Rightarrow> string \<Rightarrow> Request \<Rightarrow> unit result) \<Rightarrow> string \<Rightarrow> string \<Rightarrow> 's local_request \<Rightarrow>
   Request \<Rightarrow> (string \<rightharpoonup> string) \<Rightarrow> 's \<Rightarrow> Response \<times> 's" where
  "gw_handle rt annotate rpcMethod template call req pathParams s =
     (case annotate rpcMethod template req of
        Inl e \<Rightarrow> (gr_HTTPError rt req (OtherError e), s)
      | Inr _ \<Rightarrow>
          (case call req pathParams s of
             (Inl e, s) \<Rightarrow> (gr_HTTPError rt req (StatusError e), s)
           | (Inr resp, s) \<Rightarrow> (gr_ForwardResponseMessage rt req resp, s)))"

definition serviceName :: string where "serviceName = ''/metricsherlock.targetgroups.v1.TargetGroupsService/''"

definition gw_route ::
  "gw_runtime \<Rightarrow> (string \<Rightarrow> string \<Rightarrow> Request \<Rightarrow> unit result) \<Rightarrow> string \<Rightarrow> Pattern \<Rightarrow> string \<Rightarrow> string \<Rightarrow>
   's local_request \<Rightarrow> 's route_entry" where
  "gw_route rt annotate meth pat rpc template call =
     \<lparr>re_method = meth, re_pattern = pat, re_template = template,
      re_handler = gw_handle rt annotate (serviceName @ rpc) template call\<rparr>"

definition RegisterTargetGroupsServiceHandlerServer :: "gw_runtime \<Rightarrow> 's service_methods \<Rightarrow> 's route_entry list" where
  "RegisterTargetGroupsServiceHandlerServer rt server =
     [gw_route rt (gr_annotateIncoming rt) ''GET'' pattern_TargetGroupsService_ListTargetGroups_0 ''ListTargetGroups'' ''/api/v1/target-groups''
        (local_request_TargetGroupsService_ListTargetGroups_0 rt server),
      gw_route rt (gr_annotateIncoming rt) ''GET'' pattern_TargetGroupsService_GetTargetGroup_0 ''GetTargetGroup'' ''/api/v1/target-groups/{id}''
        (local_request_TargetGroupsService_GetTargetGroup_0 rt server),
      gw_route rt (gr_annotateIncoming rt) ''GET'' pattern_TargetGroupsService_ListMetricWhitelist_0 ''ListMetricWhitelist'' ''/api/v1/whitelist/metrics''
        (local_request_TargetGroupsService_ListMetricWhitelist_0 rt server),
      gw_route rt (gr_annotateIncoming rt) ''PUT'' pattern_TargetGroupsService_UpsertMetricWhitelist_0 ''UpsertMetricWhitelist'' ''/api/v1/whitelist/metrics''
        (local_request_TargetGroupsService_UpsertMetricWhitelist_0 rt server),
      gw_route rt (gr_annotateIncoming rt) ''DELETE'' pattern_TargetGroupsService_DeleteMetricWhitelist_0 ''DeleteMetricWhitelist'' ''/api/v1/whitelist/metrics/{target_group}/{env}/{metric_name}''
        (local_request_TargetGroupsService_DeleteMetricWhitelist_0 rt server),
      gw_route rt (gr_annotateIncoming rt) ''GET'' pattern_TargetGroupsService_ListTargetWhitelist_0 ''ListTargetWhitelist'' ''/api/v1/whitelist/targets''
        (local_request_TargetGroupsService_ListTargetWhitelist_0 rt server),
      gw_route rt (gr_annotateIncoming rt) ''PUT'' pattern_TargetGroupsService_UpsertTargetWhitelist_0 ''UpsertTargetWhitelist'' ''/api/v1/whitelist/targets''
        (local_request_TargetGroupsService_UpsertTargetWhitelist_0 rt server),
      gw_route rt (gr_annotateIncoming rt) ''DELETE'' pattern_TargetGroupsService_DeleteTargetWhitelist_0 ''DeleteTargetWhitelist'' ''/api/v1/whitelist/targets/{target_group}/{env}''
        (local_request_TargetGroupsService_DeleteTargetWhitelist_0 rt server),
      gw_route rt (gr_annotateIncoming rt) ''GET'' pattern_TargetGroupsService_GetMetricCheckLimits_0 ''GetMetricCheckLimits'' ''/api/v1/settings/metric-check-limits''
        (local_request_TargetGroupsService_GetMetricCheckLimits_0 rt server),
      gw_route rt (gr_annotateIncoming rt) ''PUT'' pattern_TargetGroupsService_UpdateMetricCheckLimits_0 ''UpdateMetricCheckLimits'' ''/api/v1/settings/metric-check-limits''
        (local_request_TargetGroupsService_UpdateMetricCheckLimits_0 rt server),
      gw_route rt (gr_annotateIncoming rt) ''GET'' pattern_TargetGroupsService_GetScrapeTasksSchedule_0 ''GetScrapeTasksSchedule'' ''/api/v1/settings/scrape-tasks-schedule''
        (local_request_TargetGroupsService_GetScrapeTasksSchedule_0 rt server),
      gw_route rt (gr_annotateIncoming rt) ''PUT'' pattern_TargetGroupsService_UpdateScrapeTasksSchedule_0 ''UpdateScrapeTasksSchedule'' ''/api/v1/settings/scrape-tasks-schedule''
        (local_request_TargetGroupsService_UpdateScrapeTasksSchedule_0 rt server)]"

definition RegisterTargetGroupsServiceHandlerClient :: "gw_runtime \<Rightarrow> 's service_methods \<Rightarrow> 's route_entry list" where
  "RegisterTargetGroupsServiceHandlerClient rt client =
     [gw_route rt (gr_annotate rt) ''GET'' pattern_TargetGroupsService_ListTargetGroups_0 ''ListTargetGroups'' ''/api/v1/target-groups''
        (request_TargetGroupsService_ListTargetGroups_0 rt client),
      gw_route rt (gr_annotate rt) ''GET'' pattern_TargetGroupsService_GetTargetGroup_0 ''GetTargetGroup'' ''/api/v1/target-groups/{id}''
        (request_TargetGroupsService_GetTargetGroup_0 rt client),
      gw_route rt (gr_annotate rt) ''GET'' pattern_TargetGroupsService_ListMetricWhitelist_0 ''ListMetricWhitelist'' ''/api/v1/whitelist/metrics''
        (request_TargetGroupsService_ListMetricWhitelist_0 rt client),
      gw_route rt (gr_annotate rt) ''PUT'' pattern_TargetGroupsService_UpsertMetricWhitelist_0 ''UpsertMetricWhitelist'' ''/api/v1/whitelist/metrics''
        (request_TargetGroupsService_UpsertMetricWhitelist_0 rt client),
      gw_route rt (gr_annotate rt) ''DELETE'' pattern_TargetGroupsService_DeleteMetricWhitelist_0 ''DeleteMetricWhitelist'' ''/api/v1/whitelist/metrics/{target_group}/{env}/{metric_name}''
        (request_TargetGroupsService_DeleteMetricWhitelist_0 rt client),
      gw_route rt (gr_annotate rt) ''GET'' pattern_TargetGroupsService_ListTargetWhitelist_0 ''ListTargetWhitelist'' ''/api/v1/whitelist/targets''
        (request_TargetGroupsService_ListTargetWhitelist_0 rt client),
      gw_route rt (gr_annotate rt) ''PUT'' pattern_TargetGroupsService_UpsertTargetWhitelist_0 ''UpsertTargetWhitelist'' ''/api/v1/whitelist/targets''
        (request_TargetGroupsService_UpsertTargetWhitelist_0 rt client),
      gw_route rt (gr_annotate rt) ''DELETE'' pattern_TargetGroupsService_DeleteTargetWhitelist_0 ''DeleteTargetWhitelist'' ''/api/v1/whitelist/targets/{target_group}/{env}''
        (request_TargetGroupsService_DeleteTargetWhitelist_0 rt client),
      gw_route rt (gr_annotate rt) ''GET'' pattern_TargetGroupsService_GetMetricCheckLimits_0 ''GetMetricCheckLimits'' ''/api/v1/settings/metric-check-limits''
        (request_TargetGroupsService_GetMetricCheckLimits_0 rt client),
      gw_route rt (gr_annotate rt) ''PUT'' pattern_TargetGroupsService_UpdateMetricCheckLimits_0 ''UpdateMetricCheckLimits'' ''/api/v1/settings/metric-check-limits''
        (request_TargetGroupsService_UpdateMetricCheckLimits_0 rt client),
      gw_route rt (gr_annotate rt) ''GET'' pattern_TargetGroupsService_GetScrapeTasksSchedule_0 ''GetScrapeTasksSchedule'' ''/api/v1/settings/scrape-tasks-schedule''
        (request_TargetGroupsService_GetScrapeTasksSchedule_0 rt client),
      gw_route rt (gr_annotate rt) ''PUT'' pattern_TargetGroupsService_UpdateScrapeTasksSchedule_0 ''UpdateScrapeTasksSchedule'' ''/api/v1/settings/scrape-tasks-schedule''
        (request_TargetGroupsService_UpdateScrapeTasksSchedule_0 rt client)]"

section \<open>What the patterns say\<close>

text \<open>
  The documented meaning of the operations the patterns use, on the segments of a path: 1 pushes a
  segment, 2 pushes a segment that must be the literal, 4 joins the top of the stack, 5 binds the top
  of the stack to a variable. A pattern matches when no operation fails and no segment is left.
\<close>

type_synonym match_state = "string list \<times> string list \<times> (string \<rightharpoonup> string)"

fun op_list :: "nat list \<Rightarrow> (nat \<times> nat) list" where
  "op_list (c # x # ops) = (c, x) # op_list ops"
| "op_list _ = []"

fun pattern_op :: "string list \<Rightarrow> nat \<times> nat \<Rightarrow> match_state \<Rightarrow> match_state option" where
  "pattern_op pool (c, x) (segs, stack, bound) =
     (if c = 1 then (case segs of [] \<Rightarrow> None | seg # segs \<Rightarrow> Some (segs, seg # stack, bound))
      else if c = 2 then
        (case segs of [] \<Rightarrow> None
         | seg # segs \<Rightarrow> if x < length pool \<and> seg = pool ! x then Some (segs, seg # stack, bound) else None)
      else if c = 4 then Some (segs, join ''/'' (rev (take x stack)) # drop x stack, bound)
      else if c = 5 then
        (case stack of [] \<Rightarrow> None
         | v # stack \<Rightarrow> if x < length pool then Some (segs, stack, bound(pool ! x \<mapsto> v)) else None)
      else None)"

fun run_ops :: "string list \<Rightarrow> (nat \<times> nat) list \<Rightarrow> match_state \<Rightarrow> match_state option" where
  "run_ops pool [] st = Some st"
| "run_ops pool (op # ops) st = Option.bind (pattern_op pool op st) (run_ops pool ops)"

definition run_pattern :: "Pattern \<Rightarrow> string list \<Rightarrow> (string \<rightharpoonup> string) option" where
  "run_pattern p segs =
     (case run_ops (pat_pool p) (op_list (pat_ops p)) (segs, [], Map.empty) of
        Some ([], _, bound) \<Rightarrow> Some bound | _ \<Rightarrow> None)"

text \<open>A path template, as the routes are written down: literal segments and variables in braces.\<close>

definition is_var :: "string \<Rightarrow> bool" where
  "is_var t \<longleftrightarrow> take 1 t = ''{''"

definition var_name :: "string \<Rightarrow> string" where
  "var_name t = butlast (tl t)"

fun match_segments :: "string list \<Rightarrow> string list \<Rightarrow> (string \<rightharpoonup> string) \<Rightarrow> (string \<rightharpoonup> string) option" where
  "match_segments [] [] bound = Some bound"
| "match_segments (t # ts) (seg # segs) bound =
     (if is_var t then match_segments ts segs (bound(var_name t \<mapsto> seg))
      else if t = seg then match_segments ts segs bound else None)"
| "match_segments _ _ _ = None"

definition path_segments :: "string \<Rightarrow> string list" where
  "path_segments path = Split CHR ''/'' (tl path)"

definition template_match :: "string \<Rightarrow> string list \<Rightarrow> (string \<rightharpoonup> string) option" where
  "template_match template segs = match_segments (path_segments template) segs Map.empty"

text \<open>The operations for a literal and for a variable, as the compiler emits them.\<close>

lemma run_literal:
  "run_ops pool ((2, i) # ops) (segs, stack, bound) =
     (case segs of [] \<Rightarrow> None
      | seg # segs \<Rightarrow> if i < length pool \<and> seg = pool ! i then run_ops pool ops (segs, seg # stack, bound) else None)"
  by (simp split: list.split)

lemma run_variable:
  "run_ops pool ((1, 0) # (4, 1) # (5, i) # ops) (segs, stack, bound) =
     (case segs of [] \<Rightarrow> None
      | seg # segs \<Rightarrow> if i < length pool then run_ops pool ops (segs, stack, bound(pool ! i \<mapsto> seg)) else None)"
  by (simp split: list.split)

text \<open>The template a sequence of operations was compiled from.\<close>

fun decompile :: "string list \<Rightarrow> (nat \<times> nat) list \<Rightarrow> string list option" where
  "decompile pool [] = Some []"
| "decompile pool ((c, x) # ops) =
     (if c = 2 then
        if x < length pool \<and> \<not> is_var (pool ! x) then map_option (Cons (pool ! x)) (decompile pool ops) else None
      else (case ops of
          (c2, x2) # (c3, x3) # rest \<Rightarrow>
            if (c, x, c2, x2, c3) = (1, 0, 4, 1, 5) \<and> x3 < length pool
            then map_option (Cons (''{'' @ pool ! x3 @ ''}'')) (decompile pool rest) else None
        | _ \<Rightarrow> None))"

definition finished_match :: "match_state option \<Rightarrow> (string \<rightharpoonup> string) option" where
  "finished_match r = (case r of Some ([], _, bound) \<Rightarrow> Some bound | _ \<Rightarrow> None)"

lemma run_decompiled:
  "decompile pool ops = Some ts \<Longrightarrow> finished_match (run_ops pool ops (segs, stack, bound)) = match_segments ts segs bound"
proof (induction pool ops arbitrary: ts segs stack bound rule: decompile.induct)
  case (1 pool)
  then show ?case by (cases segs) (auto simp: finished_match_def)
next
  case (2 pool c x ops)
  show ?case
  proof (cases "c = 2")
    case True
    with "2.prems" obtain ts' where ts: "ts = pool ! x # ts'" "decompile pool ops = Some ts'" "x < length pool" "\<not> is_var (pool ! x)"
      by (auto split: if_splits)
    with True "2.IH"(1) show ?thesis by (cases segs) (auto simp: finished_match_def)
  next
    case False
    with "2.prems" obtain x3 rest ts' where ops: "ops = (4, 1) # (5, x3) # rest" "c = 1" "x = 0" "x3 < length pool"
      and ts: "ts = (''{'' @ pool ! x3 @ ''}'') # ts'" "decompile pool rest = Some ts'"
      by (auto split: list.splits if_splits prod.splits)
    have "is_var (''{'' @ pool ! x3 @ ''}'')" "var_name (''{'' @ pool ! x3 @ ''}'') = pool ! x3"
      by (simp_all add: is_var_def var_name_def butlast_append)
    moreover have "finished_match (run_ops pool rest (segs, stack, bound)) = match_segments ts' segs bound" for segs stack bound
      using "2.IH"(2) [OF False ops(1) refl refl refl] ops ts(2) by simp
    ultimately show ?thesis
      using ops ts by (cases segs) (simp_all add: finished_match_def)
  qed
qed

lemma run_pattern_template:
  assumes "decompile (pat_pool p) (op_list (pat_ops p)) = Some (path_segments template)"
  shows "run_pattern p segs = template_match template segs"
  using run_decompiled [OF assms, of segs "[]" Map.empty]
  by (simp add: run_pattern_def template_match_def finished_match_def)

section \<open>The routing table\<close>

lemmas patterns =
  pattern_TargetGroupsService_ListTargetGroups_0_def pattern_TargetGroupsService_GetTargetGroup_0_def
  pattern_TargetGroupsService_ListMetricWhitelist_0_def pattern_TargetGroupsService_UpsertMetricWhitelist_0_def
  pattern_TargetGroupsService_DeleteMetricWhitelist_0_def pattern_TargetGroupsService_ListTargetWhitelist_0_def
  pattern_TargetGroupsService_UpsertTargetWhitelist_0_def pattern_TargetGroupsService_DeleteTargetWhitelist_0_def
  pattern_TargetGroupsService_GetMetricCheckLimits_0_def pattern_TargetGroupsService_UpdateMetricCheckLimits_0_def
  pattern_TargetGroupsService_GetScrapeTasksSchedule_0_def pattern_TargetGroupsService_UpdateScrapeTasksSchedule_0_def

definition decompiles :: "Pattern \<Rightarrow> string \<Rightarrow> bool" where
  "decompiles p template \<longleftrightarrow> decompile (pat_pool p) (op_list (pat_ops p)) = Some (path_segments template)"

lemma routes_decompile:
  "list_all (\<lambda>r. decompiles (re_pattern r) (re_template r)) (RegisterTargetGroupsServiceHandlerServer rt server)"
  by (simp add: RegisterTargetGroupsServiceHandlerServer_def gw_route_def decompiles_def patterns NewPattern_def path_segments_def
      is_var_def)

text \<open>Two templates that no path can match both.\<close>

fun clash :: "string list \<Rightarrow> string list \<Rightarrow> bool" where
  "clash [] [] = False"
| "clash (t # ts) (u # us) \<longleftrightarrow> (\<not> is_var t \<and> \<not> is_var u \<and> t \<noteq> u) \<or> clash ts us"
| "clash _ _ = True"

lemma clash_no_match:
  "clash ts us \<Longrightarrow> match_segments ts segs b \<noteq> None \<Longrightarrow> match_segments us segs b' = None"
proof (induction ts us arbitrary: segs b b' rule: clash.induct)
  case (2 t ts u us)
  then show ?case by (cases segs) (auto split: if_splits)
qed (auto elim: match_segments.elims)

lemma at_most_one: "sorted_wrt (\<lambda>x y. \<not> (P x \<and> P y)) xs \<Longrightarrow> length (filter P xs) \<le> 1"
  by (induction xs) (auto simp: filter_empty_conv)

definition routes_apart :: "'s route_entry \<Rightarrow> 's route_entry \<Rightarrow> bool" where
  "routes_apart r r' \<longleftrightarrow> re_method r \<noteq> re_method r' \<or> clash (path_segments (re_template r)) (path_segments (re_template r'))"

lemma table_apart: "sorted_wrt routes_apart (RegisterTargetGroupsServiceHandlerServer rt server)"
  by (simp add: RegisterTargetGroupsServiceHandlerServer_def gw_route_def routes_apart_def path_segments_def is_var_def)

definition routed :: "'s route_entry list \<Rightarrow> string \<Rightarrow> string list \<Rightarrow> 's route_entry list" where
  "routed routes meth segs = filter (\<lambda>r. re_method r = meth \<and> template_match (re_template r) segs \<noteq> None) routes"

lemma routed_once: "length (routed (RegisterTargetGroupsServiceHandlerServer rt server) meth segs) \<le> 1"
  unfolding routed_def
proof (rule at_most_one, rule sorted_wrt_mono_rel [OF _ table_apart])
  fix r r' :: "'a route_entry"
  assume "routes_apart r r'"
  with clash_no_match [of "path_segments (re_template r)" "path_segments (re_template r')" segs Map.empty Map.empty]
  show "\<not> ((re_method r = meth \<and> template_match (re_template r) segs \<noteq> None) \<and>
      re_method r' = meth \<and> template_match (re_template r') segs \<noteq> None)"
    unfolding routes_apart_def template_match_def by metis
qed

lemma routes_run:
  "list_all (\<lambda>r. run_pattern (re_pattern r) segs = template_match (re_template r) segs)
     (RegisterTargetGroupsServiceHandlerServer rt server)"
  using routes_decompile [of rt server] by (rule list.pred_mono_strong) (simp add: decompiles_def run_pattern_template)

text \<open>
  C22. The table of routes is right and unambiguous: every compiled pattern matches exactly the paths of the
  template it was compiled from and binds the same variables, and for any method and path at most
  one route applies, so the order of registration does not matter.
\<close>

theorem routes_match_templates:
  "list_all (\<lambda>r. run_pattern (re_pattern r) segs = template_match (re_template r) segs)
     (RegisterTargetGroupsServiceHandlerServer rt server) \<and>
   length (routed (RegisterTargetGroupsServiceHandlerServer rt server) meth segs) \<le> 1"
  using routes_run routed_once by blast

text \<open>
  A variable is bound to a segment of the path, so never to a name with a slash: a rule whose target group,
  environment or metric has one in its name can be saved but not addressed by a \<open>DELETE\<close>.
\<close>

lemma match_segments_bound: "match_segments ts segs bound = Some ps \<Longrightarrow> ran ps \<subseteq> set segs \<union> ran bound"
proof (induction ts segs bound rule: match_segments.induct)
  case (2 t ts seg segs bound)
  then show ?case by (fastforce simp: ran_def split: if_splits)
qed auto

lemma Split_no_separator: "x \<in> set (Split c s) \<Longrightarrow> c \<notin> set x"
  by (induction s arbitrary: x) (auto split: list.splits if_splits)

lemma variables_without_slash:
  assumes "template_match template (path_segments path) = Some ps" and "ps name = Some x"
  shows "CHR ''/'' \<notin> set x"
proof -
  have "x \<in> set (path_segments path)"
    using match_segments_bound [OF assms(1) [unfolded template_match_def]] assms(2) by (auto simp: ran_def)
  then show ?thesis unfolding path_segments_def by (rule Split_no_separator)
qed

text \<open>
  The functions for a remote service make the same calls, as long as parsing the form of a request does
  not depend on its body (as is documented for \<open>GET\<close>).
\<close>

lemma remote_requests:
  assumes "gr_parseForm rt (drained req) = gr_parseForm rt req"
  shows "request_TargetGroupsService_ListTargetGroups_0 rt m req params s = local_request_TargetGroupsService_ListTargetGroups_0 rt m req params s"
    and "request_TargetGroupsService_GetTargetGroup_0 rt m req params s = local_request_TargetGroupsService_GetTargetGroup_0 rt m req params s"
    and "request_TargetGroupsService_ListMetricWhitelist_0 rt m req params s = local_request_TargetGroupsService_ListMetricWhitelist_0 rt m req params s"
    and "request_TargetGroupsService_UpsertMetricWhitelist_0 rt m req params s = local_request_TargetGroupsService_UpsertMetricWhitelist_0 rt m req params s"
    and "request_TargetGroupsService_DeleteMetricWhitelist_0 rt m req params s = local_request_TargetGroupsService_DeleteMetricWhitelist_0 rt m req params s"
    and "request_TargetGroupsService_ListTargetWhitelist_0 rt m req params s = local_request_TargetGroupsService_ListTargetWhitelist_0 rt m req params s"
    and "request_TargetGroupsService_UpsertTargetWhitelist_0 rt m req params s = local_request_TargetGroupsService_UpsertTargetWhitelist_0 rt m req params s"
    and "request_TargetGroupsService_DeleteTargetWhitelist_0 rt m req params s = local_request_TargetGroupsService_DeleteTargetWhitelist_0 rt m req params s"
    and "request_TargetGroupsService_GetMetricCheckLimits_0 rt m req params s = local_request_TargetGroupsService_GetMetricCheckLimits_0 rt m req params s"
    and "request_TargetGroupsService_UpdateMetricCheckLimits_0 rt m req params s = local_request_TargetGroupsService_UpdateMetricCheckLimits_0 rt m req params s"
    and "request_TargetGroupsService_GetScrapeTasksSchedule_0 rt m req params s = local_request_TargetGroupsService_GetScrapeTasksSchedule_0 rt m req params s"
    and "request_TargetGroupsService_UpdateScrapeTasksSchedule_0 rt m req params s = local_request_TargetGroupsService_UpdateScrapeTasksSchedule_0 rt m req params s"
  using assms
  by (simp_all add: query_params_def Let_def
      request_TargetGroupsService_ListTargetGroups_0_def local_request_TargetGroupsService_ListTargetGroups_0_def
      request_TargetGroupsService_GetTargetGroup_0_def local_request_TargetGroupsService_GetTargetGroup_0_def
      request_TargetGroupsService_ListMetricWhitelist_0_def local_request_TargetGroupsService_ListMetricWhitelist_0_def
      request_TargetGroupsService_UpsertMetricWhitelist_0_def local_request_TargetGroupsService_UpsertMetricWhitelist_0_def
      request_TargetGroupsService_DeleteMetricWhitelist_0_def local_request_TargetGroupsService_DeleteMetricWhitelist_0_def
      request_TargetGroupsService_ListTargetWhitelist_0_def local_request_TargetGroupsService_ListTargetWhitelist_0_def
      request_TargetGroupsService_UpsertTargetWhitelist_0_def local_request_TargetGroupsService_UpsertTargetWhitelist_0_def
      request_TargetGroupsService_DeleteTargetWhitelist_0_def local_request_TargetGroupsService_DeleteTargetWhitelist_0_def
      request_TargetGroupsService_GetMetricCheckLimits_0_def local_request_TargetGroupsService_GetMetricCheckLimits_0_def
      request_TargetGroupsService_UpdateMetricCheckLimits_0_def local_request_TargetGroupsService_UpdateMetricCheckLimits_0_def
      request_TargetGroupsService_GetScrapeTasksSchedule_0_def local_request_TargetGroupsService_GetScrapeTasksSchedule_0_def
      request_TargetGroupsService_UpdateScrapeTasksSchedule_0_def local_request_TargetGroupsService_UpdateScrapeTasksSchedule_0_def)

end
