(* ===== verification/Http_Api.thy ===== *)
theory Http_Api
  imports Gateway
begin

text \<open>
  The API over HTTP, from the request to the tables: the handler of \<open>Http_Handler\<close> with the gateway of
  \<open>Gateway\<close> behind it, the service of \<open>Api\<close> behind the gateway, and the storage and settings of a node
  behind the service.

  The locale \<open>service_invariant\<close> says what it takes for an invariant of the node to survive whatever
  the gateway does with a request; it is interpreted on the service of the program.
\<close>

section \<open>The multiplexer\<close>

text \<open>What \<open>runtime.ServeMux\<close> promises: it answers by itself, or it runs one of the registered handlers.\<close>

definition mux_dispatches :: "('s route_entry list \<Rightarrow> 's handler) \<Rightarrow> bool" where
  "mux_dispatches serve \<longleftrightarrow>
     (\<forall>routes req s. (\<exists>resp. serve routes req s = (resp, s)) \<or>
        (\<exists>r \<in> set routes. \<exists>req' params. serve routes req s = re_handler r req' params s))"

text \<open>
  Which one: for the methods in use and a path without colons and percent signs, the route whose
  pattern matches, if there is exactly one.
\<close>

definition plain_path :: "string \<Rightarrow> bool" where
  "plain_path path \<longleftrightarrow> take 1 path = ''/'' \<and> CHR '':'' \<notin> set path \<and> CHR ''%'' \<notin> set path"

definition candidates :: "'s route_entry list \<Rightarrow> Request \<Rightarrow> 's route_entry list" where
  "candidates routes req =
     filter (\<lambda>r. re_method r = rq_Method req \<and> run_pattern (re_pattern r) (path_segments (rq_Path req)) \<noteq> None) routes"

definition mux_routes :: "('s route_entry list \<Rightarrow> 's handler) \<Rightarrow> bool" where
  "mux_routes serve \<longleftrightarrow>
     (\<forall>routes req s r params.
        rq_Method req \<in> {''GET'', ''PUT'', ''DELETE''} \<and> plain_path (rq_Path req) \<and> candidates routes req = [r] \<and>
        run_pattern (re_pattern r) (path_segments (rq_Path req)) = Some params \<longrightarrow>
        serve routes req s = re_handler r req params s)"

lemma mux_routesD:
  "mux_routes serve \<Longrightarrow> rq_Method req \<in> {''GET'', ''PUT'', ''DELETE''} \<Longrightarrow> plain_path (rq_Path req) \<Longrightarrow>
   candidates routes req = [r] \<Longrightarrow> run_pattern (re_pattern r) (path_segments (rq_Path req)) = Some params \<Longrightarrow>
   serve routes req s = re_handler r req params s"
  by (simp add: mux_routes_def)

definition gateway :: "gw_runtime \<Rightarrow> ('s route_entry list \<Rightarrow> 's handler) \<Rightarrow> 's targetGroupsService \<Rightarrow> 's handler" where
  "gateway rt serve svc = serve (RegisterTargetGroupsServiceHandlerServer rt (service_server svc))"

section \<open>Invariants of the node\<close>

locale service_invariant =
  fixes m :: "'s service_methods" and inv :: "'s \<Rightarrow> bool" and typed :: "MetricWhitelistItem option \<Rightarrow> bool"
    and ltyped :: "MetricCheckLimits option \<Rightarrow> bool"
  assumes groups: "inv s \<Longrightarrow> inv (snd (sm_ListTargetGroups m team s))" "inv s \<Longrightarrow> inv (snd (sm_GetTargetGroup m gid s))"
    and metric_rules: "inv s \<Longrightarrow> inv (snd (sm_ListMetricWhitelist m tg env s))"
      "inv s \<Longrightarrow> typed item \<Longrightarrow> inv (snd (sm_UpsertMetricWhitelist m item s))"
      "inv s \<Longrightarrow> inv (snd (sm_DeleteMetricWhitelist m tg env name s))"
    and target_rules: "inv s \<Longrightarrow> inv (snd (sm_ListTargetWhitelist m tg env s))"
      "inv s \<Longrightarrow> inv (snd (sm_UpsertTargetWhitelist m titem s))" "inv s \<Longrightarrow> inv (snd (sm_DeleteTargetWhitelist m tg env s))"
    and settings: "inv s \<Longrightarrow> inv (snd (sm_GetMetricCheckLimits m s))"
      "inv s \<Longrightarrow> ltyped limits \<Longrightarrow> inv (snd (sm_UpdateMetricCheckLimits m limits s))"
      "inv s \<Longrightarrow> inv (snd (sm_GetScrapeTasksSchedule m s))" "inv s \<Longrightarrow> inv (snd (sm_UpdateScrapeTasksSchedule m expr s))"
begin

definition call_keeps :: "'s local_request \<Rightarrow> bool" where
  "call_keeps call \<longleftrightarrow> (\<forall>req params s. inv s \<longrightarrow> inv (snd (call req params s)))"

lemma snd_answer [simp]: "snd (answer f p) = snd p"
  by (simp add: answer_def split: prod.split)

lemma calls_keep:
  assumes "\<And>body. typed (snd (gr_decodeMetricItem rt body))" and "\<And>body. ltyped (snd (gr_decodeLimits rt body))"
  shows "call_keeps (local_request_TargetGroupsService_ListTargetGroups_0 rt m)"
    "call_keeps (local_request_TargetGroupsService_GetTargetGroup_0 rt m)"
    "call_keeps (local_request_TargetGroupsService_ListMetricWhitelist_0 rt m)"
    "call_keeps (local_request_TargetGroupsService_UpsertMetricWhitelist_0 rt m)"
    "call_keeps (local_request_TargetGroupsService_DeleteMetricWhitelist_0 rt m)"
    "call_keeps (local_request_TargetGroupsService_ListTargetWhitelist_0 rt m)"
    "call_keeps (local_request_TargetGroupsService_UpsertTargetWhitelist_0 rt m)"
    "call_keeps (local_request_TargetGroupsService_DeleteTargetWhitelist_0 rt m)"
    "call_keeps (local_request_TargetGroupsService_GetMetricCheckLimits_0 rt m)"
    "call_keeps (local_request_TargetGroupsService_UpdateMetricCheckLimits_0 rt m)"
    "call_keeps (local_request_TargetGroupsService_GetScrapeTasksSchedule_0 rt m)"
    "call_keeps (local_request_TargetGroupsService_UpdateScrapeTasksSchedule_0 rt m)"
proof -
  have "typed item" if "decode_body (gr_decodeMetricItem rt) req = Inr item" for req item
    using that assms(1) [of "rq_Body req"] by (auto simp: decode_body_def split: prod.splits option.splits if_splits)
  moreover have "ltyped limits" if "decode_body (gr_decodeLimits rt) req = Inr limits" for req limits
    using that assms(2) [of "rq_Body req"] by (auto simp: decode_body_def split: prod.splits option.splits if_splits)
  ultimately show "call_keeps (local_request_TargetGroupsService_UpdateMetricCheckLimits_0 rt m)"
    "call_keeps (local_request_TargetGroupsService_UpsertMetricWhitelist_0 rt m)"
    by (auto simp: call_keeps_def local_request_TargetGroupsService_UpdateMetricCheckLimits_0_def settings
        local_request_TargetGroupsService_UpsertMetricWhitelist_0_def metric_rules split: sum.splits)
qed (auto simp: call_keeps_def groups metric_rules target_rules settings
    local_request_TargetGroupsService_ListTargetGroups_0_def local_request_TargetGroupsService_GetTargetGroup_0_def
    local_request_TargetGroupsService_ListMetricWhitelist_0_def local_request_TargetGroupsService_DeleteMetricWhitelist_0_def
    local_request_TargetGroupsService_ListTargetWhitelist_0_def local_request_TargetGroupsService_UpsertTargetWhitelist_0_def
    local_request_TargetGroupsService_DeleteTargetWhitelist_0_def local_request_TargetGroupsService_GetMetricCheckLimits_0_def
    local_request_TargetGroupsService_GetScrapeTasksSchedule_0_def
    local_request_TargetGroupsService_UpdateScrapeTasksSchedule_0_def split: sum.splits)

lemma gw_handle_keeps: "call_keeps call \<Longrightarrow> inv s \<Longrightarrow> inv (snd (gw_handle rt annotate rpc template call req params s))"
  unfolding call_keeps_def gw_handle_def by (auto split: sum.splits prod.splits) (metis snd_conv)+

lemma gateway_keeps:
  assumes "mux_dispatches serve" and "\<And>body. typed (snd (gr_decodeMetricItem rt body))"
    and "\<And>body. ltyped (snd (gr_decodeLimits rt body))" and "inv s"
  shows "inv (snd (serve (RegisterTargetGroupsServiceHandlerServer rt m) req s))"
proof -
  have "inv (snd (re_handler r req' params s))" if "r \<in> set (RegisterTargetGroupsServiceHandlerServer rt m)" for r req' params
  proof -
    have "list_all (\<lambda>r. inv (snd (re_handler r req' params s))) (RegisterTargetGroupsServiceHandlerServer rt m)"
      using gw_handle_keeps [OF _ assms(4)] calls_keep [OF assms(2,3)]
      by (simp add: RegisterTargetGroupsServiceHandlerServer_def gw_route_def)
    with that show ?thesis by (simp add: list_all_iff)
  qed
  then show ?thesis
    using assms(1,4) unfolding mux_dispatches_def by (metis snd_conv)
qed

end

section \<open>The node keeps its invariant\<close>

text \<open>
  The whitelist tables are well formed and the producer is scheduled exactly under the current expression;
  \<open>server_kept\<close> adds what is kept of the key-value store, compared with \<open>m0\<close>.
\<close>

definition server_ok :: "(string \<Rightarrow> goerr option) \<Rightarrow> Server \<Rightarrow> bool" where
  "server_ok cronParse s \<longleftrightarrow> whitelists_ok (sv_db s) \<and> scheduler_ok cronParse (snd (sv_node s))"

definition server_kept :: "(string \<Rightarrow> goerr option) \<Rightarrow> (string \<rightharpoonup> string) \<Rightarrow> Server \<Rightarrow> bool" where
  "server_kept cronParse m0 s \<longleftrightarrow> server_ok cronParse s \<and> kv_kept cronParse m0 (kv (fst (sv_node s)))"

text \<open>The limits of a decoded message are 64-bit integers.\<close>

definition limits_typed :: "MetricCheckLimits option \<Rightarrow> bool" where
  "limits_typed limits \<longleftrightarrow> (case limits of None \<Rightarrow> True | Some p \<Rightarrow> limits_message_fits p)"

definition item_typed :: "MetricWhitelistItem option \<Rightarrow> bool" where
  "item_typed item \<longleftrightarrow> (case item of None \<Rightarrow> True
     | Some i \<Rightarrow> (case mwi_Checks i of None \<Rightarrow> True
         | Some c \<Rightarrow> int64_range (mwc_MetricNameLength c) \<and> int64_range (mwc_LabelNameLength c) \<and>
             int64_range (mwc_LabelValueLength c) \<and> int64_range (mwc_Cardinality c) \<and> int64_range (mwc_HistogramBuckets c)))"

lemma typed_rule: "item_typed (Some i) \<Longrightarrow> go_rule (requested i)"
proof -
  have put: "go_rule (r\<lparr>mwr_Checks := put_positive k v c\<rparr>)" if "go_rule (r\<lparr>mwr_Checks := c\<rparr>)" "int64_range v"
    for r :: MetricWhitelistRule and k v c
    using that by (auto simp: go_rule_def put_positive_def ran_def)
  have none: "go_rule (r\<lparr>mwr_Checks := Map.empty\<rparr>)" for r :: MetricWhitelistRule by (simp add: go_rule_def)
  have "go_rule ((requested i)\<lparr>mwr_Checks := fromMetricWhitelistChecks (mwi_Checks i)\<rparr>)" if "item_typed (Some i)"
    using that by (auto simp: item_typed_def fromMetricWhitelistChecks_def none intro!: put split: option.splits)
  then show "item_typed (Some i) \<Longrightarrow> go_rule (requested i)" by (simp add: requested_def)
qed

lemma server_kept_read [simp]: "server_kept cp m0 (snd (db_read links f s)) = server_kept cp m0 s"
  by (simp add: server_kept_def server_ok_def db_read_def)

lemma server_kept_write:
  "server_kept cp m0 s \<Longrightarrow> whitelists_ok (snd (f (links (sv_calls s)) (sv_db s))) \<Longrightarrow> server_kept cp m0 (snd (db_write links f s))"
  by (auto simp: server_kept_def server_ok_def db_write_def split: prod.splits)

lemma snd_internal [simp]: "snd (internal_on_error msg f p) = snd p"
  by (simp add: internal_on_error_def split: prod.split)

definition node_kept :: "(string \<Rightarrow> goerr option) \<Rightarrow> (string \<rightharpoonup> string) \<Rightarrow> Node \<Rightarrow> bool" where
  "node_kept cronParse m0 n \<longleftrightarrow> scheduler_ok cronParse (snd n) \<and> kv_kept cronParse m0 (kv (fst n))"

lemma server_kept_node:
  assumes "server_kept cp m0 s" and "node_kept cp m0 (sv_node s) \<Longrightarrow> node_kept cp m0 (snd (f (sv_node s)))"
  shows "server_kept cp m0 (snd (on_node f s))"
  using assms by (auto simp: server_kept_def server_ok_def node_kept_def on_node_def split: prod.splits)

lemma node_settings_keep:
  assumes svc_def: "svc = node_service cronParse gets puts dl dc" and ok: "node_kept cronParse m0 n"
  shows "node_kept cronParse m0 (snd (GetMetricLimits svc n))"
    and "LimitsConfig_fits limits \<Longrightarrow> node_kept cronParse m0 (snd (SetMetricLimits svc limits n))"
    and "node_kept cronParse m0 (snd (GetProduceTasksCronExpr cronParse svc n))"
    and "node_kept cronParse m0 (snd (SetProduceTasksCronExpr cronParse svc expr n))"
proof -
  have get: "kv (fst s') = kv (fst s) \<and> snd s' = snd s" if "kv_get (etcd_ops gets puts) k s = (r, s')" for k r and s s' :: Node
    using etcd.get_view [OF that] by simp
  show "node_kept cronParse m0 (snd (GetMetricLimits svc n))"
    using ok by (auto simp: node_kept_def svc_def GetMetricLimits_def split: prod.splits sum.splits dest!: get)
  show "node_kept cronParse m0 (snd (GetProduceTasksCronExpr cronParse svc n))"
    using ok by (auto simp: node_kept_def svc_def GetProduceTasksCronExpr_def split: prod.splits sum.splits dest!: get)
  show "node_kept cronParse m0 (snd (SetMetricLimits svc limits n))" if "LimitsConfig_fits limits"
  proof -
    obtain r n' where s: "SetMetricLimits svc limits n = (r, n')" by (meson surj_pair)
    have "snd n' = snd n"
      using s by (auto simp: svc_def SetMetricLimits_def split: prod.splits sum.splits dest!: etcd.put_rest)
    with SetMetricLimits_kept [OF s [unfolded svc_def] _ that] ok s show ?thesis by (simp add: node_kept_def)
  qed
  obtain r n' where s: "SetProduceTasksCronExpr cronParse svc expr n = (r, n')" by (meson surj_pair)
  have sch: "scheduler_ok cronParse (snd n)" using ok by (simp add: node_kept_def)
  have "scheduler_ok cronParse (snd n')"
    using s [unfolded svc_def] sch by (cases rule: SetCron_cases) (use sch in simp_all)
  with SetCron_kept [OF s [unfolded svc_def] sch] ok s
  show "node_kept cronParse m0 (snd (SetProduceTasksCronExpr cronParse svc expr n))" by (simp add: node_kept_def)
qed

interpretation api: service_invariant "service_server (server_service links collate cronParse (node_service cronParse gets puts dl dc))"
    "server_kept cronParse m0" item_typed limits_typed
  for links collate cronParse gets puts dl dc m0
proof unfold_locales
  let ?svc = "server_service links collate cronParse (node_service cronParse gets puts dl dc)"
  fix s assume ok: "server_kept cronParse m0 s"
  then have w: "whitelists_ok (sv_db s)" by (simp add: server_kept_def server_ok_def)
  have writes: "server_kept cronParse m0 (snd (db_write links f s))" if "\<And>lk. whitelists_ok (snd (f lk (sv_db s)))" for f
    using ok that by (rule server_kept_write)
  note reads = service_server_def server_service_def newTargetGroupsService_def pg_storage_def
  note node = node_settings_keep [OF refl, where cronParse = cronParse and gets = gets and puts = puts and dl = dl and dc = dc]
  note settings = reads node_settings_def server_kept_node [OF ok] node
  show "server_kept cronParse m0 (snd (sm_ListTargetGroups (service_server ?svc) team s))" for team
    using ok by (simp add: reads ListTargetGroups_rpc_def)
  show "server_kept cronParse m0 (snd (sm_GetTargetGroup (service_server ?svc) gid s))" for gid
  proof -
    obtain r s' where g: "as_GetTargetGroupByID (pg_storage links collate) gid s = (r, s')" by (meson surj_pair)
    have "server_kept cronParse m0 s'"
      using ok server_kept_read [of cronParse m0 links "\<lambda>lk. GetTargetGroupByID lk gid" s] g
      by (simp add: pg_storage_def del: server_kept_read)
    with ok g show ?thesis
      by (cases r) (simp_all add: service_server_def server_service_def newTargetGroupsService_def GetTargetGroup_rpc_def)
  qed
  show "server_kept cronParse m0 (snd (sm_ListMetricWhitelist (service_server ?svc) tg env s))" for tg env
    using ok by (simp add: reads ListMetricWhitelist_rpc_def)
  show "server_kept cronParse m0 (snd (sm_UpsertMetricWhitelist (service_server ?svc) item s))" if "item_typed item" for item
    using that ok UpsertMetricWhitelist_ok [OF w typed_rule]
    by (auto simp: reads UpsertMetricWhitelist_rpc_def Let_def requested_def intro!: writes split: option.splits)
  show "server_kept cronParse m0 (snd (sm_DeleteMetricWhitelist (service_server ?svc) tg env name s))" for tg env name
    using ok by (simp add: reads DeleteMetricWhitelist_rpc_def writes delete_ok [OF w])
  show "server_kept cronParse m0 (snd (sm_ListTargetWhitelist (service_server ?svc) tg env s))" for tg env
    using ok by (simp add: reads ListTargetWhitelist_rpc_def)
  show "server_kept cronParse m0 (snd (sm_UpsertTargetWhitelist (service_server ?svc) titem s))" for titem
    using ok by (simp add: reads UpsertTargetWhitelist_rpc_def Let_def writes UpsertTargetWhitelist_ok [OF w] split: option.splits)
  show "server_kept cronParse m0 (snd (sm_DeleteTargetWhitelist (service_server ?svc) tg env s))" for tg env
    using ok by (simp add: reads DeleteTargetWhitelist_rpc_def writes delete_ok [OF w])
  show "server_kept cronParse m0 (snd (sm_GetMetricCheckLimits (service_server ?svc) s))"
    by (simp add: settings GetMetricCheckLimits_rpc_def)
  show "server_kept cronParse m0 (snd (sm_GetScrapeTasksSchedule (service_server ?svc) s))"
    by (simp add: settings GetScrapeTasksSchedule_rpc_def)
  show "server_kept cronParse m0 (snd (sm_UpdateMetricCheckLimits (service_server ?svc) limits s))" if "limits_typed limits" for limits
  proof -
    have "LimitsConfig_fits l" if "fromProtoMetricCheckLimits limits = Inr l" for l
      using that \<open>limits_typed limits\<close> fromProtoMetricCheckLimits_Inr fromProtoMetricCheckLimits_ok
      by (cases limits) (fastforce simp: limits_typed_def fromProtoMetricCheckLimits_def)+
    then have "server_kept cronParse m0 (snd (on_node (SetMetricLimits (node_service cronParse gets puts dl dc) l) s))"
      if "fromProtoMetricCheckLimits limits = Inr l" for l
      using that by (simp add: settings)
    with ok show ?thesis
      by (auto simp: reads node_settings_def UpdateMetricCheckLimits_rpc_def split: sum.splits prod.splits)
  qed
  show "server_kept cronParse m0 (snd (sm_UpdateScrapeTasksSchedule (service_server ?svc) expr s))" for expr
  proof -
    have "server_kept cronParse m0 (snd (on_node (SetProduceTasksCronExpr cronParse (node_service cronParse gets puts dl dc) expr) s))"
      by (simp add: settings)
    with ok show ?thesis
      by (auto simp: reads node_settings_def UpdateScrapeTasksSchedule_rpc_def split: sum.splits prod.splits)
  qed
qed

section \<open>Requests, one after the other\<close>

fun serve_all :: "'s handler \<Rightarrow> Request list \<Rightarrow> 's \<Rightarrow> Response list \<times> 's" where
  "serve_all handler [] s = ([], s)"
| "serve_all handler (r # rs) s =
     (case handler r s of (resp, s) \<Rightarrow> case serve_all handler rs s of (resps, s) \<Rightarrow> (resp # resps, s))"

lemma serve_all_keeps:
  assumes "\<And>r s. P s \<Longrightarrow> P (snd (handler r s))" and "P s"
  shows "P (snd (serve_all handler rs s))"
  using assms(2)
proof (induction rs arbitrary: s)
  case (Cons r rs)
  obtain resp s1 where h: "handler r s = (resp, s1)" by (meson surj_pair)
  with assms(1) [OF Cons.prems, of r] have "P s1" by simp
  from Cons.IH [OF this] show ?case by (auto simp: h split: prod.split)
qed simp

lemma serve_all_length: "length (fst (serve_all handler rs s)) = length rs"
  by (induction handler rs s rule: serve_all.induct) (auto split: prod.splits)

lemma handler_keeps:
  assumes new: "NewHandler floatText slashStatus swaggerJSON (Some (jwks_verify rsaVerify envs))
      (on_backend gw) idp clientID = Inr handler"
    and gw: "\<And>r b. I b \<Longrightarrow> I (snd (gw r b))" and s: "verifier_ok (fst (fst s)) \<and> I (snd s)"
  shows "verifier_ok (fst (fst (snd (handler r s)))) \<and> I (snd (snd (handler r s)))"
proof -
  obtain pages where h: "handler = serveMux slashStatus (jwks_verify rsaVerify envs) (on_backend gw) pages"
    using new by (auto simp: NewHandler_def split: sum.splits)
  obtain resp s' where r: "handler r s = (resp, s')" by (meson surj_pair)
  from s have "verifier_ok (fst (fst s))" by simp
  from jwks.serveMux_guards [OF this r [unfolded h]] show ?thesis
  proof (elim disjE conjE exE)
    fix r' s1
    assume "on_backend gw r' s1 = (resp, s')" "verifier_ok (fst (fst s1))" "snd s1 = snd s"
    with s gw [of "snd s1" r'] show ?thesis by (auto simp: r on_backend_def split: prod.splits)
  qed (use s r in auto)
qed

text \<open>A multiplexer that runs the first route that matches, a library without failures, and a node with one rule.\<close>

definition first_match :: "'s route_entry list \<Rightarrow> 's handler" where
  "first_match routes req s =
     (case candidates routes req of [] \<Rightarrow> (http_NotFound, s)
      | r # _ \<Rightarrow> (case run_pattern (re_pattern r) (path_segments (rq_Path req)) of
          None \<Rightarrow> (http_NotFound, s) | Some params \<Rightarrow> re_handler r req params s))"

lemma first_match_ok: "mux_dispatches (first_match :: 's route_entry list \<Rightarrow> 's handler)" "mux_routes first_match"
proof -
  have "set (candidates routes req) \<subseteq> set routes" for routes :: "'s route_entry list" and req
    by (simp add: candidates_def)
  then have "r \<in> set routes" if "candidates routes req = r # rs" for routes and req and r :: "'s route_entry" and rs
    using that by (metis list.set_intros(1) subsetD)
  note member = this
  show "mux_dispatches (first_match :: 's route_entry list \<Rightarrow> 's handler)"
    unfolding mux_dispatches_def
  proof (intro allI)
    fix routes :: "'s route_entry list" and req and s :: 's
    show "(\<exists>resp. first_match routes req s = (resp, s)) \<or>
        (\<exists>r \<in> set routes. \<exists>req' params. first_match routes req s = re_handler r req' params s)"
    proof (cases "candidates routes req")
      case (Cons r rs)
      show ?thesis
        by (cases "run_pattern (re_pattern r) (path_segments (rq_Path req))") (use Cons member [OF Cons] in \<open>auto simp: first_match_def\<close>)
    qed (simp add: first_match_def)
  qed
  show "mux_routes first_match" by (simp add: mux_routes_def first_match_def)
qed

definition sample_runtime :: gw_runtime where
  "sample_runtime =
     \<lparr>gr_parseForm = (\<lambda>_. Inr (\<lambda>_. [])), gr_populate = (\<lambda>_ _. Inr (\<lambda>_. [])),
      gr_int64 = (\<lambda>_. Inl (ErrNew ''invalid syntax'')), gr_string = Inr,
      gr_decodeMetricItem = (\<lambda>_. (Some io_EOF, None)), gr_decodeTargetItem = (\<lambda>_. (Some io_EOF, None)),
      gr_decodeLimits = (\<lambda>_. (Some io_EOF, None)), gr_decodeSchedule = (\<lambda>_. (Some io_EOF, [])),
      gr_annotateIncoming = (\<lambda>_ _ _. Inr ()), gr_annotate = (\<lambda>_ _ _. Inr ()),
      gr_HTTPError = (\<lambda>_ _. http_NotFound),
      gr_ForwardResponseMessage = (\<lambda>_ _. \<lparr>resp_status = 200, resp_contentType = [], resp_location = [], resp_body = ''{}''\<rparr>)\<rparr>"

definition sample_backend :: "Server handler" where
  "sample_backend = gateway sample_runtime first_match
     (server_service (\<lambda>_. good_link) (\<lambda>s. s) sample_parse (node_service sample_parse (\<lambda>_. None) (\<lambda>_. PutDone) sample_limits ''@hourly''))"

definition sample_http :: "Server Front handler" where
  "sample_http = serveMux 307 (jwks_verify sample_rsa (\<lambda>_. sample_jwt_env)) (on_backend sample_backend)
     \<lparr>pg_spec = ''{}'', pg_page = renderSwaggerPageHTML []\<rparr>"

lemma sample_http_new:
  "NewHandler (\<lambda>_. None) 307 ''{}'' (Some (jwks_verify sample_rsa (\<lambda>_. sample_jwt_env)))
     (on_backend sample_backend) [] [] = Inr sample_http"
  by (simp add: NewHandler_def decorateSwaggerSpecWithSSO_def sample_http_def TrimSpace_def TrimLeft_def TrimRight_def)

definition sample_delete :: Request where
  "sample_delete = \<lparr>rq_Method = ''DELETE'', rq_Path = ''/api/v1/whitelist/metrics/group/prod/metric'', rq_RawQuery = [],
     rq_Authorization = ''Bearer '' @ sample_token, rq_Body = [], rq_ctx = Background\<rparr>"

definition sample_http_server :: Server where
  "sample_http_server = \<lparr>sv_db = sample_rules_db, sv_calls = 0, sv_node = sample_node\<rparr>"

text \<open>
  C16. No sequence of HTTP requests can damage the node, whoever sends them and whatever the driver,
  etcd, the key server and the gateway's library do: starting from a sound node, after any requests the
  whitelist tables are well formed, the producer's task is scheduled exactly under the current
  expression, and the token verifier is in order; of the key-value store only the two settings can have
  changed, no key is gone, and limits or a cron expression that were stored valid are still valid.
\<close>

theorem http_requests_keep_server:
  assumes "NewHandler floatText slashStatus swaggerJSON (Some (jwks_verify rsaVerify envs))
      (on_backend (gateway rt serve (server_service links collate cronParse (node_service cronParse gets puts dl dc))))
      idp clientID = Inr handler"
    and "mux_dispatches serve" and "\<And>body. item_typed (snd (gr_decodeMetricItem rt body))"
    and "\<And>body. limits_typed (snd (gr_decodeLimits rt body))"
    and "verifier_ok v" and "server_ok cronParse b"
    and "serve_all handler requests ((v, n), b) = (resps, ((v', n'), b'))"
  shows "verifier_ok v' \<and> server_ok cronParse b' \<and> length resps = length requests \<and>
    kv_kept cronParse (kv (fst (sv_node b))) (kv (fst (sv_node b')))"
proof -
  let ?I = "server_kept cronParse (kv (fst (sv_node b)))"
  let ?P = "\<lambda>s. verifier_ok (fst (fst s)) \<and> ?I (snd s)"
  have "?P (snd (serve_all handler requests ((v, n), b)))"
  proof (rule serve_all_keeps [where P = ?P])
    show "?P (snd (handler r s))" if "?P s" for r s
      by (rule handler_keeps [where I = ?I, OF assms(1) _ that]) (simp add: gateway_def api.gateway_keeps assms(2,3,4))
  qed (use assms(5,6) in \<open>simp add: server_kept_def\<close>)
  with serve_all_length [of handler requests "((v, n), b)"] show ?thesis using assms(7) by (simp add: server_kept_def)
qed

theorem http_requests_keep_server_witness:
  "\<exists>resps v' n' b'. serve_all sample_http [sample_delete, sample_delete] ((sample_verifier, 0), sample_http_server) = (resps, ((v', n'), b')) \<and>
     server_ok sample_parse b' \<and> length resps = 2 \<and> cron_stored_ok sample_parse (kv (fst (sv_node b')))"
proof -
  obtain resps v' n' b' where r: "serve_all sample_http [sample_delete, sample_delete] ((sample_verifier, 0), sample_http_server) =
      (resps, ((v', n'), b'))"
    by (metis surj_pair)
  have ok: "server_ok sample_parse sample_http_server"
    by (simp add: server_ok_def sample_http_server_def sample_rules_ok sample_node_def sample_scheduler_ok)
  have "TrimSpace '' @hourly '' = ''@hourly''" by code_simp
  then have "cron_stored_ok sample_parse (kv (fst (sv_node sample_http_server)))"
    by (simp add: cron_stored_ok_def sample_http_server_def sample_node_def normalizeAndValidateCronExpr_def sample_parse_def)
  with http_requests_keep_server [OF sample_http_new [unfolded sample_backend_def] first_match_ok(1) _ _ sample_verifier_ok(1) ok r] r
  show ?thesis by (simp add: sample_runtime_def item_typed_def limits_typed_def kv_kept_def)
qed

section \<open>Deleting a rule\<close>

text \<open>A name that can stand as a segment of a path.\<close>

definition segment_name :: "string \<Rightarrow> bool" where
  "segment_name x \<longleftrightarrow> x \<noteq> [] \<and> x \<noteq> ''.'' \<and> x \<noteq> ''..'' \<and> set x \<inter> {CHR ''/'', CHR '':'', CHR ''%''} = {}"

definition rule_path :: "string \<Rightarrow> string \<Rightarrow> string \<Rightarrow> string" where
  "rule_path g e m = ''/api/v1/whitelist/metrics/'' @ g @ ''/'' @ e @ ''/'' @ m"

lemma rule_path_segments:
  assumes "segment_name g" and "segment_name e" and "segment_name m"
  shows "path_segments (rule_path g e m) = [''api'', ''v1'', ''whitelist'', ''metrics'', g, e, m]"
    and "cleanPath (rule_path g e m) = rule_path g e m" and "plain_path (rule_path g e m)"
    and "mux_match (rule_path g e m) = Some ApiRoute"
proof -
  have split: "Split CHR ''/'' (g @ CHR ''/'' # e @ CHR ''/'' # m) = [g, e, m]"
    using assms by (simp add: segment_name_def Split_at Split_plain)
  then show segs: "path_segments (rule_path g e m) = [''api'', ''v1'', ''whitelist'', ''metrics'', g, e, m]"
    by (simp add: path_segments_def rule_path_def)
  have "last m \<noteq> CHR ''/''" using assms(3) last_in_set [of m] by (metis IntI empty_iff insertCI segment_name_def)
  with split assms show "cleanPath (rule_path g e m) = rule_path g e m"
    by (simp add: cleanPath_def rule_path_def segment_name_def)
  show "plain_path (rule_path g e m)" using assms by (auto simp: plain_path_def rule_path_def segment_name_def)
  show "mux_match (rule_path g e m) = Some ApiRoute" by (simp add: mux_match_def rule_path_def)
qed

lemma delete_candidates:
  assumes "segment_name g" and "segment_name e" and "segment_name m"
    and "rq_Method req = ''DELETE''" and "rq_Path req = rule_path g e m"
    and route_def: "route = gw_route rt (gr_annotateIncoming rt) ''DELETE'' pattern_TargetGroupsService_DeleteMetricWhitelist_0
      ''DeleteMetricWhitelist'' ''/api/v1/whitelist/metrics/{target_group}/{env}/{metric_name}''
      (local_request_TargetGroupsService_DeleteMetricWhitelist_0 rt server)"
  shows "candidates (RegisterTargetGroupsServiceHandlerServer rt server) req = [route]"
    and "run_pattern (re_pattern route) (path_segments (rq_Path req)) =
      Some [''target_group'' \<mapsto> g, ''env'' \<mapsto> e, ''metric_name'' \<mapsto> m]"
proof -
  have segs: "path_segments (rq_Path req) = [''api'', ''v1'', ''whitelist'', ''metrics'', g, e, m]"
    using rule_path_segments(1) [OF assms(1-3)] assms(5) by simp
  have run: "list_all (\<lambda>r. run_pattern (re_pattern r) (path_segments (rq_Path req)) = template_match (re_template r) (path_segments (rq_Path req)))
      (RegisterTargetGroupsServiceHandlerServer rt server)"
    by (rule routes_run)
  then have cand: "candidates (RegisterTargetGroupsServiceHandlerServer rt server) req =
      routed (RegisterTargetGroupsServiceHandlerServer rt server) ''DELETE'' (path_segments (rq_Path req))"
    using assms(4) unfolding candidates_def routed_def by (intro filter_cong) (auto simp: list_all_iff)
  show "candidates (RegisterTargetGroupsServiceHandlerServer rt server) req = [route]"
    unfolding cand segs by (simp add: routed_def RegisterTargetGroupsServiceHandlerServer_def gw_route_def template_match_def path_segments_def
        is_var_def route_def)
  show "run_pattern (re_pattern route) (path_segments (rq_Path req)) =
      Some [''target_group'' \<mapsto> g, ''env'' \<mapsto> e, ''metric_name'' \<mapsto> m]"
    unfolding segs by (simp add: run_pattern_def route_def gw_route_def patterns NewPattern_def)
qed

text \<open>
  C17. An authorized \<open>DELETE\<close> of the path of a rule deletes exactly that rule: with a token the verifier
  accepts, a database that answers, and names that can stand in a path, the answer is the empty
  message and the rule's row is gone, while nothing else in the database or the settings changes.
\<close>

theorem delete_rule_over_http:
  assumes "NewHandler floatText slashStatus swaggerJSON (Some (jwks_verify rsaVerify envs))
      (on_backend (gateway rt serve (server_service links collate cronParse svc))) idp clientID = Inr handler"
    and "mux_routes serve" and "\<And>x. gr_string rt x = Inr x" and "\<And>rpc t r. gr_annotateIncoming rt rpc t r = Inr ()"
    and "segment_name g" and "segment_name e" and "segment_name m"
    and "rq_Method req = ''DELETE''" and "rq_Path req = rule_path g e m"
    and "extractBearerToken (rq_Authorization req) = Inr token"
    and "ParseAndValidate rsaVerify (envs n) v token = (Inr claims, v')"
    and "links (sv_calls b) = good_link"
  shows "case handler req ((v, n), b) of (resp, ((v'', n''), b')) \<Rightarrow>
    resp = gr_ForwardResponseMessage rt (req\<lparr>rq_ctx := WithClaims (rq_ctx req) (Some claims)\<rparr>) Empty \<and> v'' = v' \<and>
    sv_node b' = sv_node b \<and>
    sv_db b' = (sv_db b)\<lparr>db_metrics_whitelist := filter (\<lambda>r. mw_key r \<noteq> (g, e, m)) (db_metrics_whitelist (sv_db b))\<rparr>"
proof -
  let ?svc = "server_service links collate cronParse svc"
  let ?req = "req\<lparr>rq_ctx := WithClaims (rq_ctx req) (Some claims)\<rparr>"
  let ?routes = "RegisterTargetGroupsServiceHandlerServer rt (service_server ?svc)"
  let ?call = "local_request_TargetGroupsService_DeleteMetricWhitelist_0 rt (service_server ?svc)"
  obtain pages where h: "handler = serveMux slashStatus (jwks_verify rsaVerify envs) (on_backend (gateway rt serve ?svc)) pages"
    using assms(1) by (auto simp: NewHandler_def split: sum.splits)
  note path = rule_path_segments [OF assms(5-7)]
  have "rq_Method ?req = ''DELETE''" "rq_Path ?req = rule_path g e m" using assms(8,9) by simp_all
  note route = delete_candidates [OF assms(5-7) this refl, of rt "service_server ?svc"]
  have "gateway rt serve ?svc ?req b =
      gw_handle rt (gr_annotateIncoming rt) (serviceName @ ''DeleteMetricWhitelist'')
        ''/api/v1/whitelist/metrics/{target_group}/{env}/{metric_name}'' ?call ?req
        [''target_group'' \<mapsto> g, ''env'' \<mapsto> e, ''metric_name'' \<mapsto> m] b"
    unfolding gateway_def by (subst mux_routesD [OF assms(2) _ _ route]) (use assms(8,9) path(3) in \<open>simp_all add: gw_route_def\<close>)
  also have "\<dots> = (gr_ForwardResponseMessage rt ?req Empty,
      b\<lparr>sv_db := (sv_db b)\<lparr>db_metrics_whitelist := filter (\<lambda>r. mw_key r \<noteq> (g, e, m)) (db_metrics_whitelist (sv_db b))\<rparr>,
        sv_calls := Suc (sv_calls b)\<rparr>)"
    using assms(3,4,5-7,12)
    by (simp add: gw_handle_def local_request_TargetGroupsService_DeleteMetricWhitelist_0_def path_param_def answer_def
        service_server_def DeleteMetricWhitelist_rpc_def segment_name_def server_service_def newTargetGroupsService_def
        pg_storage_def db_write_def DeleteMetricWhitelist_def internal_on_error_def)
  finally have gw: "gateway rt serve ?svc ?req b = \<dots>" .
  have "rule_path g e m \<noteq> ''/api/v1''" by (simp add: rule_path_def)
  with path(2,4) assms(8-11) gw show ?thesis
    by (simp add: h serveMux_def Let_def serveRoute_def authMiddleware_def jwks_verify_def on_backend_def)
qed

theorem delete_rule_over_http_witness:
  "\<exists>resp v' n' b'. sample_http sample_delete ((sample_verifier, 0), sample_http_server) = (resp, ((v', n'), b')) \<and>
     resp_status resp = 200 \<and> (''group'', ''prod'', ''metric'') \<notin> mw_key ` set (db_metrics_whitelist (sv_db b'))"
proof -
  obtain resp v' n' b' where r: "sample_http sample_delete ((sample_verifier, 0), sample_http_server) = (resp, ((v', n'), b'))"
    by (metis surj_pair)
  have bearer: "extractBearerToken (rq_Authorization sample_delete) = Inr sample_token"
    unfolding sample_delete_def by code_simp
  have token: "ParseAndValidate sample_rsa sample_jwt_env sample_verifier sample_token = (Inr sample_claims, sample_verifier)"
    unfolding sample_token_def by (rule sample_accepted)
  have names: "segment_name ''group''" "segment_name ''prod''" "segment_name ''metric''"
    by (simp_all add: segment_name_def)
  have "case sample_http sample_delete ((sample_verifier, 0), sample_http_server) of (resp, ((v'', n''), b')) \<Rightarrow>
    resp = gr_ForwardResponseMessage sample_runtime
      (sample_delete\<lparr>rq_ctx := WithClaims (rq_ctx sample_delete) (Some sample_claims)\<rparr>) Empty \<and> v'' = sample_verifier \<and>
    sv_node b' = sv_node sample_http_server \<and>
    sv_db b' = (sv_db sample_http_server)\<lparr>db_metrics_whitelist :=
      filter (\<lambda>r. mw_key r \<noteq> (''group'', ''prod'', ''metric'')) (db_metrics_whitelist (sv_db sample_http_server))\<rparr>"
    by (rule delete_rule_over_http [OF sample_http_new [unfolded sample_backend_def] first_match_ok(2) _ _ names _ _ bearer token])
      (simp_all add: sample_runtime_def sample_delete_def rule_path_def)
  then show ?thesis
    using r by (auto simp: sample_runtime_def)
qed

end
