(* ===== verification/Gen_Doc.thy ===== *)
theory Gen_Doc
  imports Json "HOL-Library.AList" "HOL-Library.Multiset"
begin

text \<open>
  The documentation generator (\<open>gen_doc.go\<close>), a program of its own: it parses the Go files of the
  repository and writes a table of their declarations and a PlantUML diagram.

  The parser of \<open>go/parser\<close> is the argument \<open>parseFile\<close>; the syntax trees are the data types below, as
  far as the program looks at them. The directory tree is a value. A Go map is the list of its
  entries; where the program ranges over one, the order is an argument, since Go leaves it open. The
  spreadsheet is the map of its cells, the diagram the list of its lines; that they are written to
  files is not modelled.
\<close>

section \<open>Syntax trees\<close>

datatype expr = Ident string | StarExpr expr | ArrayType expr | SelectorExpr expr string | FuncType | OtherExpr

type_synonym comment_group = "string list"

record Field =
  fd_Doc :: "comment_group option"
  fd_Names :: "string list"
  fd_Type :: expr
  fd_Comment :: "comment_group option"

datatype type_expr = StructType "Field list" | InterfaceType "Field list" | OtherType

datatype spec = TypeSpec string type_expr | OtherSpec

text \<open>A function has no receiver, or the types of its receiver list, which the parser may leave empty.\<close>

datatype decl = GenDecl "comment_group option" "spec list" | FuncDecl "comment_group option" "expr list option" string | OtherDecl

record File =
  file_Name :: string
  file_Decls :: "decl list"

type_synonym packages = "(string \<times> (string \<times> File) list) list"

section \<open>Collecting the files\<close>

definition HasSuffix :: "string \<Rightarrow> string \<Rightarrow> bool" where
  "HasSuffix s suf \<longleftrightarrow> length suf \<le> length s \<and> drop (length s - length suf) s = suf"

definition TrimPrefix :: "string \<Rightarrow> string \<Rightarrow> string" where
  "TrimPrefix s pre = (if take (length pre) s = pre then drop (length pre) s else s)"

fun Contains :: "string \<Rightarrow> string \<Rightarrow> bool" where
  "Contains [] sub \<longleftrightarrow> sub = []"
| "Contains (c # s) sub \<longleftrightarrow> take (length sub) (c # s) = sub \<or> Contains s sub"

text \<open>
  What \<open>filepath.Walk\<close> finds, in its order: a file, a directory with what is in it, a directory that cannot
  be read, or an entry whose status cannot be had.
\<close>

datatype entry = FileEntry string | DirEntry string "entry list" | ClosedDir string | BadEntry string

fun addFile :: "string \<Rightarrow> string \<Rightarrow> File \<Rightarrow> packages \<Rightarrow> packages" where
  "addFile pkgName path file [] = [(pkgName, [(path, file)])]"
| "addFile pkgName path file ((n, files) # pkgs) =
     (if n = pkgName then (n, AList.update path file files) # pkgs else (n, files) # addFile pkgName path file pkgs)"

definition skipped_dir :: "string \<Rightarrow> bool" where
  "skipped_dir path \<longleftrightarrow> Contains path ''vendor'' \<or> Contains path ''.git'' \<or> Contains path ''proto''"

text \<open>The callback after the check for directories.\<close>

definition visitPath :: "(string \<Rightarrow> File option) \<Rightarrow> string \<Rightarrow> packages \<Rightarrow> packages" where
  "visitPath parseFile path pkgs =
     (if \<not> HasSuffix path ''.go'' \<or> HasSuffix path ''_test.go'' then pkgs
      else case parseFile path of None \<Rightarrow> pkgs | Some file \<Rightarrow> addFile (file_Name file) path file pkgs)"

fun walkEntry :: "(string \<Rightarrow> File option) \<Rightarrow> entry \<Rightarrow> packages \<Rightarrow> packages" where
  "walkEntry parseFile (FileEntry path) pkgs = visitPath parseFile path pkgs"
| "walkEntry parseFile (DirEntry path entries) pkgs =
     (if skipped_dir path then pkgs
      else fold (walkEntry parseFile) entries (visitPath parseFile path pkgs))"
| "walkEntry parseFile (ClosedDir path) pkgs = pkgs"
| "walkEntry parseFile (BadEntry path) pkgs = pkgs"

definition parseAll :: "(string \<Rightarrow> File option) \<Rightarrow> entry \<Rightarrow> packages" where
  "parseAll parseFile root = walkEntry parseFile root []"

section \<open>Names, types and comments\<close>

text \<open>\<open>upper\<close> decides for names that begin with a character outside ASCII.\<close>

definition IsExported :: "(string \<Rightarrow> bool) \<Rightarrow> string \<Rightarrow> bool" where
  "IsExported upper name =
     (case name of [] \<Rightarrow> False
      | c # _ \<Rightarrow> if (of_char c :: nat) < 128 then 65 \<le> (of_char c :: nat) \<and> (of_char c :: nat) \<le> 90 else upper name)"

definition visibility :: "(string \<Rightarrow> bool) \<Rightarrow> string \<Rightarrow> string" where
  "visibility upper name = (if IsExported upper name then ''public'' else ''private'')"

definition umlVis :: "(string \<Rightarrow> bool) \<Rightarrow> string \<Rightarrow> string" where
  "umlVis upper name = (if IsExported upper name then ''+'' else ''-'')"

definition getDoc :: "comment_group option \<Rightarrow> string" where
  "getDoc doc = (case doc of None \<Rightarrow> [] | Some cs \<Rightarrow> join '' '' (map (\<lambda>c. TrimSpace (TrimPrefix c ''//'')) cs))"

fun exprToString :: "expr \<Rightarrow> string" where
  "exprToString (Ident name) = name"
| "exprToString (StarExpr x) = ''*'' @ exprToString x"
| "exprToString (ArrayType elt) = ''[]'' @ exprToString elt"
| "exprToString (SelectorExpr x sel) = exprToString x @ ''.'' @ sel"
| "exprToString FuncType = ''func(...)''"
| "exprToString OtherExpr = ''complex''"

definition cleanType :: "string \<Rightarrow> string" where
  "cleanType t =
     (let t = TrimPrefix t ''*''; t = TrimPrefix t ''[]'' in
      if Contains t ''.'' then last (Split CHR ''.'' t) else t)"

definition implements :: "string list \<Rightarrow> string list \<Rightarrow> bool" where
  "implements structMethods ifaceMethods \<longleftrightarrow> list_all (\<lambda>m. m \<in> set structMethods) ifaceMethods \<and> length ifaceMethods > 0"

text \<open>
  The two outer loops range over the packages and over the files of each; what they visit, in an order
  that Go leaves open, is a list of files. \<open>package_files\<close> is the order of the entries.
\<close>

definition package_files :: "packages \<Rightarrow> File list" where
  "package_files pkgs = concat (map (\<lambda>(_, files). map snd files) pkgs)"

definition all_decls :: "File list \<Rightarrow> decl list" where
  "all_decls files = concat (map file_Decls files)"

text \<open>\<open>fn.Recv.List[0].Type\<close>, which panics on an empty list: no result.\<close>

definition receiver :: "expr list \<Rightarrow> string option" where
  "receiver recv = (case recv of [] \<Rightarrow> None | ty # _ \<Rightarrow> Some (cleanType (exprToString ty)))"

section \<open>The table\<close>

type_synonym sheet = "nat \<times> nat \<Rightarrow> string option"

text \<open>The state of the loops: the cells, and the row to write next.\<close>

type_synonym excel = "sheet \<times> nat"

fun setCells :: "nat \<Rightarrow> nat \<Rightarrow> string list \<Rightarrow> sheet \<Rightarrow> sheet" where
  "setCells col row [] sheet = sheet"
| "setCells col row (v # vs) sheet = setCells (Suc col) row vs (sheet((col, row) \<mapsto> v))"

definition writeRow :: "string \<Rightarrow> string \<Rightarrow> string \<Rightarrow> string \<Rightarrow> string \<Rightarrow> string \<Rightarrow> excel \<Rightarrow> excel" where
  "writeRow entity kind field typ vis desc = (\<lambda>(sheet, row). (setCells 1 row [entity, kind, field, typ, vis, desc] sheet, Suc row))"

definition excelField :: "(string \<Rightarrow> bool) \<Rightarrow> string \<Rightarrow> Field \<Rightarrow> excel \<Rightarrow> excel" where
  "excelField upper entity field st =
     (let fieldDesc = getDoc (fd_Doc field);
          fieldDesc = (if fieldDesc = [] then getDoc (fd_Comment field) else fieldDesc);
          fieldType = exprToString (fd_Type field)
      in fold (\<lambda>name. writeRow entity ''field'' name fieldType (visibility upper name) fieldDesc) (fd_Names field) st)"

definition excelMethod :: "(string \<Rightarrow> bool) \<Rightarrow> string \<Rightarrow> Field \<Rightarrow> excel \<Rightarrow> excel" where
  "excelMethod upper entity m st =
     (let methodType = exprToString (fd_Type m)
      in fold (\<lambda>name. writeRow entity ''method'' name methodType (visibility upper name) []) (fd_Names m) st)"

definition excelSpec :: "(string \<Rightarrow> bool) \<Rightarrow> comment_group option \<Rightarrow> spec \<Rightarrow> excel \<Rightarrow> excel" where
  "excelSpec upper doc sp st =
     (case sp of
        OtherSpec \<Rightarrow> st
      | TypeSpec name ty \<Rightarrow>
          (let desc = getDoc doc in
           case ty of
             StructType fs \<Rightarrow>
               fold (excelField upper name) fs (writeRow name ''struct'' [] [] (visibility upper name) desc st)
           | InterfaceType methods \<Rightarrow>
               fold (excelMethod upper name) methods (writeRow name ''interface'' [] [] (visibility upper name) desc st)
           | OtherType \<Rightarrow> st))"

definition excelDecl :: "(string \<Rightarrow> bool) \<Rightarrow> decl \<Rightarrow> excel \<Rightarrow> excel option" where
  "excelDecl upper d st =
     (case d of
        GenDecl doc specs \<Rightarrow> Some (fold (excelSpec upper doc) specs st)
      | FuncDecl doc fnRecv name \<Rightarrow>
          (let desc = getDoc doc in
           case fnRecv of
             Some tys \<Rightarrow>
               (case receiver tys of
                  None \<Rightarrow> None
                | Some recv \<Rightarrow> Some (writeRow recv ''method'' name [] (visibility upper name) desc st))
           | None \<Rightarrow> Some (writeRow name ''func'' [] [] (visibility upper name) desc st))
      | OtherDecl \<Rightarrow> Some st)"

fun excelDecls :: "(string \<Rightarrow> bool) \<Rightarrow> decl list \<Rightarrow> excel \<Rightarrow> excel option" where
  "excelDecls upper [] st = Some st"
| "excelDecls upper (d # ds) st = (case excelDecl upper d st of None \<Rightarrow> None | Some st \<Rightarrow> excelDecls upper ds st)"

definition headers :: "string list" where
  "headers = [''Entity'', ''Kind'', ''Field'', ''Type'', ''Visibility'', ''Description'']"

definition generateExcel :: "(string \<Rightarrow> bool) \<Rightarrow> File list \<Rightarrow> sheet option" where
  "generateExcel upper files = map_option fst (excelDecls upper (all_decls files) (setCells 1 1 headers Map.empty, 2))"

section \<open>The diagram\<close>

text \<open>A line of the diagram, and its text.\<close>

datatype line = Startuml | Skinparam string string | ClassOpen string | InterfaceOpen string
  | FieldLine string string string | MethodLine string string | Close
  | Association string string | Realization string string | Enduml

fun line_text :: "line \<Rightarrow> string" where
  "line_text Startuml = ''@startuml''"
| "line_text (Skinparam k v) = ''skinparam '' @ k @ '' '' @ v"
| "line_text (ClassOpen n) = ''class '' @ n @ '' {''"
| "line_text (InterfaceOpen n) = ''interface '' @ n @ '' {''"
| "line_text (FieldLine vis n t) = ''  '' @ vis @ '' '' @ n @ '' '' @ t"
| "line_text (MethodLine vis n) = ''  '' @ vis @ '' '' @ n @ ''()''"
| "line_text Close = ''}''"
| "line_text (Association a b) = a @ '' --> '' @ b"
| "line_text (Realization a b) = a @ '' ..|> '' @ b"
| "line_text Enduml = ''@enduml''"

text \<open>What the first pass collects.\<close>

type_synonym names = "(string \<times> string list) list"

record uml =
  structs :: "string set"
  interfaces :: names
  structMethods :: names

text \<open>\<open>m[k] = append(m[k], v)\<close>, and \<open>m[k]\<close>.\<close>

fun appendTo :: "string \<Rightarrow> string \<Rightarrow> names \<Rightarrow> names" where
  "appendTo k v [] = [(k, [v])]"
| "appendTo k v ((k', vs) # m) = (if k' = k then (k, vs @ [v]) # m else (k', vs) # appendTo k v m)"

definition names_at :: "names \<Rightarrow> string \<Rightarrow> string list" where
  "names_at m k = (case map_of m k of None \<Rightarrow> [] | Some vs \<Rightarrow> vs)"

definition collectSpec :: "spec \<Rightarrow> uml \<Rightarrow> uml" where
  "collectSpec sp u =
     (case sp of
        OtherSpec \<Rightarrow> u
      | TypeSpec name ty \<Rightarrow>
          (case ty of
             StructType fs \<Rightarrow> u\<lparr>structs := insert name (structs u)\<rparr>
           | InterfaceType ms \<Rightarrow>
               fold (\<lambda>m. fold (\<lambda>n u. u\<lparr>interfaces := appendTo name n (interfaces u)\<rparr>) (fd_Names m)) ms u
           | OtherType \<Rightarrow> u))"

definition collectDecl :: "decl \<Rightarrow> uml \<Rightarrow> uml option" where
  "collectDecl d u =
     (case d of
        GenDecl doc specs \<Rightarrow> Some (fold collectSpec specs u)
      | FuncDecl doc fnRecv name \<Rightarrow>
          (case fnRecv of
             None \<Rightarrow> Some u
           | Some tys \<Rightarrow>
               (case receiver tys of
                  None \<Rightarrow> None
                | Some recv \<Rightarrow> Some (u\<lparr>structMethods := appendTo recv name (structMethods u)\<rparr>)))
      | OtherDecl \<Rightarrow> Some u)"

fun collectDecls :: "decl list \<Rightarrow> uml \<Rightarrow> uml option" where
  "collectDecls [] u = Some u"
| "collectDecls (d # ds) u = (case collectDecl d u of None \<Rightarrow> None | Some u \<Rightarrow> collectDecls ds u)"

text \<open>The second pass draws the types, the third the associations.\<close>

definition decl_specs :: "decl \<Rightarrow> spec list" where
  "decl_specs d = (case d of GenDecl doc specs \<Rightarrow> specs | _ \<Rightarrow> [])"

definition classLines :: "(string \<Rightarrow> bool) \<Rightarrow> uml \<Rightarrow> spec \<Rightarrow> line list" where
  "classLines upper u sp =
     (case sp of
        OtherSpec \<Rightarrow> []
      | TypeSpec name ty \<Rightarrow>
          (case ty of
             StructType fs \<Rightarrow>
               ClassOpen name #
               concat (map (\<lambda>f. map (\<lambda>n. FieldLine (umlVis upper n) n (exprToString (fd_Type f))) (fd_Names f)) fs) @
               map (\<lambda>m. MethodLine (umlVis upper m) m) (names_at (structMethods u) name) @ [Close]
           | InterfaceType ms \<Rightarrow>
               InterfaceOpen name #
               concat (map (\<lambda>m. map (\<lambda>n. MethodLine (umlVis upper n) n) (fd_Names m)) ms) @ [Close]
           | OtherType \<Rightarrow> []))"

definition associationLines :: "uml \<Rightarrow> spec \<Rightarrow> line list" where
  "associationLines u sp =
     (case sp of
        TypeSpec name (StructType fs) \<Rightarrow>
          concat (map (\<lambda>f. let t = cleanType (exprToString (fd_Type f))
                           in if t \<in> structs u then [Association name t] else []) fs)
      | _ \<Rightarrow> [])"

definition realizationLines :: "(names \<Rightarrow> names) \<Rightarrow> (string \<Rightarrow> names \<Rightarrow> names) \<Rightarrow> uml \<Rightarrow> line list" where
  "realizationLines rangeM rangeI u =
     concat (map (\<lambda>(s, methods).
       concat (map (\<lambda>(iface, ifaceMethods). if implements methods ifaceMethods then [Realization s iface] else [])
                   (rangeI s (interfaces u))))
       (rangeM (structMethods u)))"

text \<open>
  The three passes visit the files in the orders \<open>f0\<close>, \<open>f1\<close> and \<open>f2\<close>; \<open>rangeM\<close> orders the types with methods
  and \<open>rangeI\<close> the interfaces, anew for each of those types.
\<close>

definition generatePlantUML ::
  "(string \<Rightarrow> bool) \<Rightarrow> (names \<Rightarrow> names) \<Rightarrow> (string \<Rightarrow> names \<Rightarrow> names) \<Rightarrow> File list \<Rightarrow> File list \<Rightarrow> File list \<Rightarrow> line list option" where
  "generatePlantUML upper rangeM rangeI f0 f1 f2 =
     (case collectDecls (all_decls f0) \<lparr>structs = {}, interfaces = [], structMethods = []\<rparr> of
        None \<Rightarrow> None
      | Some u \<Rightarrow> Some
          ([Startuml, Skinparam ''classAttributeIconSize'' ''0'', Skinparam ''classBackgroundColor'' ''#FFF2CC'',
            Skinparam ''interfaceBackgroundColor'' ''#FFF2CC''] @
           concat (map (\<lambda>d. concat (map (classLines upper u) (decl_specs d))) (all_decls f1)) @
           concat (map (\<lambda>d. concat (map (associationLines u) (decl_specs d))) (all_decls f2)) @
           realizationLines rangeM rangeI u @ [Enduml]))"

text \<open>\<open>main\<close>: \<open>visit i\<close> is the order of the i-th walk through the packages. A panic ends the program.\<close>

definition gen_doc_main ::
  "(string \<Rightarrow> File option) \<Rightarrow> (string \<Rightarrow> bool) \<Rightarrow> (nat \<Rightarrow> packages \<Rightarrow> File list) \<Rightarrow> (names \<Rightarrow> names)
   \<Rightarrow> (string \<Rightarrow> names \<Rightarrow> names) \<Rightarrow> entry \<Rightarrow> (sheet \<times> line list) option" where
  "gen_doc_main parseFile upper visit rangeM rangeI root =
     (let pkgs = parseAll parseFile root in
      case generateExcel upper (visit 0 pkgs) of
        None \<Rightarrow> None
      | Some sheet \<Rightarrow>
          (case generatePlantUML upper rangeM rangeI (visit 1 pkgs) (visit 2 pkgs) (visit 3 pkgs) of
             None \<Rightarrow> None
           | Some lines \<Rightarrow> Some (sheet, lines)))"

section \<open>What the table shows\<close>

text \<open>The rows of a declaration, and the sheet that shows given rows from the first on.\<close>

definition field_rows :: "(string \<Rightarrow> bool) \<Rightarrow> string \<Rightarrow> Field \<Rightarrow> string list list" where
  "field_rows upper entity f =
     map (\<lambda>n. [entity, ''field'', n, exprToString (fd_Type f), visibility upper n,
               if getDoc (fd_Doc f) = [] then getDoc (fd_Comment f) else getDoc (fd_Doc f)]) (fd_Names f)"

definition method_rows :: "(string \<Rightarrow> bool) \<Rightarrow> string \<Rightarrow> Field \<Rightarrow> string list list" where
  "method_rows upper entity m =
     map (\<lambda>n. [entity, ''method'', n, exprToString (fd_Type m), visibility upper n, []]) (fd_Names m)"

fun spec_rows :: "(string \<Rightarrow> bool) \<Rightarrow> string \<Rightarrow> spec \<Rightarrow> string list list" where
  "spec_rows upper desc (TypeSpec name (StructType fs)) =
     [name, ''struct'', [], [], visibility upper name, desc] # concat (map (field_rows upper name) fs)"
| "spec_rows upper desc (TypeSpec name (InterfaceType ms)) =
     [name, ''interface'', [], [], visibility upper name, desc] # concat (map (method_rows upper name) ms)"
| "spec_rows upper desc _ = []"

fun decl_rows :: "(string \<Rightarrow> bool) \<Rightarrow> decl \<Rightarrow> string list list" where
  "decl_rows upper (GenDecl doc specs) = concat (map (spec_rows upper (getDoc doc)) specs)"
| "decl_rows upper (FuncDecl doc None name) = [[name, ''func'', [], [], visibility upper name, getDoc doc]]"
| "decl_rows upper (FuncDecl doc (Some (ty # _)) name) =
     [[cleanType (exprToString ty), ''method'', name, [], visibility upper name, getDoc doc]]"
| "decl_rows upper _ = []"

fun no_receiver :: "decl \<Rightarrow> bool" where
  "no_receiver (FuncDecl doc recv name) \<longleftrightarrow> recv = Some []"
| "no_receiver _ \<longleftrightarrow> False"

definition sheet_of :: "string list list \<Rightarrow> sheet" where
  "sheet_of rows = (\<lambda>(col, row).
     if 0 < row \<and> row \<le> length rows \<and> 0 < col \<and> col \<le> length (rows ! (row - 1))
     then Some (rows ! (row - 1) ! (col - 1)) else None)"

definition put_row :: "string list \<Rightarrow> excel \<Rightarrow> excel" where
  "put_row r = (\<lambda>(sheet, row). (setCells 1 row r sheet, Suc row))"

lemma setCells_apply:
  "setCells col row vs sheet (x, y) =
   (if y = row \<and> col \<le> x \<and> x < col + length vs then Some (vs ! (x - col)) else sheet (x, y))"
proof (induction vs arbitrary: col sheet)
  case (Cons v vs)
  have "x - col = Suc (x - Suc col)" if "Suc col \<le> x" using that by simp
  then show ?case by (auto simp: Cons.IH)
qed auto

lemma put_row_sheet_of:
  "put_row r (sheet_of rows, Suc (length rows)) = (sheet_of (rows @ [r]), Suc (length (rows @ [r])))"
proof -
  have "setCells 1 (Suc (length rows)) r (sheet_of rows) (x, y) = sheet_of (rows @ [r]) (x, y)" for x y
    by (cases "y = Suc (length rows)") (auto simp: setCells_apply sheet_of_def nth_append)
  then show ?thesis by (auto simp: put_row_def)
qed

lemma sheet_of_Nil: "sheet_of [] = Map.empty"
  by (auto simp: sheet_of_def)

lemma fold_put_row_sheet_of:
  "fold put_row rs (sheet_of rows, Suc (length rows)) = (sheet_of (rows @ rs), Suc (length (rows @ rs)))"
proof (induction rs arbitrary: rows)
  case (Cons r rs)
  then show ?case using Cons.IH [of "rows @ [r]"] put_row_sheet_of [of r rows] by simp
qed simp

lemma writeRow_put: "writeRow a b c d e f = put_row [a, b, c, d, e, f]"
  by (simp add: writeRow_def put_row_def)

lemma fold_rows: "(\<And>x. f x = fold put_row (g x)) \<Longrightarrow> fold f xs = fold put_row (concat (map g xs))"
  by (induction xs) auto

lemma excelField_rows: "excelField upper entity f = fold put_row (field_rows upper entity f)"
  by (simp add: excelField_def field_rows_def fold_map writeRow_put Let_def fun_eq_iff comp_def)

lemma excelMethod_rows: "excelMethod upper entity f = fold put_row (method_rows upper entity f)"
  by (simp add: excelMethod_def method_rows_def fold_map writeRow_put Let_def fun_eq_iff comp_def)

lemma excelSpec_rows: "excelSpec upper doc sp = fold put_row (spec_rows upper (getDoc doc) sp)"
  by (cases "(upper, getDoc doc, sp)" rule: spec_rows.cases)
     (auto simp: excelSpec_def writeRow_put fun_eq_iff fold_rows [OF excelField_rows] fold_rows [OF excelMethod_rows])

lemma excelDecl_rows:
  "excelDecl upper d st = (if no_receiver d then None else Some (fold put_row (decl_rows upper d) st))"
  by (cases "(upper, d)" rule: decl_rows.cases)
     (auto simp: excelDecl_def receiver_def writeRow_put fold_rows [OF excelSpec_rows])

lemma excelDecls_rows:
  "excelDecls upper ds st =
   (if list_ex no_receiver ds then None else Some (fold put_row (concat (map (decl_rows upper) ds)) st))"
  by (induction ds arbitrary: st) (auto simp: excelDecl_rows)

text \<open>
  C39. The table has the header in its first row and below it one row per struct, field, interface,
  interface method, method and function, in the order in which the files are visited and without a
  gap; no other cell is set. It is not written exactly when a function has an empty receiver list.
\<close>

theorem generateExcel_rows:
  "generateExcel upper files =
   (if list_ex no_receiver (all_decls files) then None
    else Some (sheet_of (headers # concat (map (decl_rows upper) (all_decls files)))))"
proof -
  have first: "(setCells 1 1 headers Map.empty, 2) = (sheet_of [headers], Suc (length [headers]))"
    using put_row_sheet_of [of headers "[]"] by (simp add: put_row_def sheet_of_Nil numeral_2_eq_2)
  show ?thesis
    unfolding generateExcel_def first excelDecls_rows fold_put_row_sheet_of by simp
qed

section \<open>What the diagram shows\<close>

definition declares :: "File list \<Rightarrow> string \<Rightarrow> type_expr \<Rightarrow> bool" where
  "declares files name ty \<longleftrightarrow> (\<exists>d \<in> set (all_decls files). TypeSpec name ty \<in> set (decl_specs d))"

text \<open>The methods that the declarations give to a name, as interface and as receiver.\<close>

fun spec_structs :: "spec \<Rightarrow> string set" where
  "spec_structs (TypeSpec name (StructType fs)) = {name}"
| "spec_structs _ = {}"

fun spec_methods :: "string \<Rightarrow> spec \<Rightarrow> string set" where
  "spec_methods i (TypeSpec name (InterfaceType ms)) = (if name = i then \<Union>m \<in> set ms. set (fd_Names m) else {})"
| "spec_methods i _ = {}"

fun decl_methods :: "string \<Rightarrow> decl \<Rightarrow> string set" where
  "decl_methods s (FuncDecl doc (Some tys) name) = (if receiver tys = Some s then {name} else {})"
| "decl_methods s _ = {}"

definition iface_methods :: "File list \<Rightarrow> string \<Rightarrow> string set" where
  "iface_methods files i = (\<Union>d \<in> set (all_decls files). \<Union>sp \<in> set (decl_specs d). spec_methods i sp)"

definition type_methods :: "File list \<Rightarrow> string \<Rightarrow> string set" where
  "type_methods files s = (\<Union>d \<in> set (all_decls files). decl_methods s d)"

text \<open>The two maps have each key once, and a key has a name.\<close>

definition names_ok :: "names \<Rightarrow> bool" where
  "names_ok m \<longleftrightarrow> distinct (map fst m) \<and> (\<forall>(k, vs) \<in> set m. vs \<noteq> [])"

lemma fst_appendTo: "fst ` set (appendTo k v m) = insert k (fst ` set m)"
  by (induction k v m rule: appendTo.induct) auto

lemma names_ok_appendTo: "names_ok m \<Longrightarrow> names_ok (appendTo k v m)"
  by (induction k v m rule: appendTo.induct) (auto simp: names_ok_def fst_appendTo)

lemma names_at_appendTo: "set (names_at (appendTo k v m) k') = (if k' = k then {v} else {}) \<union> set (names_at m k')"
proof (induction k v m rule: appendTo.induct)
  case (2 k v k2 vs m)
  then show ?case by (cases "k2 = k"; cases "k' = k2") (simp_all add: names_at_def)
qed (simp add: names_at_def)

lemma names_at_entry: "names_ok m \<Longrightarrow> (k, vs) \<in> set m \<longleftrightarrow> vs = names_at m k \<and> names_at m k \<noteq> []"
proof -
  assume ok: "names_ok m"
  then have iff: "(k, vs) \<in> set m \<longleftrightarrow> map_of m k = Some vs" by (simp add: names_ok_def)
  have "map_of m k = Some vs \<Longrightarrow> vs \<noteq> []" using ok iff by (auto simp: names_ok_def)
  then show ?thesis unfolding iff by (auto simp: names_at_def split: option.splits)
qed

text \<open>\<open>u'\<close> is \<open>u\<close> with the structs \<open>S\<close>, the interface methods \<open>I\<close> and the methods \<open>M\<close> added.\<close>

definition collected :: "string set \<Rightarrow> (string \<Rightarrow> string set) \<Rightarrow> (string \<Rightarrow> string set) \<Rightarrow> uml \<Rightarrow> uml \<Rightarrow> bool" where
  "collected S I M u u' \<longleftrightarrow>
     structs u' = S \<union> structs u \<and>
     (\<forall>i. set (names_at (interfaces u') i) = I i \<union> set (names_at (interfaces u) i)) \<and>
     (\<forall>s. set (names_at (structMethods u') s) = M s \<union> set (names_at (structMethods u) s)) \<and>
     (names_ok (interfaces u) \<longrightarrow> names_ok (interfaces u')) \<and>
     (names_ok (structMethods u) \<longrightarrow> names_ok (structMethods u'))"

lemma collected_refl: "collected {} (\<lambda>_. {}) (\<lambda>_. {}) u u"
  by (simp add: collected_def)

lemma collected_trans:
  "collected S I M u u' \<Longrightarrow> collected S' I' M' u' u'' \<Longrightarrow>
   collected (S \<union> S') (\<lambda>i. I i \<union> I' i) (\<lambda>s. M s \<union> M' s) u u''"
  by (auto simp: collected_def)

lemma collected_fold:
  assumes "\<And>x u. collected (S x) (\<lambda>i. I i x) (\<lambda>s. M s x) u (f x u)"
  shows "collected (\<Union>x \<in> set xs. S x) (\<lambda>i. \<Union>x \<in> set xs. I i x) (\<lambda>s. \<Union>x \<in> set xs. M s x) u (fold f xs u)"
proof (induction xs arbitrary: u)
  case (Cons x xs)
  show ?case using collected_trans [OF assms [of x u] Cons.IH [of "f x u"]] by simp
qed (simp add: collected_refl)

lemma collected_name:
  "collected {} (\<lambda>i. if i = name then {n} else {}) (\<lambda>_. {}) u (u\<lparr>interfaces := appendTo name n (interfaces u)\<rparr>)"
  by (simp add: collected_def names_at_appendTo names_ok_appendTo)

lemma collected_spec: "collected (spec_structs sp) (\<lambda>i. spec_methods i sp) (\<lambda>_. {}) u (collectSpec sp u)"
proof (cases "\<exists>name ms. sp = TypeSpec name (InterfaceType ms)")
  case False
  then show ?thesis
    by (cases sp rule: spec_structs.cases) (auto simp: collectSpec_def collected_def)
next
  case True
  then obtain name ms where 2: "sp = TypeSpec name (InterfaceType ms)" by blast
  have inner: "collected {} (\<lambda>i. if i = name then set (fd_Names m) else {}) (\<lambda>_. {}) u
      (fold (\<lambda>n u. u\<lparr>interfaces := appendTo name n (interfaces u)\<rparr>) (fd_Names m) u)" for m u
  proof -
    have "(\<lambda>i. \<Union>n \<in> set (fd_Names m). if i = name then {n} else {}) = (\<lambda>i. if i = name then set (fd_Names m) else {})"
      by (auto simp: fun_eq_iff)
    then show ?thesis
      using collected_fold [of "\<lambda>_. {}" "\<lambda>i n. if i = name then {n} else {}" "\<lambda>_ _. {}", OF collected_name, of "fd_Names m" u]
      by simp
  qed
  have "(\<lambda>i. \<Union>m \<in> set ms. if i = name then set (fd_Names m) else {}) = (\<lambda>i. spec_methods i sp)"
    using 2 by (auto simp: fun_eq_iff)
  then show ?thesis
    using 2 collected_fold [of "\<lambda>_. {}" "\<lambda>i m. if i = name then set (fd_Names m) else {}" "\<lambda>_ _. {}", OF inner, of ms u]
    by (simp add: collectSpec_def)
qed

lemma collected_decl:
  assumes "collectDecl d u = Some u'"
  shows "collected (\<Union>sp \<in> set (decl_specs d). spec_structs sp) (\<lambda>i. \<Union>sp \<in> set (decl_specs d). spec_methods i sp)
           (\<lambda>s. decl_methods s d) u u'"
proof (cases d)
  case (GenDecl doc specs)
  then show ?thesis
    using assms collected_fold [of spec_structs spec_methods "\<lambda>_ _. {}", OF collected_spec, of specs u]
    by (simp add: collectDecl_def decl_specs_def)
next
  case (FuncDecl doc recv name)
  then show ?thesis using assms
    by (auto simp: collectDecl_def decl_specs_def collected_def names_at_appendTo names_ok_appendTo split: option.splits)
qed (use assms in \<open>simp add: collectDecl_def decl_specs_def collected_refl\<close>)

lemma collected_decls:
  "collectDecls ds u = Some u' \<Longrightarrow>
   collected (\<Union>d \<in> set ds. \<Union>sp \<in> set (decl_specs d). spec_structs sp)
     (\<lambda>i. \<Union>d \<in> set ds. \<Union>sp \<in> set (decl_specs d). spec_methods i sp) (\<lambda>s. \<Union>d \<in> set ds. decl_methods s d) u u'"
proof (induction ds arbitrary: u)
  case (Cons d ds)
  obtain v where v: "collectDecl d u = Some v" "collectDecls ds v = Some u'"
    using Cons.prems by (auto split: option.splits)
  show ?case using collected_trans [OF collected_decl [OF v(1)] Cons.IH [OF v(2)]] by simp
qed (simp add: collected_refl)

lemma collectDecls_None_iff: "collectDecls ds u = None \<longleftrightarrow> list_ex no_receiver ds"
proof (induction ds arbitrary: u)
  case (Cons d ds)
  have "collectDecl d u = None \<longleftrightarrow> no_receiver d"
    by (cases d) (auto simp: collectDecl_def receiver_def split: option.splits list.splits)
  then show ?case by (auto simp: Cons.IH split: option.splits)
qed simp

lemma set_all_decls: "mset f = mset g \<Longrightarrow> set (all_decls f) = set (all_decls g)"
  by (auto simp: all_decls_def dest: mset_eq_setD)

lemma mem_structs: "n \<in> spec_structs sp \<longleftrightarrow> (\<exists>fs. sp = TypeSpec n (StructType fs))"
  by (cases sp rule: spec_structs.cases) auto

lemma associationLines_iff:
  "Association a b \<in> set (associationLines u sp) \<longleftrightarrow>
   (\<exists>fs f. sp = TypeSpec a (StructType fs) \<and> f \<in> set fs \<and> b = cleanType (exprToString (fd_Type f)) \<and> b \<in> structs u)"
  by (auto simp: associationLines_def Let_def split: spec.splits type_expr.splits if_splits)

lemma implements_iff: "implements ms is \<longleftrightarrow> is \<noteq> [] \<and> set is \<subseteq> set ms"
  by (auto simp: implements_def list_all_iff)

lemma realizationLines_iff:
  assumes "names_ok (interfaces u)" "names_ok (structMethods u)"
    and "\<And>m. mset (rangeM m) = mset m" "\<And>s m. mset (rangeI s m) = mset m"
  shows "Realization s i \<in> set (realizationLines rangeM rangeI u) \<longleftrightarrow>
    names_at (interfaces u) i \<noteq> [] \<and> set (names_at (interfaces u) i) \<subseteq> set (names_at (structMethods u) s)"
proof -
  have "set (rangeM m) = set m" "set (rangeI s m) = set m" for s m
    using assms(3,4) mset_eq_setD by blast+
  then have "Realization s i \<in> set (realizationLines rangeM rangeI u) \<longleftrightarrow>
      (\<exists>ms is. (s, ms) \<in> set (structMethods u) \<and> (i, is) \<in> set (interfaces u) \<and> implements ms is)"
    unfolding realizationLines_def by (auto split: if_splits prod.splits) (metis case_prodI)+
  then show ?thesis
    by (auto simp: names_at_entry assms(1,2) implements_iff)
qed

lemma no_relation_in_classLines:
  "Association a b \<notin> set (classLines upper u sp)" "Realization a b \<notin> set (classLines upper u sp)"
  by (auto simp: classLines_def split: spec.splits type_expr.splits)

lemma only_associations: "Realization a b \<notin> set (associationLines u sp)"
  by (auto simp: associationLines_def Let_def split: spec.splits type_expr.splits if_splits)

lemma only_realizations: "Association a b \<notin> set (realizationLines rangeM rangeI u)"
  by (auto simp: realizationLines_def split: if_splits)

text \<open>
  C40. In whatever order the maps are visited, the diagram is drawn when no receiver list is empty, and
  it has an arrow between two structs exactly when the first has a field whose type, without one
  pointer, one slice and the package, is the name of the second; and it says that a type realizes an
  interface exactly when the methods declared under the name of the interface are not empty and all
  declared for the name of the type.
\<close>

theorem diagram_relations:
  fixes rangeM :: "names \<Rightarrow> names" and rangeI :: "string \<Rightarrow> names \<Rightarrow> names"
  assumes received: "\<not> list_ex no_receiver (all_decls f0)"
    and order: "mset f1 = mset f0" "mset f2 = mset f0"
    and ranges: "\<And>m. mset (rangeM m) = mset m" "\<And>s m. mset (rangeI s m) = mset m"
  shows "\<exists>ls. generatePlantUML upper rangeM rangeI f0 f1 f2 = Some ls \<and>
    (\<forall>a b. Association a b \<in> set ls \<longleftrightarrow>
       (\<exists>fs f. declares f0 a (StructType fs) \<and> f \<in> set fs \<and> b = cleanType (exprToString (fd_Type f)))
       \<and> (\<exists>fs. declares f0 b (StructType fs))) \<and>
    (\<forall>s i. Realization s i \<in> set ls \<longleftrightarrow>
       iface_methods f0 i \<noteq> {} \<and> iface_methods f0 i \<subseteq> type_methods f0 s)"
proof -
  let ?u0 = "\<lparr>structs = {}, interfaces = [], structMethods = []\<rparr>"
  obtain u where u: "collectDecls (all_decls f0) ?u0 = Some u"
    using collectDecls_None_iff [of "all_decls f0" ?u0] received by auto
  have empty: "names_ok []" "\<And>k. names_at [] k = []" by (simp_all add: names_ok_def names_at_def)
  have c: "n \<in> structs u \<longleftrightarrow> (\<exists>fs. declares f0 n (StructType fs))"
      "set (names_at (interfaces u) i) = iface_methods f0 i"
      "set (names_at (structMethods u) s) = type_methods f0 s"
      "names_ok (interfaces u)" "names_ok (structMethods u)" for n i s
    using collected_decls [OF u]
    by (auto simp: collected_def empty declares_def iface_methods_def type_methods_def mem_structs)
  have drawn: "Association a b \<in> set (concat (map (\<lambda>d. concat (map (associationLines u) (decl_specs d))) (all_decls f2)))
      \<longleftrightarrow> (\<exists>fs f. declares f0 a (StructType fs) \<and> f \<in> set fs \<and> b = cleanType (exprToString (fd_Type f))) \<and> b \<in> structs u" for a b
    using set_all_decls [OF order(2)] by (auto simp: associationLines_iff declares_def)
  have real: "Realization s i \<in> set (realizationLines rangeM rangeI u) \<longleftrightarrow>
      iface_methods f0 i \<noteq> {} \<and> iface_methods f0 i \<subseteq> type_methods f0 s" for s i
    unfolding realizationLines_iff [of u rangeM rangeI, OF c(4,5) ranges] c(2,3) [symmetric] by simp
  show ?thesis
    unfolding generatePlantUML_def u
    using drawn real by (simp add: c(1) no_relation_in_classLines only_associations only_realizations)
qed

text \<open>A struct with a field of another struct's type, which has the method of an interface.\<close>

definition sample_storage :: File where
  "sample_storage = \<lparr>file_Name = ''postgres'',
     file_Decls = [GenDecl None [TypeSpec ''Storage'' (StructType [])],
                   FuncDecl None (Some [StarExpr (Ident ''Storage'')]) ''SaveReports'']\<rparr>"

definition sample_consumer :: File where
  "sample_consumer = \<lparr>file_Name = ''scraper'',
     file_Decls =
       [GenDecl None [TypeSpec ''saver'' (InterfaceType
          [\<lparr>fd_Doc = None, fd_Names = [''SaveReports''], fd_Type = FuncType, fd_Comment = None\<rparr>])],
        GenDecl None [TypeSpec ''Consumer'' (StructType
          [\<lparr>fd_Doc = None, fd_Names = [''storage''],
            fd_Type = StarExpr (SelectorExpr (Ident ''postgres'') ''Storage''), fd_Comment = None\<rparr>])]]\<rparr>"

theorem diagram_relations_witness:
  "\<exists>ls. generatePlantUML (\<lambda>_. False) rev (\<lambda>_. rev) [sample_storage, sample_consumer] [sample_consumer, sample_storage]
          [sample_storage, sample_consumer] = Some ls \<and>
     Association ''Consumer'' ''Storage'' \<in> set ls \<and> Realization ''Storage'' ''saver'' \<in> set ls \<and>
     Association ''Storage'' ''Consumer'' \<notin> set ls \<and> Realization ''Consumer'' ''saver'' \<notin> set ls"
proof -
  have clean: "cleanType (exprToString (StarExpr (SelectorExpr (Ident ''postgres'') ''Storage''))) = ''Storage''"
    "cleanType (exprToString (StarExpr (Ident ''Storage''))) = ''Storage''"
    by code_simp+
  note samples = sample_storage_def sample_consumer_def all_decls_def declares_def decl_specs_def
    iface_methods_def type_methods_def receiver_def
  have "\<not> list_ex no_receiver (all_decls [sample_storage, sample_consumer])" by (simp add: samples)
  from diagram_relations [OF this, of "[sample_consumer, sample_storage]" "[sample_storage, sample_consumer]" rev "\<lambda>_. rev" "\<lambda>_. False"]
  show ?thesis using clean by (auto simp: samples)
qed

section \<open>Which files are read\<close>

fun visited :: "entry \<Rightarrow> string list" where
  "visited (FileEntry path) = [path]"
| "visited (DirEntry path entries) = (if skipped_dir path then [] else path # concat (map visited entries))"
| "visited (ClosedDir path) = []"
| "visited (BadEntry path) = []"

definition go_source :: "string \<Rightarrow> bool" where
  "go_source path \<longleftrightarrow> HasSuffix path ''.go'' \<and> \<not> HasSuffix path ''_test.go''"

definition pkg_entries :: "packages \<Rightarrow> (string \<times> string \<times> File) set" where
  "pkg_entries pkgs = {(n, path, f). \<exists>files. (n, files) \<in> set pkgs \<and> (path, f) \<in> set files}"

definition read_files :: "(string \<Rightarrow> File option) \<Rightarrow> string set \<Rightarrow> (string \<times> string \<times> File) set" where
  "read_files parseFile paths = {(n, path, f). path \<in> paths \<and> go_source path \<and> parseFile path = Some f \<and> n = file_Name f}"

lemma addFile_entries:
  "pkg_entries pkgs \<subseteq> read_files parseFile UNIV \<Longrightarrow> parseFile path = Some f \<Longrightarrow>
   pkg_entries (addFile n path f pkgs) = insert (n, path, f) (pkg_entries pkgs)"
proof (induction pkgs)
  case (Cons p pkgs)
  obtain k files where p: "p = (k, files)" by fastforce
  have split: "pkg_entries ((k, fs) # pkgs) = {(k, e) | e. e \<in> set fs} \<union> pkg_entries pkgs" for k fs pkgs
    by (auto simp: pkg_entries_def)
  have same: "(path, f') \<in> set files \<Longrightarrow> f' = f" for f'
  proof -
    assume "(path, f') \<in> set files"
    then have "(k, path, f') \<in> read_files parseFile UNIV" using Cons.prems(1) unfolding p split by blast
    then show ?thesis using Cons.prems(2) by (simp add: read_files_def)
  qed
  have upd: "set (AList.update path f files) = insert (path, f) (set files)"
    using same by (induction files) auto
  show ?case using Cons upd unfolding p by (auto simp: split)
qed (auto simp: pkg_entries_def)

lemma read_files_insert:
  "read_files parseFile (insert path paths) =
   (if go_source path then {(file_Name f, path, f) | f. parseFile path = Some f} else {}) \<union> read_files parseFile paths"
  by (auto simp: read_files_def)

lemma read_files_mono: "read_files parseFile paths \<subseteq> read_files parseFile UNIV"
  by (auto simp: read_files_def)

lemma visitPath_entries:
  assumes "pkg_entries pkgs = read_files parseFile paths"
  shows "pkg_entries (visitPath parseFile path pkgs) = read_files parseFile (insert path paths)"
  using assms addFile_entries [of pkgs parseFile path] read_files_mono [of parseFile paths]
  by (auto simp: visitPath_def read_files_insert go_source_def split: option.splits)

lemma walkEntry_entries:
  "pkg_entries pkgs = read_files parseFile paths \<Longrightarrow>
   pkg_entries (walkEntry parseFile e pkgs) = read_files parseFile (set (visited e) \<union> paths)"
proof (induction e arbitrary: pkgs paths)
  case (DirEntry path es)
  have "pkg_entries (fold (walkEntry parseFile) es ps) = read_files parseFile (set (concat (map visited es)) \<union> qs)"
    if "pkg_entries ps = read_files parseFile qs" for ps qs
    using DirEntry.IH that
  proof (induction es arbitrary: ps qs)
    case (Cons e es)
    then show ?case
      using Cons.IH [of "walkEntry parseFile e ps" "set (visited e) \<union> qs"] by (simp add: Un_ac)
  qed simp
  from this [OF visitPath_entries [OF DirEntry.prems, of path]] show ?case
    using DirEntry.prems by simp
qed (simp_all add: visitPath_entries)

text \<open>
  The packages hold exactly the Go files, tests excepted, that parse and are reached without entering
  a directory that is skipped, each under the package its clause names.
\<close>

lemma parseAll_entries: "pkg_entries (parseAll parseFile root) = read_files parseFile (set (visited root))"
  using walkEntry_entries [of "[]" parseFile "{}" root] by (simp add: parseAll_def pkg_entries_def read_files_def)

end
