(* ===== verification/Spec2Isabelle.thy ===== *)
theory Spec2Isabelle
  imports Pipeline Cluster Delivery Startup Http_Api Gen_Doc
begin

text \<open>
  \<^bold>\<open>Metric Sherlock: a verification development.\<close>

  \<^bold>\<open>The program.\<close> A node reads a Prometheus service-discovery file on a cron schedule and stores one
  scrape task per static config in PostgreSQL (\<open>internal/scrapetask\<close>). Consumers on the nodes that
  do not lead take pending tasks, scrape their targets in a pool of workers, and check metric
  names, label names and values, cardinality, histogram buckets and the size of the response
  against limits and whitelists (\<open>internal/scraper\<close>). Reports and target groups are saved in batches
  (\<open>internal/storage/postgres\<close>); saving a report also writes one outbox event per violated check, which
  a relay publishes to Kafka (\<open>internal/outbox\<close>). Limits and the cron expression are runtime settings
  in etcd (\<open>internal/runtimeconfig\<close>, \<open>internal/storage/etcdstorage\<close>); a scheduler keeps the cron
  manager (\<open>pkg/cron\<close>) in step with them. An HTTP API shows the results and edits whitelists and
  settings (\<open>internal/httpapi\<close>), behind a verifier of JWTs (\<open>pkg/jwtclaims\<close>). Leader election
  (\<open>internal/leaderelection\<close>) decides which node runs the cron manager. \<open>cmd/main.go\<close> wires it all.
  \<open>gen_doc.go\<close> is a program of its own that tabulates and draws the declarations of the sources.

  \<^bold>\<open>Theories and code.\<close>
  \<^item> \<open>Prelude\<close>: Go errors (\<open>goerr\<close>, \<open>errors_Is\<close>), results, \<open>strings\<close> functions, decimal printing.
  \<^item> \<open>Whitelists\<close>, \<open>Violations\<close>, \<open>Metrics_Client\<close>, \<open>Processing\<close>: \<open>scraper/limits.go\<close>, \<open>whitelist.go\<close>,
    \<open>report.go\<close>, \<open>target_group.go\<close>, \<open>client.go\<close>, \<open>processor.go\<close>. \<open>Check_Semantics\<close> gives the verdicts of all
    checks as sets of observations and shows that \<open>Process\<close> computes exactly them.
  \<^item> \<open>Scrape_Tasks\<close>: tasks, discovery file and the producing job. \<open>Cron\<close>: \<open>pkg/cron\<close> and \<open>scheduler.go\<close>.
  \<^item> \<open>Consumer\<close>: the loop of \<open>task_consumer.go\<close> on any sequence of events. \<open>Worker_Pool\<close>: \<open>worker_pool.go\<close>
    with the consumer at both ends of its channels, as a step relation over all interleavings.
  \<^item> \<open>Json\<close>, \<open>Json_Codec\<close>, \<open>Report_Json\<close>: what the program uses of \<open>encoding/json\<close>: parser, printer,
    decoding into structs, and the forms of reports, limits and check lists.
  \<^item> \<open>Database\<close>: the tables, connections that fail, transactions and \<open>postgres.go\<close>. On it \<open>Outbox\<close>
    (\<open>outbox.go\<close> and \<open>outbox/relay.go\<close>), \<open>Reports\<close>, \<open>Task_Storage\<close>, \<open>Target_Groups\<close>, \<open>Whitelist_Storage\<close>.
  \<^item> \<open>Runtime_Config\<close>: \<open>etcdstorage/client.go\<close> and \<open>runtimeconfig/service.go\<close>.
  \<^item> \<open>Api_Messages\<close>, \<open>Api\<close>: \<open>httpapi/target_groups_service.go\<close>, converters and handlers.
  \<^item> \<open>Base64url\<close>, \<open>Jwt\<close>: \<open>pkg/jwtclaims\<close>. \<open>Http_Handler\<close>, \<open>Swagger_Pages\<close>: \<open>httpapi/http.go\<close>
    with the texts of its pages, \<open>auth_middleware.go\<close>.
  \<^item> \<open>Gateway\<close>: \<open>proto/metricsherlock/targetgroups/v1/target_groups.pb.gw.go\<close>, from HTTP requests to
    calls. \<open>Http_Api\<close>: the handler of \<open>http.go\<close> with this gateway and the service of \<open>Api\<close> behind it.
  \<^item> \<open>Pipeline\<close>: from \<open>Process\<close> over \<open>SaveReports\<close> to \<open>GetTargetGroup\<close>.
  \<^item> \<open>Cluster\<close>: several nodes on one database, as a step relation over all interleavings of the storage
    calls, losses of connections and crashes. \<open>Delivery\<close>: from \<open>SaveReports\<close> over the relay to the broker.
  \<^item> \<open>Leadership\<close>: the electors and the callbacks of \<open>main\<close>. \<open>Startup\<close>: \<open>main\<close> itself.
  \<^item> \<open>Gen_Doc\<close>: \<open>gen_doc.go\<close>, its walk, its table and its diagram.

  State is passed explicitly: a SQL statement is a function on the record of tables, a handler a
  function on what it can change, a goroutine's step a transition. Every error return and early
  return is a branch. Definitions have the names of the source; a suffix avoids a clash.

  \<^bold>\<open>Interfaces.\<close> Where the code uses an interface, a locale states its laws and the client's lemmas
  are proved in it: \<open>cron_manager\<close> (scheduler over manager), \<open>kv_store\<close> (settings over etcd),
  \<open>outbox_store\<close> (relay over storage and broker), \<open>keyed_table\<close> (upserts over tables with a key),
  \<open>violation_log\<close> and \<open>details_log\<close> (the five kinds of violation lists), \<open>codec\<close> (JSON forms),
  \<open>rule_store\<close> (API over whitelist tables), \<open>token_verifier\<close> (middleware over verifier),
  \<open>service_invariant\<close> (gateway over the twelve calls of the service). Each is interpreted on the
  definitions of the component that implements it.

  \<^bold>\<open>What is shown.\<close>
  \<^item> Checks: \<open>Process\<close> refines the specification of verdicts, does not depend on map order, and its lists
    and maxima are exact; its numbers stay in the range of Go's integers.
  \<^item> Delivery: a row is marked sent only if its message is in the broker's log; saving is all or
    nothing (when the connection is lost during the commit, nobody knows which); a claimed message is not
    claimed again within a minute unless its delivery is marked as failed. After saving has succeeded and
    any outage of the database and the broker has ended, the event of every violation is delivered after as
    many flushes as the backlog fills batches, unless the outage used up its retries: then its row is
    failed for good.
  \<^item> Cluster: no task is run twice, on one node or on two, and what is stored about a task is what its run
    gave. The tasks of a node that crashes are lost: they never run again, and their rows stay running
    until the cleanup deletes them. Progress is not stated for the cluster, whose steps allow more than the
    loop of the consumer does; \<open>Worker_Pool\<close> shows where that loop can block for good.
  \<^item> Concurrency: the pool neither loses nor duplicates a task before it is cancelled, makes progress
    while the consumer is at its \<open>select\<close>, and stops; and it can block for good while tasks are
    submitted. The consumer's batches conserve results under any failures.
  \<^item> Settings and schedule: updates are atomic, the loop follows etcd, limits are positive.
  \<^item> Whitelists and reports: what is saved is what takes effect and what the API shows, from the
    scrape to the answer of the API.
  \<^item> HTTP: the compiled routes accept exactly the paths of their templates and none is ambiguous; no
    sequence of requests breaks the whitelist tables, the schedule or the settings in the key-value store; a
    \<open>DELETE\<close> removes the rule it names.
  \<^item> Security: nothing reaches the gateway without a token that is signed by a key the verifier holds or
    fetches, meant for this issuer and client, and not expired; that it is not from the future is shown for
    time stamps \<open>time.Unix\<close> can represent. Honest tokens are accepted.
  \<^item> Start-up and leadership: when a node starts, and what holds then; who runs the cron manager, when the
    callbacks are registered in time and changes of leadership do not overlap (\<open>main\<close> ensures neither).
  \<^item> Documentation: the table has exactly the declared rows, the diagram exactly the declared relations.

  \<^bold>\<open>Loops and fuel.\<close> \<open>sendBatch\<close> retries deadlocks for ever and is a partial function into \<open>option\<close>,
  with an exact characterization of when it returns. The JSON parser takes fuel, twice the length
  of its input plus one; \<open>Json\<close> shows that this is enough for every text. Event loops are functions of
  the events they take; all other recursion is structural or has a measure. Integers are \<open>int\<close>
  where the values cannot leave 64 bits, are checked against that range where they come from
  outside, and are 32-bit words where the API narrows them; times wrap as in Go's \<open>time\<close>.

  \<^bold>\<open>Parameters.\<close> What the repository calls and does not contain is an argument: the HTTP exchange and
  the exposition parser, the YAML decoder and file system, the cron library's parser, the
  database driver's failures and locks, the collation, the Kafka writer, the protobuf
  serializer, UUIDs, the etcd client, RSA verification, URL parsing, the clock, the printing of
  floats, the gateway's run-time library with its multiplexer, the configuration
  library, the election library and the Go parser.

  \<^bold>\<open>Not modelled.\<close> The generated code under \<open>proto/\<close> beyond the gateway and the fields of the messages:
  descriptors, reflection and the gRPC stubs, which the program does not call, and the registration
  that dials a remote service. The files \<open>gen_doc.go\<close> writes (their contents are modelled).
  Other clients of etcd: the calls of this node are not interleaved with theirs, so the race in the
  check-then-put of \<open>ensureKey\<close> does not show. An error of \<open>cmd.Close\<close> after all statements of a batch
  have succeeded, which \<open>sendBatch\<close> logs and drops. The Unicode variants of k and s that \<open>encoding/json\<close>
  accepts in member names: names are folded in ASCII. The opcodes of the gateway's patterns are
  interpreted as its library documents them.
  Logging, the order in which the closer library runs its hooks, timeouts of contexts (a timed-out
  call is a failing one), and SQL beyond the statements the code sends. Strings are sequences of
  bytes; Unicode case folding is not needed by the code beyond ASCII.
\<close>

end
